(* ===== verification/Prelude.thy ===== *)
theory Prelude
  imports
    Main
    "HOL-Library.Word"
    "HOL-Library.Char_ord"
    "HOL-Library.List_Lexorder"
    "HOL-Library.Product_Lexorder"
    "HOL-Library.Sublist"
    "HOL-Library.Multiset"
    "HOL-Library.AList"
begin

text \<open>
  Shared vocabulary of the development: the machine integers and the pieces of the Rust
  standard library that the modelled crates use (byte strings, fallible iteration, \<open>max_by_key\<close>,
  stable sorting, \<open>dedup\<close>), with the generic lemmas the component theories rest on.

  A Rust \<open>String\<close> is its UTF-8 byte sequence, a HOL \<open>string\<close>: comparison, prefix,
  suffix and substring tests, ASCII case folding and \<open>len\<close> are all defined on bytes in Rust, so
  they are the same functions here. A \<open>Result<A, E>\<close> is \<open>'e + 'a\<close> with \<open>Inl\<close> the error.
\<close>

section \<open>Machine integers\<close>

type_synonym u8 = "8 word"
type_synonym u32 = "32 word"
type_synonym u64 = "64 word"

section \<open>Automation collections\<close>

text \<open>
  \<open>rust_simps\<close> unfolds the string and iterator helpers on concrete data; \<open>result_simps\<close>
  turns a successful fallible loop into a statement about pure lists.
\<close>

named_theorems rust_simps
named_theorems result_simps

section \<open>Definitions\<close>

subsection \<open>Strings\<close>

definition str_starts_with :: "string \<Rightarrow> string \<Rightarrow> bool" where
  "str_starts_with s p \<longleftrightarrow> take (length p) s = p"

definition str_ends_with :: "string \<Rightarrow> string \<Rightarrow> bool" where
  "str_ends_with s p \<longleftrightarrow> length p \<le> length s \<and> drop (length s - length p) s = p"

fun str_contains :: "string \<Rightarrow> string \<Rightarrow> bool" where
  "str_contains [] p = (p = [])"
| "str_contains (c # s) p = (str_starts_with (c # s) p \<or> str_contains s p)"

text \<open>\<open>strip_prefix\<close> and \<open>strip_suffix\<close> return \<open>None\<close> when the affix is absent.\<close>

definition str_strip_prefix :: "string \<Rightarrow> string \<Rightarrow> string option" where
  "str_strip_prefix s p = (if str_starts_with s p then Some (drop (length p) s) else None)"

definition str_strip_suffix :: "string \<Rightarrow> string \<Rightarrow> string option" where
  "str_strip_suffix s p =
     (if str_ends_with s p then Some (take (length s - length p) s) else None)"

definition ascii_lower :: "char \<Rightarrow> char" where
  "ascii_lower c =
     (if (65::nat) \<le> of_char c \<and> (of_char c::nat) \<le> 90 then char_of ((of_char c::nat) + 32) else c)"

definition to_ascii_lowercase :: "string \<Rightarrow> string" where
  "to_ascii_lowercase s = map ascii_lower s"

definition eq_ignore_ascii_case :: "string \<Rightarrow> string \<Rightarrow> bool" where
  "eq_ignore_ascii_case s t \<longleftrightarrow> to_ascii_lowercase s = to_ascii_lowercase t"

text \<open>\<open>[a, b, c].join(sep)\<close>.\<close>

fun str_join :: "string \<Rightarrow> string list \<Rightarrow> string" where
  "str_join sep [] = []"
| "str_join sep [s] = s"
| "str_join sep (s # t # ss) = s @ sep @ str_join sep (t # ss)"

text \<open>\<open>s.split(c)\<close> for a one-byte separator: never empty.\<close>

fun str_split :: "char \<Rightarrow> string \<Rightarrow> string list" where
  "str_split c [] = [[]]"
| "str_split c (x # s) =
     (if x = c then [] # str_split c s
      else (case str_split c s of [] \<Rightarrow> [[x]] | t # ts \<Rightarrow> (x # t) # ts))"

text \<open>\<open>s.replace(c, d)\<close> for one-byte patterns.\<close>

definition str_replace_char :: "char \<Rightarrow> char \<Rightarrow> string \<Rightarrow> string" where
  "str_replace_char c d s = map (\<lambda>x. if x = c then d else x) s"

text \<open>\<open>s.rsplit_once(c)\<close>: split at the last occurrence.\<close>

fun str_rsplit_once :: "char \<Rightarrow> string \<Rightarrow> (string \<times> string) option" where
  "str_rsplit_once c [] = None"
| "str_rsplit_once c (x # s) =
     (case str_rsplit_once c s of
        Some (a, b) \<Rightarrow> Some (x # a, b)
      | None \<Rightarrow> if x = c then Some ([], s) else None)"

text \<open>
  The code points with the Unicode property White\_Space, as UTF-8 byte sequences. Every sequence
  starts with a lead byte, so on valid UTF-8 a byte-level match is a character match.
\<close>

definition whitespace_seqs :: "string list" where
  "whitespace_seqs =
     [[CHR 0x09], [CHR 0x0A], [CHR 0x0B], [CHR 0x0C], [CHR 0x0D], [CHR 0x20],
      [CHR 0xC2, CHR 0x85], [CHR 0xC2, CHR 0xA0], [CHR 0xE1, CHR 0x9A, CHR 0x80],
      [CHR 0xE2, CHR 0x80, CHR 0x80], [CHR 0xE2, CHR 0x80, CHR 0x81],
      [CHR 0xE2, CHR 0x80, CHR 0x82], [CHR 0xE2, CHR 0x80, CHR 0x83],
      [CHR 0xE2, CHR 0x80, CHR 0x84], [CHR 0xE2, CHR 0x80, CHR 0x85],
      [CHR 0xE2, CHR 0x80, CHR 0x86], [CHR 0xE2, CHR 0x80, CHR 0x87],
      [CHR 0xE2, CHR 0x80, CHR 0x88], [CHR 0xE2, CHR 0x80, CHR 0x89],
      [CHR 0xE2, CHR 0x80, CHR 0x8A], [CHR 0xE2, CHR 0x80, CHR 0xA8],
      [CHR 0xE2, CHR 0x80, CHR 0xA9], [CHR 0xE2, CHR 0x80, CHR 0xAF],
      [CHR 0xE2, CHR 0x81, CHR 0x9F], [CHR 0xE3, CHR 0x80, CHR 0x80]]"

definition str_has_whitespace :: "string \<Rightarrow> bool" where
  "str_has_whitespace s \<longleftrightarrow> list_ex (str_contains s) whitespace_seqs"

text \<open>\<open>s.trim()\<close>: drop leading and trailing white space.\<close>

fun str_trim_start_fuel :: "nat \<Rightarrow> string \<Rightarrow> string" where
  "str_trim_start_fuel 0 s = s"
| "str_trim_start_fuel (Suc n) s =
     (case find (str_starts_with s) whitespace_seqs of
        None \<Rightarrow> s
      | Some w \<Rightarrow> str_trim_start_fuel n (drop (length w) s))"

fun str_trim_end_fuel :: "nat \<Rightarrow> string \<Rightarrow> string" where
  "str_trim_end_fuel 0 s = s"
| "str_trim_end_fuel (Suc n) s =
     (case find (str_ends_with s) whitespace_seqs of
        None \<Rightarrow> s
      | Some w \<Rightarrow> str_trim_end_fuel n (take (length s - length w) s))"

definition str_trim :: "string \<Rightarrow> string" where
  "str_trim s =
     (let t = str_trim_start_fuel (length s) s in str_trim_end_fuel (length t) t)"

text \<open>\<open>s.trim_matches(p)\<close> for a predicate on one-byte characters.\<close>

definition str_trim_matches :: "(char \<Rightarrow> bool) \<Rightarrow> string \<Rightarrow> string" where
  "str_trim_matches P s = rev (dropWhile P (rev (dropWhile P s)))"

text \<open>Byte classes of \<open>char::is_ascii_*\<close>.\<close>

definition is_ascii_alphabetic :: "char \<Rightarrow> bool" where
  "is_ascii_alphabetic c \<longleftrightarrow>
     (let n = (of_char c :: nat) in (65 \<le> n \<and> n \<le> 90) \<or> (97 \<le> n \<and> n \<le> 122))"

definition is_ascii_digit :: "char \<Rightarrow> bool" where
  "is_ascii_digit c \<longleftrightarrow> (let n = (of_char c :: nat) in 48 \<le> n \<and> n \<le> 57)"

definition is_ascii_alphanumeric :: "char \<Rightarrow> bool" where
  "is_ascii_alphanumeric c \<longleftrightarrow> is_ascii_alphabetic c \<or> is_ascii_digit c"

text \<open>Decimal rendering of an unsigned integer, as \<open>{}\<close> formats it.\<close>

fun show_nat :: "nat \<Rightarrow> string" where
  "show_nat n =
     (if n < 10 then [char_of (48 + n)] else show_nat (n div 10) @ [char_of (48 + n mod 10)])"

declare show_nat.simps [simp del]

subsection \<open>Fallible iteration\<close>

text \<open>
  \<open>try_all f\<close> is the loop \<open>for x in xs { if !f(x)? { return Ok(false); } } Ok(true)\<close>;
  \<open>try_filter f\<close> is \<open>for x in xs { if f(x)? { hits.push(x); } }\<close>.
\<close>

fun try_all :: "('a \<Rightarrow> 'e + bool) \<Rightarrow> 'a list \<Rightarrow> 'e + bool" where
  "try_all f [] = Inr True"
| "try_all f (x # xs) =
     (case f x of Inl e \<Rightarrow> Inl e | Inr b \<Rightarrow> if \<not> b then Inr False else try_all f xs)"

fun try_filter :: "('a \<Rightarrow> 'e + bool) \<Rightarrow> 'a list \<Rightarrow> 'e + 'a list" where
  "try_filter f [] = Inr []"
| "try_filter f (x # xs) =
     (case f x of
        Inl e \<Rightarrow> Inl e
      | Inr b \<Rightarrow> (case try_filter f xs of
            Inl e \<Rightarrow> Inl e
          | Inr ys \<Rightarrow> Inr (if b then x # ys else ys)))"

subsection \<open>Iterators\<close>

text \<open>\<open>Iterator::max_by_key\<close>: the last of the maximal elements.\<close>

fun max_by_key :: "('a \<Rightarrow> 'k::linorder) \<Rightarrow> 'a list \<Rightarrow> 'a option" where
  "max_by_key f [] = None"
| "max_by_key f (x # xs) = Some (foldl (\<lambda>a b. if f b < f a then a else b) x xs)"

text \<open>\<open>Vec::dedup\<close> drops an element equal to its predecessor.\<close>

fun vec_dedup :: "'a list \<Rightarrow> 'a list" where
  "vec_dedup [] = []"
| "vec_dedup [x] = [x]"
| "vec_dedup (x # y # ys) = (if x = y then vec_dedup (y # ys) else x # vec_dedup (y # ys))"

text \<open>\<open>retain(|k| seen.insert(k))\<close>: keep the first occurrence of each element, in order.\<close>

fun retain_first :: "'a set \<Rightarrow> 'a list \<Rightarrow> 'a list" where
  "retain_first seen [] = []"
| "retain_first seen (x # xs) =
     (if x \<in> seen then retain_first seen xs else x # retain_first (insert x seen) xs)"

section \<open>Lemmas\<close>

subsection \<open>Strings\<close>

lemma starts_with_prefix [simp]: "str_starts_with s p \<longleftrightarrow> prefix p s"
  by (auto simp: str_starts_with_def prefix_def) (metis append_take_drop_id)

lemma ends_with_suffix [simp]: "str_ends_with s p \<longleftrightarrow> suffix p s"
  by (auto simp: str_ends_with_def suffix_def) (metis append_take_drop_id)

lemma contains_sublist [simp]: "str_contains s p \<longleftrightarrow> sublist p s"
  by (induction s) (auto simp: sublist_Cons_right)

lemma strip_prefix_Some [simp]: "str_strip_prefix s p = Some t \<longleftrightarrow> s = p @ t"
  by (auto simp: str_strip_prefix_def prefix_def)

lemma strip_suffix_Some [simp]: "str_strip_suffix s p = Some t \<longleftrightarrow> s = t @ p"
  by (auto simp: str_strip_suffix_def suffix_def)

lemma str_split_not_Nil [simp]: "str_split c s \<noteq> []"
  by (induction s) (auto split: list.splits)

lemma str_split_append_sep: "str_split c (s @ c # t) = str_split c s @ str_split c t"
  by (induction s) (auto split: list.splits)

lemma str_join_Cons: "xs \<noteq> [] \<Longrightarrow> str_join sep (x # xs) = x @ sep @ str_join sep xs"
  by (cases xs) auto

lemma str_join_split: "str_join [c] (str_split c s) = s"
proof (induction s)
  case (Cons x s)
  show ?case
  proof (cases "str_split c s")
    case (Cons t ts)
    with \<open>str_join [c] (str_split c s) = s\<close> show ?thesis
      by (cases ts) (auto simp: str_join_Cons)
  qed simp
qed simp

lemma str_split_inj: "str_split c s = str_split c t \<longleftrightarrow> s = t"
  by (metis str_join_split)

lemma str_join_append:
  "xs \<noteq> [] \<Longrightarrow> ys \<noteq> [] \<Longrightarrow> str_join sep (xs @ ys) = str_join sep xs @ sep @ str_join sep ys"
proof (induction xs)
  case (Cons x xs)
  then show ?case by (cases "xs = []") (auto simp: str_join_Cons)
qed simp

text \<open>The fuel of the trimming loops is enough: the result has no white space left at that end.\<close>

lemma whitespace_seqs_nonempty: "w \<in> set whitespace_seqs \<Longrightarrow> w \<noteq> []"
  by (auto simp: whitespace_seqs_def)

lemma trim_start_fuel_enough:
  "length s \<le> n \<Longrightarrow> w \<in> set whitespace_seqs \<Longrightarrow> \<not> str_starts_with (str_trim_start_fuel n s) w"
proof (induction n arbitrary: s)
  case 0
  then show ?case using whitespace_seqs_nonempty by (auto simp: prefix_def)
next
  case (Suc n)
  show ?case
  proof (cases "find (str_starts_with s) whitespace_seqs")
    case None
    then have "\<not> prefix w s" using Suc.prems(2) by (auto simp: find_None_iff)
    with None show ?thesis by simp
  next
    case (Some v)
    then have "v \<noteq> []" and "prefix v s"
      using whitespace_seqs_nonempty by (auto simp: find_Some_iff)
    then have "length (drop (length v) s) \<le> n"
      using Suc.prems(1) by (cases v) (auto dest: prefix_length_le)
    from Suc.IH [OF this Suc.prems(2)] show ?thesis using Some by simp
  qed
qed

lemma trim_end_fuel_enough:
  "length s \<le> n \<Longrightarrow> w \<in> set whitespace_seqs \<Longrightarrow> \<not> str_ends_with (str_trim_end_fuel n s) w"
proof (induction n arbitrary: s)
  case 0
  then show ?case using whitespace_seqs_nonempty by (auto simp: suffix_def)
next
  case (Suc n)
  show ?case
  proof (cases "find (str_ends_with s) whitespace_seqs")
    case None
    then have "\<not> suffix w s" using Suc.prems(2) by (auto simp: find_None_iff)
    with None show ?thesis by simp
  next
    case (Some v)
    then have "v \<noteq> []" and "suffix v s"
      using whitespace_seqs_nonempty by (auto simp: find_Some_iff)
    then have "length (take (length s - length v) s) \<le> n"
      using Suc.prems(1) by (cases v) (auto dest: suffix_length_le)
    from Suc.IH [OF this Suc.prems(2)] show ?thesis using Some by simp
  qed
qed

lemma length_to_ascii_lowercase [simp]: "length (to_ascii_lowercase s) = length s"
  by (simp add: to_ascii_lowercase_def)

lemma to_ascii_lowercase_append [simp]:
  "to_ascii_lowercase (s @ t) = to_ascii_lowercase s @ to_ascii_lowercase t"
  by (simp add: to_ascii_lowercase_def)

lemma ascii_lower_idem [simp]: "ascii_lower (ascii_lower c) = ascii_lower c"
  by (simp add: ascii_lower_def)

lemma to_ascii_lowercase_idem [simp]:
  "to_ascii_lowercase (to_ascii_lowercase s) = to_ascii_lowercase s"
  by (simp add: to_ascii_lowercase_def)

lemma eq_ignore_ascii_case_refl [simp]: "eq_ignore_ascii_case s s"
  by (simp add: eq_ignore_ascii_case_def)

subsection \<open>Fallible iteration\<close>

lemma try_all_Inr_True [result_simps]:
  "try_all f xs = Inr True \<longleftrightarrow> (\<forall>x \<in> set xs. f x = Inr True)"
  by (induction xs) (auto split: sum.splits)

lemma try_all_total:
  "(\<And>x. x \<in> set xs \<Longrightarrow> \<exists>b. f x = Inr b) \<Longrightarrow> \<exists>b. try_all f xs = Inr b"
proof (induction xs)
  case (Cons a xs)
  from Cons.prems [of a] obtain b where "f a = Inr b" by auto
  with Cons show ?case by auto
qed auto

lemma try_filter_total:
  "(\<And>x. x \<in> set xs \<Longrightarrow> \<exists>b. f x = Inr b) \<Longrightarrow>
     try_filter f xs = Inr (filter (\<lambda>x. f x = Inr True) xs)"
proof (induction xs)
  case (Cons a xs)
  from Cons.prems [of a] obtain b where "f a = Inr b" by auto
  with Cons show ?case by simp
qed simp

lemma try_filter_Inr_defined:
  "try_filter f xs = Inr ys \<Longrightarrow> x \<in> set xs \<Longrightarrow> \<exists>b. f x = Inr b"
  by (induction xs arbitrary: ys) (auto split: sum.splits)

lemma try_filter_Inr [result_simps]:
  "try_filter f xs = Inr ys \<longleftrightarrow>
     (\<forall>x \<in> set xs. \<exists>b. f x = Inr b) \<and> ys = filter (\<lambda>x. f x = Inr True) xs"
  using try_filter_total [of xs f] try_filter_Inr_defined [of f xs ys] by auto

lemma try_filter_Inl:
  "try_filter f xs = Inl e \<Longrightarrow> \<exists>x \<in> set xs. f x = Inl e"
  by (induction xs) (auto split: sum.splits)

subsection \<open>Iterators\<close>

lemma foldl_max_by_key:
  fixes f :: "'a \<Rightarrow> 'k::linorder"
  assumes "m = foldl (\<lambda>a b. if f b < f a then a else b) x xs"
  shows "m \<in> insert x (set xs) \<and> (\<forall>y \<in> insert x (set xs). f y \<le> f m)"
  using assms
proof (induction xs arbitrary: x m)
  case Nil
  then show ?case by simp
next
  case (Cons z zs)
  let ?w = "if f z < f x then x else z"
  have "m = foldl (\<lambda>a b. if f b < f a then a else b) ?w zs"
    using Cons.prems by simp
  then have "m \<in> insert ?w (set zs) \<and> (\<forall>y \<in> insert ?w (set zs). f y \<le> f m)"
    by (rule Cons.IH)
  then show ?case by (auto split: if_splits intro: order_trans)
qed

lemma max_by_key_Some:
  "max_by_key f xs = Some m \<Longrightarrow> m \<in> set xs \<and> (\<forall>y \<in> set xs. f y \<le> f m)"
  using foldl_max_by_key [OF refl, of f] by (cases xs) fastforce+

lemma max_by_key_None [simp]: "max_by_key f xs = None \<longleftrightarrow> xs = []"
  by (cases xs) auto

lemma set_vec_dedup [simp]: "set (vec_dedup xs) = set xs"
  by (induction xs rule: vec_dedup.induct) auto

lemma vec_dedup_eq_Nil [simp]: "vec_dedup xs = [] \<longleftrightarrow> xs = []"
  by (metis set_empty set_vec_dedup)

lemma distinct_vec_dedup: "sorted xs \<Longrightarrow> distinct (vec_dedup (xs :: 'a::linorder list))"
proof (induction xs rule: vec_dedup.induct)
  case (3 x y ys)
  then show ?case
    by (cases "x = y") (auto dest: antisym)
qed auto

lemma sorted_vec_dedup: "sorted xs \<Longrightarrow> sorted (vec_dedup (xs :: 'a::linorder list))"
  by (induction xs rule: vec_dedup.induct) auto

lemma set_retain_first: "set (retain_first seen xs) = set xs - seen"
  by (induction xs arbitrary: seen) auto

lemma distinct_retain_first: "distinct (retain_first seen xs)"
  by (induction xs arbitrary: seen) (auto simp: set_retain_first)

subsection \<open>Stable sorting\<close>

text \<open>
  Sorting by a key that separates the elements gives the same list for every arrangement of the
  input: the sorted list is determined by its multiset.
\<close>

lemma sort_key_perm_eq:
  fixes k :: "'a \<Rightarrow> 'b::linorder"
  assumes "mset xs = mset ys" and "inj_on k (set xs)"
  shows "sort_key k xs = sort_key k ys"
proof (rule properties_for_sort_key [symmetric])
  show "mset (sort_key k xs) = mset ys" using assms(1) by simp
  show "sorted (map k (sort_key k xs))" by simp
  fix y
  assume "y \<in> set (sort_key k xs)"
  then have mem: "y \<in> set xs" by simp
  have eq: "filter (\<lambda>x. k y = k x) zs = replicate (count (mset zs) y) y"
    if "set zs = set xs" for zs
  proof -
    have "filter (\<lambda>x. k y = k x) zs = filter (\<lambda>x. x = y) zs"
      using that assms(2) mem by (intro filter_cong) (auto dest: inj_onD)
    also have "\<dots> = replicate (count (mset zs) y) y"
      by (induction zs) auto
    finally show ?thesis .
  qed
  have "set ys = set xs" using assms(1) by (metis mset_eq_setD)
  then show "filter (\<lambda>x. k y = k x) (sort_key k xs) = filter (\<lambda>x. k y = k x) ys"
    using eq [of "sort_key k xs"] eq [of ys] assms(1) by simp
qed

text \<open>Sorting again after appending one element is sorting once.\<close>

lemma sort_key_snoc_sort_key:
  "sort_key k (sort_key k xs @ [x]) = sort_key k (xs @ [x])"
proof (rule properties_for_sort_key)
  show "mset (sort_key k (xs @ [x])) = mset (sort_key k xs @ [x])" by simp
  show "sorted (map k (sort_key k (xs @ [x])))" by simp
  fix y
  show "filter (\<lambda>z. k y = k z) (sort_key k (xs @ [x])) =
        filter (\<lambda>z. k y = k z) (sort_key k xs @ [x])"
    using sort_key_stable [of k "k y" "xs @ [x]"] sort_key_stable [of k "k y" xs]
    by (simp add: eq_commute)
qed

end
