(* ===== verification/Types.thy ===== *)
theory Types
  imports Prelude
begin

text \<open>
  The objects shared by every crate (crate \<open>vigil-types\<close>): effects, invocations, decisions,
  approvals, leases, servers, sessions and audit events, field for field, and the JSON values
  their arguments are made of.

  Unix times (\<open>i64\<close>) and rule priorities (\<open>i32\<close>) are integers: the code only compares
  them, or adds an offset whose saturation is written out where it happens.
\<close>

section \<open>JSON values\<close>

text \<open>
  \<open>serde_json::Value\<close>. Objects keep their insertion order (the workspace enables
  \<open>preserve_order\<close>), so an object is an association list with distinct keys; numbers are
  kept as their literal text because no modelled code computes with them.
\<close>

datatype json =
    JNull
  | JBool bool
  | JNumber string
  | JString string
  | JArray "json list"
  | JObject "(string \<times> json) list"

text \<open>\<open>Value::get(k)\<close> with a string key: \<open>None\<close> on anything but an object.\<close>

fun json_get :: "json \<Rightarrow> string \<Rightarrow> json option" where
  "json_get (JObject kvs) k = map_of kvs k"
| "json_get _ k = None"

text \<open>\<open>Value::as_str\<close>.\<close>

fun json_as_str :: "json \<Rightarrow> string option" where
  "json_as_str (JString s) = Some s"
| "json_as_str _ = None"

section \<open>Effects\<close>

datatype effect_kind =
    FsRead
  | FsWrite
  | DbRead
  | DbWrite
  | NetOutbound
  | ExecWasm
  | ExecNative
  | SecretUse
  | BrowserSubmit
  | CommSend
  | CredentialExchange

record effect_vector =
  ev_effects :: "effect_kind list"
  ev_paths_read :: "string list"
  ev_paths_write :: "string list"
  ev_network_hosts :: "string list"
  ev_secret_refs :: "string list"
  ev_recipients :: "string list"
  ev_destructive :: bool
  ev_reversible :: bool

text \<open>\<open>#[derive(Default)]\<close> on \<open>EffectVector\<close>.\<close>

definition effect_vector_default :: effect_vector where
  "effect_vector_default =
     \<lparr>ev_effects = [], ev_paths_read = [], ev_paths_write = [], ev_network_hosts = [],
      ev_secret_refs = [], ev_recipients = [], ev_destructive = False, ev_reversible = False\<rparr>"

section \<open>Invocations and decisions\<close>

record tool_invocation =
  ti_invocation_id :: string
  ti_session_id :: string
  ti_server_id :: string
  ti_tool_name :: string
  ti_args :: json
  ti_descriptor_hash :: string
  ti_requested_at :: int

datatype decision_kind = DK_Allow | DK_Deny | DK_Approve

record decision_record =
  dr_decision_id :: string
  dr_invocation_id :: string
  dr_decision :: decision_kind
  dr_risk_score :: u8
  dr_reasons :: "string list"
  dr_policy_ids :: "string list"
  dr_created_at :: int

section \<open>Approvals\<close>

datatype approval_status = AS_Pending | AS_Approved | AS_Denied | AS_Expired | AS_Cancelled

datatype approval_scope = Once | ThisSession | ForToolWithSameArgsHash | ForPolicyTemplate

record approval_request =
  ar_approval_id :: string
  ar_decision_id :: string
  ar_invocation_id :: string
  ar_session_id :: string
  ar_title :: string
  ar_summary :: string
  ar_effect_vector :: effect_vector
  ar_expires_at :: int
  ar_status :: approval_status

record approval_resolution =
  res_approval_id :: string
  res_invocation_id :: string
  res_status :: approval_status
  res_scope :: "approval_scope option"
  res_resolved_by :: "string option"
  res_resolved_at :: int

section \<open>Leases\<close>

datatype injection_method = HttpHeader | ChildEnv | Pipe | TempFile | HookCommand

record secret_lease =
  sl_lease_id :: string
  sl_secret_ref :: string
  sl_bound_session_id :: string
  sl_bound_server_id :: string
  sl_bound_tool_name :: string
  sl_approval_id :: "string option"
  sl_injection_method :: injection_method
  sl_expires_at :: int

text \<open>The hand-written \<open>Display\<close> of a lease: the alias and nothing else.\<close>

definition secret_lease_display :: "secret_lease \<Rightarrow> string" where
  "secret_lease_display l = ''SecretLease('' @ sl_secret_ref l @ '')''"

section \<open>Principals, servers, sessions, tools\<close>

datatype principal_kind = PK_User | PK_Agent | PK_BrowserExtension | PK_McpServer

datatype trust_level = Untrusted | Limited | Trusted

text \<open>\<open>#[derive(PartialOrd, Ord)]\<close>: the order in which the variants are declared.\<close>

fun trust_rank :: "trust_level \<Rightarrow> nat" where
  "trust_rank Untrusted = 0"
| "trust_rank Limited = 1"
| "trust_rank Trusted = 2"

definition trust_level_default :: trust_level where
  "trust_level_default = Untrusted"

record principal =
  p_id :: string
  p_kind :: principal_kind
  p_display_name :: string
  p_trust_level :: trust_level

datatype transport_kind = Stdio | Http

record server_profile =
  sp_server_id :: string
  sp_transport :: transport_kind
  sp_command :: "string list option"
  sp_url :: "string option"
  sp_first_seen_at :: int
  sp_command_hash :: "string option"
  sp_descriptor_hash :: "string option"
  sp_trust_level :: trust_level
  sp_sandbox_profile_id :: "string option"

datatype session_source = McpClient | Browser | Desktop | Cli

record session =
  s_id :: string
  s_source :: session_source
  s_app_name :: "string option"
  s_started_at :: int
  s_ended_at :: "int option"
  s_risk_score :: u8

record tool_descriptor =
  td_server_id :: string
  td_tool_name :: string
  td_schema_json :: json
  td_description :: "string option"
  td_annotations :: json
  td_descriptor_hash :: string
  td_first_seen_at :: int
  td_approved_at :: "int option"

section \<open>Audit events\<close>

record audit_event =
  ae_event_id :: int
  ae_session_id :: string
  ae_event_type :: string
  ae_payload_json :: json
  ae_redacted_text :: "string option"
  ae_prev_hash :: string
  ae_event_hash :: string
  ae_created_at :: int

section \<open>Orders\<close>

instantiation trust_level :: linorder
begin

definition less_eq_trust_level :: "trust_level \<Rightarrow> trust_level \<Rightarrow> bool" where
  "less_eq_trust_level a b \<longleftrightarrow> trust_rank a \<le> trust_rank b"

definition less_trust_level :: "trust_level \<Rightarrow> trust_level \<Rightarrow> bool" where
  "less_trust_level a b \<longleftrightarrow> trust_rank a < trust_rank b"

instance
proof
  fix x y :: trust_level
  assume "x \<le> y" and "y \<le> x"
  then show "x = y"
    by (cases x; cases y) (simp_all add: less_eq_trust_level_def)
qed (auto simp: less_eq_trust_level_def less_trust_level_def)

end

text \<open>A new principal starts at the bottom of the trust order.\<close>

lemma trust_level_default_least: "trust_level_default \<le> t"
  by (simp add: trust_level_default_def less_eq_trust_level_def)

end
