(* ===== verification/Policy.thy ===== *)
theory Policy
  imports Types
begin

text \<open>
  The policy DSL and rule engine (crate \<open>vigil-policy\<close>): rules, conditions, the evaluation
  context, \<open>PolicyEngine::new\<close>, \<open>add_rule\<close> and \<open>evaluate\<close>, and the two default rule
  sets. Path comparison is the one of the non-Windows build. Lemmas: an evaluation is the
  fail-closed join of the matching rules, rule order is irrelevant, the default-deny floor cannot
  be forged by a rule, and the guarantees of the default rule set.
\<close>

section \<open>Definitions\<close>

subsection \<open>Rules\<close>

datatype policy_error = UnknownContextKey string | TypeMismatch string

datatype policy_action = PA_Allow | PA_Deny | PA_Approve

fun severity :: "policy_action \<Rightarrow> nat" where
  "severity PA_Deny = 2"
| "severity PA_Approve = 1"
| "severity PA_Allow = 0"

datatype effect_field =
    PathsRead
  | PathsWrite
  | NetworkHosts
  | SecretRefs
  | Recipients
  | Destructive
  | Reversible

datatype policy_value = PV_Bool bool | PV_Str string

datatype descriptor_state = ApprovedStable | FirstSeen | Drifted

datatype condition =
    Inside effect_field string
  | Outside effect_field string
  | Eq effect_field policy_value
  | HostNotInAllowList string
  | RiskScoreAtLeast u8
  | EffectIncludes effect_kind
  | DescriptorIs descriptor_state
  | ScopeNotInAllowList string
  | PiiContains string u32

record policy_rule =
  pr_id :: string
  pr_match_effects :: "effect_kind list"
  pr_conditions :: "condition list"
  pr_action :: policy_action
  pr_priority :: int

record policy_decision =
  pd_action :: policy_action
  pd_policy_ids :: "string list"
  pd_reasons :: "string list"

record pii_finding_summary =
  pf_label :: string
  pf_count :: u32

record policy_context =
  pc_roots :: "string \<rightharpoonup> string list"
  pc_allowlists :: "string \<rightharpoonup> string list"
  pc_risk_score :: u8
  pc_descriptor :: descriptor_state
  pc_pii_findings :: "pii_finding_summary list"
  pc_requested_scopes :: "string list option"

definition policy_context_default :: policy_context where
  "policy_context_default =
     \<lparr>pc_roots = Map.empty, pc_allowlists = Map.empty, pc_risk_score = 0,
      pc_descriptor = ApprovedStable, pc_pii_findings = [], pc_requested_scopes = None\<rparr>"

definition DEFAULT_DENY_POLICY_ID :: string where
  "DEFAULT_DENY_POLICY_ID = ''default-deny''"

subsection \<open>Matching\<close>

text \<open>\<open>is_under\<close> as compiled for targets other than Windows.\<close>

definition is_under :: "string \<Rightarrow> string \<Rightarrow> bool" where
  "is_under p root =
     (let normalized_root = (if str_ends_with root ''/'' then root else root @ ''/'')
      in p = root \<or> str_starts_with p normalized_root)"

definition under_any_root :: "string \<Rightarrow> string list \<Rightarrow> bool" where
  "under_any_root p roots = list_ex (is_under p) roots"

definition host_matches :: "string \<Rightarrow> string \<Rightarrow> bool" where
  "host_matches host pattern =
     (if str_starts_with pattern ''.'' then
        str_ends_with host pattern \<or> host = drop 1 pattern
      else eq_ignore_ascii_case host pattern)"

fun read_path_field :: "effect_vector \<Rightarrow> effect_field \<Rightarrow> policy_error + string list" where
  "read_path_field effects PathsRead = Inr (ev_paths_read effects)"
| "read_path_field effects PathsWrite = Inr (ev_paths_write effects)"
| "read_path_field effects _ =
     Inl (TypeMismatch ''Inside/Outside only applies to PathsRead/PathsWrite'')"

text \<open>
  The sum of the matching finding counts is taken in \<open>u32\<close>, as the release build does (the
  workspace sets no \<open>overflow-checks\<close>), so it wraps modulo \<open>2 ^ 32\<close>.
\<close>

definition pii_hits :: "policy_context \<Rightarrow> string \<Rightarrow> u32" where
  "pii_hits ctx label =
     sum_list (map pf_count (filter (\<lambda>f. pf_label f = label) (pc_pii_findings ctx)))"

fun condition_matches ::
  "condition \<Rightarrow> effect_vector \<Rightarrow> policy_context \<Rightarrow> policy_error + bool" where
  "condition_matches (Inside field roots_key) effects ctx =
     (case pc_roots ctx roots_key of
        None \<Rightarrow> Inl (UnknownContextKey roots_key)
      | Some roots \<Rightarrow>
          (case read_path_field effects field of
             Inl e \<Rightarrow> Inl e
           | Inr items \<Rightarrow>
               if items = [] then Inr False
               else Inr (list_all (\<lambda>p. under_any_root p roots) items)))"
| "condition_matches (Outside field roots_key) effects ctx =
     (case pc_roots ctx roots_key of
        None \<Rightarrow> Inl (UnknownContextKey roots_key)
      | Some roots \<Rightarrow>
          if roots = [] then Inr False
          else (case read_path_field effects field of
             Inl e \<Rightarrow> Inl e
           | Inr items \<Rightarrow> Inr (list_ex (\<lambda>p. \<not> under_any_root p roots) items)))"
| "condition_matches (Eq field v) effects ctx =
     (case (field, v) of
        (Destructive, PV_Bool b) \<Rightarrow> Inr (ev_destructive effects = b)
      | (Reversible, PV_Bool b) \<Rightarrow> Inr (ev_reversible effects = b)
      | _ \<Rightarrow> Inl (TypeMismatch ''Eq only supports Destructive/Reversible bool''))"
| "condition_matches (HostNotInAllowList allowlist_key) effects ctx =
     (case pc_allowlists ctx allowlist_key of
        None \<Rightarrow> Inl (UnknownContextKey allowlist_key)
      | Some allow \<Rightarrow>
          Inr (list_ex (\<lambda>h. \<not> list_ex (host_matches h) allow) (ev_network_hosts effects)))"
| "condition_matches (RiskScoreAtLeast t) effects ctx = Inr (t \<le> pc_risk_score ctx)"
| "condition_matches (EffectIncludes k) effects ctx = Inr (List.member (ev_effects effects) k)"
| "condition_matches (DescriptorIs s) effects ctx = Inr (pc_descriptor ctx = s)"
| "condition_matches (ScopeNotInAllowList allowlist_key) effects ctx =
     (case pc_requested_scopes ctx of
        None \<Rightarrow> Inr False
      | Some scopes \<Rightarrow>
          (case pc_allowlists ctx allowlist_key of
             None \<Rightarrow> Inl (UnknownContextKey allowlist_key)
           | Some allow \<Rightarrow>
               if scopes = [] then Inr True
               else Inr (list_ex (\<lambda>s. \<not> List.member allow s) scopes)))"
| "condition_matches (PiiContains label min_count) effects ctx =
     Inr (min_count \<le> pii_hits ctx label)"

definition rule_matches ::
  "policy_rule \<Rightarrow> effect_vector \<Rightarrow> policy_context \<Rightarrow> policy_error + bool" where
  "rule_matches r effects ctx =
     (if pr_match_effects r \<noteq> [] \<and>
         \<not> list_ex (\<lambda>me. List.member (ev_effects effects) me) (pr_match_effects r)
      then Inr False
      else try_all (\<lambda>c. condition_matches c effects ctx) (pr_conditions r))"

subsection \<open>The engine\<close>

record policy_engine =
  pe_rules :: "policy_rule list"

text \<open>
  The comparator \<open>b.priority.cmp(&a.priority).then_with(|| a.id.cmp(&b.id))\<close> as a key: larger
  priorities first, then ids in byte order. \<open>sort_by\<close> is stable, and so is \<open>sort_key\<close>.
\<close>

definition rule_order_key :: "policy_rule \<Rightarrow> int \<times> string" where
  "rule_order_key r = (- pr_priority r, pr_id r)"

definition policy_engine_new :: "policy_rule list \<Rightarrow> policy_engine" where
  "policy_engine_new rules =
     \<lparr>pe_rules = sort_key rule_order_key
        (filter (\<lambda>r. pr_id r \<noteq> DEFAULT_DENY_POLICY_ID) rules)\<rparr>"

definition policy_engine_default :: policy_engine where
  "policy_engine_default = \<lparr>pe_rules = []\<rparr>"

definition add_rule :: "policy_engine \<Rightarrow> policy_rule \<Rightarrow> policy_engine" where
  "add_rule e r =
     (if pr_id r = DEFAULT_DENY_POLICY_ID then e
      else e\<lparr>pe_rules := sort_key rule_order_key (pe_rules e @ [r])\<rparr>)"

definition policy_engine_len :: "policy_engine \<Rightarrow> nat" where
  "policy_engine_len e = length (pe_rules e)"

definition policy_engine_is_empty :: "policy_engine \<Rightarrow> bool" where
  "policy_engine_is_empty e \<longleftrightarrow> pe_rules e = []"

fun show_policy_action :: "policy_action \<Rightarrow> string" where
  "show_policy_action PA_Allow = ''Allow''"
| "show_policy_action PA_Deny = ''Deny''"
| "show_policy_action PA_Approve = ''Approve''"

text \<open>The reason line of a hit; the arrow is the UTF-8 encoding of U+2192.\<close>

definition hit_reason :: "policy_rule \<Rightarrow> string" where
  "hit_reason r =
     ''rule `'' @ pr_id r @ ''` '' @ [CHR 0xE2, CHR 0x86, CHR 0x92] @ '' '' @
     show_policy_action (pr_action r)"

definition evaluate ::
  "policy_engine \<Rightarrow> effect_vector \<Rightarrow> policy_context \<Rightarrow> policy_error + policy_decision" where
  "evaluate e effects ctx =
     (case try_filter (\<lambda>r. rule_matches r effects ctx) (pe_rules e) of
        Inl err \<Rightarrow> Inl err
      | Inr hits \<Rightarrow>
          if hits = [] then
            Inr \<lparr>pd_action = PA_Deny,
                 pd_policy_ids = [DEFAULT_DENY_POLICY_ID],
                 pd_reasons = [''no rule matched; fail-closed default deny'']\<rparr>
          else
            Inr \<lparr>pd_action = (case max_by_key severity (map pr_action hits) of
                   None \<Rightarrow> PA_Deny | Some a \<Rightarrow> a),
                 pd_policy_ids = map pr_id hits,
                 pd_reasons = map hit_reason hits\<rparr>)"

subsection \<open>The default rule sets\<close>

definition default_ruleset_v03_only :: "policy_rule list" where
  "default_ruleset_v03_only =
    [\<lparr>pr_id = ''deny-destructive-shell'', pr_match_effects = [ExecNative],
      pr_conditions = [Eq Destructive (PV_Bool True)],
      pr_action = PA_Deny, pr_priority = 200\<rparr>,
     \<lparr>pr_id = ''deny-destructive-sql'', pr_match_effects = [DbWrite],
      pr_conditions = [Eq Destructive (PV_Bool True)],
      pr_action = PA_Deny, pr_priority = 200\<rparr>,
     \<lparr>pr_id = ''deny-outside-project'', pr_match_effects = [FsWrite],
      pr_conditions = [Outside PathsWrite ''project_roots''],
      pr_action = PA_Deny, pr_priority = 150\<rparr>,
     \<lparr>pr_id = ''approve-repo-write'', pr_match_effects = [FsWrite],
      pr_conditions = [Inside PathsWrite ''project_roots''],
      pr_action = PA_Approve, pr_priority = 80\<rparr>,
     \<lparr>pr_id = ''approve-unknown-host'', pr_match_effects = [NetOutbound],
      pr_conditions = [HostNotInAllowList ''allowed_hosts''],
      pr_action = PA_Approve, pr_priority = 70\<rparr>,
     \<lparr>pr_id = ''approve-comm-send'', pr_match_effects = [CommSend, BrowserSubmit],
      pr_conditions = [],
      pr_action = PA_Approve, pr_priority = 70\<rparr>,
     \<lparr>pr_id = ''approve-secret-use'', pr_match_effects = [SecretUse],
      pr_conditions = [],
      pr_action = PA_Approve, pr_priority = 70\<rparr>,
     \<lparr>pr_id = ''approve-exec-native'', pr_match_effects = [ExecNative],
      pr_conditions = [],
      pr_action = PA_Approve, pr_priority = 60\<rparr>,
     \<lparr>pr_id = ''approve-descriptor-drift'', pr_match_effects = [],
      pr_conditions = [DescriptorIs Drifted],
      pr_action = PA_Approve, pr_priority = 140\<rparr>,
     \<lparr>pr_id = ''approve-descriptor-first-seen'', pr_match_effects = [],
      pr_conditions = [DescriptorIs FirstSeen],
      pr_action = PA_Approve, pr_priority = 130\<rparr>,
     \<lparr>pr_id = ''allow-repo-read'', pr_match_effects = [FsRead],
      pr_conditions = [Inside PathsRead ''project_roots'', DescriptorIs ApprovedStable],
      pr_action = PA_Allow, pr_priority = 10\<rparr>]"

definition default_pii_rules :: "policy_rule list" where
  "default_pii_rules =
    [\<lparr>pr_id = ''secret_outbound_network_deny'', pr_match_effects = [],
      pr_conditions = [PiiContains ''secret'' 1, EffectIncludes NetOutbound],
      pr_action = PA_Deny, pr_priority = 100\<rparr>,
     \<lparr>pr_id = ''secret_shell_exec_deny'', pr_match_effects = [],
      pr_conditions = [PiiContains ''secret'' 1, EffectIncludes ExecNative],
      pr_action = PA_Deny, pr_priority = 90\<rparr>,
     \<lparr>pr_id = ''email_new_host_approve'', pr_match_effects = [],
      pr_conditions = [PiiContains ''email'' 1, HostNotInAllowList ''allowed_hosts''],
      pr_action = PA_Approve, pr_priority = 60\<rparr>,
     \<lparr>pr_id = ''secret_email_body_approve'', pr_match_effects = [],
      pr_conditions = [PiiContains ''secret'' 1, EffectIncludes CommSend],
      pr_action = PA_Approve, pr_priority = 55\<rparr>,
     \<lparr>pr_id = ''multi_pii_firstseen_approve'', pr_match_effects = [],
      pr_conditions =
        [PiiContains ''email'' 1, PiiContains ''phone'' 1, DescriptorIs FirstSeen],
      pr_action = PA_Approve, pr_priority = 50\<rparr>]"

definition default_ruleset :: "policy_rule list" where
  "default_ruleset = default_ruleset_v03_only @ default_pii_rules"

section \<open>Lemmas\<close>

subsection \<open>Evaluation is the fail-closed join of the hits\<close>

text \<open>The rules that match, in evaluation order.\<close>

definition policy_hits :: "policy_engine \<Rightarrow> effect_vector \<Rightarrow> policy_context \<Rightarrow> policy_rule list" where
  "policy_hits e effects ctx = filter (\<lambda>r. rule_matches r effects ctx = Inr True) (pe_rules e)"

lemma evaluate_Inr_defined:
  "evaluate e effects ctx = Inr d \<Longrightarrow> r \<in> set (pe_rules e) \<Longrightarrow>
     \<exists>b. rule_matches r effects ctx = Inr b"
  by (auto simp: evaluate_def result_simps split: sum.splits)

lemma evaluate_Inr:
  "evaluate e effects ctx = Inr d \<Longrightarrow>
     pd_policy_ids d =
       (if policy_hits e effects ctx = [] then [DEFAULT_DENY_POLICY_ID]
        else map pr_id (policy_hits e effects ctx)) \<and>
     pd_action d =
       (case max_by_key severity (map pr_action (policy_hits e effects ctx)) of
          None \<Rightarrow> PA_Deny | Some a \<Rightarrow> a)"
  by (auto simp: evaluate_def result_simps policy_hits_def split: sum.splits if_splits)

lemma evaluate_total:
  assumes "\<And>r. r \<in> set (pe_rules e) \<Longrightarrow> \<exists>b. rule_matches r effects ctx = Inr b"
  shows "\<exists>d. evaluate e effects ctx = Inr d"
  using try_filter_total [of "pe_rules e" "\<lambda>r. rule_matches r effects ctx"] assms
  by (auto simp: evaluate_def)

lemma severity_inj: "severity a = severity b \<longleftrightarrow> a = b"
  by (cases a; cases b) simp_all

lemma severity_simps [simp]:
  "severity a = 0 \<longleftrightarrow> a = PA_Allow"
  "severity a \<le> 1 \<longleftrightarrow> a \<noteq> PA_Deny"
  "severity a \<le> Suc 0 \<longleftrightarrow> a \<noteq> PA_Deny"
  by (cases a; simp)+

text \<open>What a strictest action says about a set of actions.\<close>

definition strictest :: "policy_action set \<Rightarrow> policy_action \<Rightarrow> bool" where
  "strictest A a \<longleftrightarrow>
     (a = PA_Deny \<longleftrightarrow> A = {} \<or> PA_Deny \<in> A) \<and>
     (a = PA_Approve \<longleftrightarrow> PA_Approve \<in> A \<and> PA_Deny \<notin> A) \<and>
     (a = PA_Allow \<longleftrightarrow> A = {PA_Allow})"

lemma only_allow_iff:
  "f ` A = {PA_Allow} \<longleftrightarrow>
     (\<exists>r \<in> A. f r = PA_Allow) \<and> \<not> (\<exists>r \<in> A. f r = PA_Deny) \<and> \<not> (\<exists>r \<in> A. f r = PA_Approve)"
  (is "?L \<longleftrightarrow> ?R")
proof
  assume ?L
  then have "\<forall>r \<in> A. f r = PA_Allow" and "A \<noteq> {}" by force+
  then show ?R by fastforce
next
  assume R: ?R
  have "f r = PA_Allow" if "r \<in> A" for r using R that by (cases "f r") auto
  with R show ?L by force
qed

lemma strictest_max:
  assumes "a \<in> A" and "\<And>b. b \<in> A \<Longrightarrow> severity b \<le> severity a"
  shows "strictest A a"
proof (cases a)
  case PA_Allow
  with assms have "A = {PA_Allow}" by auto
  with PA_Allow show ?thesis by (simp add: strictest_def)
next
  case PA_Deny
  with assms(1) show ?thesis by (auto simp: strictest_def)
next
  case PA_Approve
  with assms have "PA_Approve \<in> A" and "PA_Deny \<notin> A" by force+
  with PA_Approve show ?thesis by (auto simp: strictest_def)
qed

lemma evaluate_strictest:
  assumes "evaluate e effects ctx = Inr d"
  shows "strictest (pr_action ` set (policy_hits e effects ctx)) (pd_action d)"
proof (cases "max_by_key severity (map pr_action (policy_hits e effects ctx))")
  case None
  then show ?thesis
    using evaluate_Inr [OF assms] by (simp add: strictest_def)
next
  case (Some a)
  then have "pd_action d = a" using evaluate_Inr [OF assms] by simp
  with max_by_key_Some [OF Some] show ?thesis by (intro strictest_max) auto
qed

subsection \<open>The engine as a set of rules\<close>

lemma pe_rules_new [simp]:
  "set (pe_rules (policy_engine_new rules)) = {r \<in> set rules. pr_id r \<noteq> DEFAULT_DENY_POLICY_ID}"
  by (auto simp: policy_engine_new_def)

lemma add_rule_new:
  "add_rule (policy_engine_new rules) r = policy_engine_new (rules @ [r])"
  by (simp add: add_rule_def policy_engine_new_def sort_key_snoc_sort_key)

lemma rule_order_key_inj: "inj_on pr_id A \<Longrightarrow> inj_on rule_order_key A"
  by (auto simp: inj_on_def rule_order_key_def)

lemma policy_engine_new_perm:
  assumes "mset rules = mset rules'" and "distinct (map pr_id rules)"
  shows "policy_engine_new rules = policy_engine_new rules'"
proof -
  have "inj_on pr_id (set rules)" using assms(2) by (simp add: distinct_map)
  then have "inj_on rule_order_key (set (filter (\<lambda>r. pr_id r \<noteq> DEFAULT_DENY_POLICY_ID) rules))"
    by (intro rule_order_key_inj) (auto intro: inj_on_subset)
  moreover have "mset (filter (\<lambda>r. pr_id r \<noteq> DEFAULT_DENY_POLICY_ID) rules) =
      mset (filter (\<lambda>r. pr_id r \<noteq> DEFAULT_DENY_POLICY_ID) rules')"
    using assms(1) by (simp add: mset_filter)
  ultimately show ?thesis
    unfolding policy_engine_new_def by (simp add: sort_key_perm_eq)
qed

subsection \<open>Path containment\<close>

lemma is_under_iff:
  "is_under p root \<longleftrightarrow>
     p = root \<or> (\<exists>t. p = (if suffix ''/'' root then root else root @ ''/'') @ t)"
  by (auto simp: is_under_def Let_def prefix_def)

lemma under_any_root_iff: "under_any_root p roots \<longleftrightarrow> (\<exists>r \<in> set roots. is_under p r)"
  by (simp add: under_any_root_def list_ex_iff)

subsection \<open>Errors come from unbound keys and ill-typed conditions only\<close>

fun condition_bound :: "policy_context \<Rightarrow> condition \<Rightarrow> bool" where
  "condition_bound ctx (Inside f k) \<longleftrightarrow> pc_roots ctx k \<noteq> None \<and> (f = PathsRead \<or> f = PathsWrite)"
| "condition_bound ctx (Outside f k) \<longleftrightarrow> pc_roots ctx k \<noteq> None \<and> (f = PathsRead \<or> f = PathsWrite)"
| "condition_bound ctx (Eq f v) \<longleftrightarrow> (f = Destructive \<or> f = Reversible) \<and> (\<exists>b. v = PV_Bool b)"
| "condition_bound ctx (HostNotInAllowList k) \<longleftrightarrow> pc_allowlists ctx k \<noteq> None"
| "condition_bound ctx (ScopeNotInAllowList k) \<longleftrightarrow> pc_allowlists ctx k \<noteq> None"
| "condition_bound ctx _ \<longleftrightarrow> True"

lemma condition_bound_total:
  "condition_bound ctx c \<Longrightarrow> \<exists>b. condition_matches c effects ctx = Inr b"
  by (cases c) (auto split: option.splits)

lemma rule_bound_total:
  "(\<And>c. c \<in> set (pr_conditions r) \<Longrightarrow> condition_bound ctx c) \<Longrightarrow>
     \<exists>b. rule_matches r effects ctx = Inr b"
  unfolding rule_matches_def by (auto intro!: try_all_total condition_bound_total)

lemma evaluate_bound_total:
  "(\<And>r c. r \<in> set (pe_rules e) \<Longrightarrow> c \<in> set (pr_conditions r) \<Longrightarrow> condition_bound ctx c) \<Longrightarrow>
     \<exists>d. evaluate e effects ctx = Inr d"
  by (intro evaluate_total rule_bound_total) auto

subsection \<open>Which rules fire\<close>

definition fires :: "effect_vector \<Rightarrow> policy_context \<Rightarrow> policy_rule \<Rightarrow> bool" where
  "fires effects ctx r \<longleftrightarrow> rule_matches r effects ctx = Inr True"

lemma fires_iff:
  "fires effects ctx r \<longleftrightarrow>
     (pr_match_effects r = [] \<or> set (pr_match_effects r) \<inter> set (ev_effects effects) \<noteq> {}) \<and>
     (\<forall>c \<in> set (pr_conditions r). condition_matches c effects ctx = Inr True)"
  by (auto simp: fires_def rule_matches_def result_simps list_ex_iff)

lemma policy_hits_fires:
  "set (policy_hits e effects ctx) = {r \<in> set (pe_rules e). fires effects ctx r}"
  by (auto simp: policy_hits_def fires_def)

subsection \<open>The default rule set\<close>

text \<open>The bindings the firewall always provides: the project roots and the host allowlist.\<close>

definition default_keys_bound :: "policy_context \<Rightarrow> string list \<Rightarrow> string list \<Rightarrow> bool" where
  "default_keys_bound ctx roots hosts \<longleftrightarrow>
     pc_roots ctx ''project_roots'' = Some roots \<and>
     pc_allowlists ctx ''allowed_hosts'' = Some hosts"

lemmas default_rules_defs =
  default_ruleset_def default_ruleset_v03_only_def default_pii_rules_def

lemma default_ids_not_reserved:
  "\<forall>r \<in> set default_ruleset. pr_id r \<noteq> DEFAULT_DENY_POLICY_ID"
  by (simp add: default_rules_defs DEFAULT_DENY_POLICY_ID_def)

lemma default_engine_rules:
  "set (pe_rules (policy_engine_new default_ruleset)) = set default_ruleset"
  using default_ids_not_reserved by auto

lemma default_conditions_bound:
  "default_keys_bound ctx roots hosts \<Longrightarrow>
     \<forall>r \<in> set default_ruleset. \<forall>c \<in> set (pr_conditions r). condition_bound ctx c"
  by (simp add: default_rules_defs default_keys_bound_def) blast

lemma default_evaluate_total:
  "default_keys_bound ctx roots hosts \<Longrightarrow>
     \<exists>d. evaluate (policy_engine_new default_ruleset) effects ctx = Inr d"
  using default_conditions_bound [of ctx roots hosts]
  by (intro evaluate_bound_total) (auto simp: default_engine_rules)

lemma default_strictest:
  assumes "evaluate (policy_engine_new default_ruleset) effects ctx = Inr d"
  shows "strictest (pr_action ` {r \<in> set default_ruleset. fires effects ctx r}) (pd_action d)"
  using evaluate_strictest [OF assms] by (simp only: policy_hits_fires default_engine_rules)

lemma guarded_write_iff:
  "roots \<noteq> [] \<and> (\<exists>p \<in> set ps. \<not> under_any_root p roots) \<or>
   ps \<noteq> [] \<and> (\<forall>p \<in> set ps. under_any_root p roots) \<longleftrightarrow> ps \<noteq> [] \<and> roots \<noteq> []"
  by (cases ps) (auto simp: under_any_root_def)

text \<open>When one of the denying, approving and allowing rules fires.\<close>

lemma default_deny_fires:
  assumes "default_keys_bound ctx roots hosts"
  shows "(\<exists>r \<in> set default_ruleset. fires effects ctx r \<and> pr_action r = PA_Deny) \<longleftrightarrow>
     ev_destructive effects \<and>
       (ExecNative \<in> set (ev_effects effects) \<or> DbWrite \<in> set (ev_effects effects)) \<or>
     FsWrite \<in> set (ev_effects effects) \<and> roots \<noteq> [] \<and>
       (\<exists>p \<in> set (ev_paths_write effects). \<not> under_any_root p roots) \<or>
     1 \<le> pii_hits ctx ''secret'' \<and>
       (NetOutbound \<in> set (ev_effects effects) \<or> ExecNative \<in> set (ev_effects effects))"
  using assms
  by (auto simp: default_rules_defs default_keys_bound_def fires_iff list_ex_iff)

lemma default_allow_fires:
  assumes "default_keys_bound ctx roots hosts"
  shows "(\<exists>r \<in> set default_ruleset. fires effects ctx r \<and> pr_action r = PA_Allow) \<longleftrightarrow>
     FsRead \<in> set (ev_effects effects) \<and> ev_paths_read effects \<noteq> [] \<and>
     (\<forall>p \<in> set (ev_paths_read effects). under_any_root p roots) \<and>
     pc_descriptor ctx = ApprovedStable"
  using assms
  by (auto simp: default_rules_defs default_keys_bound_def fires_iff list_all_iff)

lemma default_approve_fires:
  assumes "default_keys_bound ctx roots hosts" and "pc_descriptor ctx = ApprovedStable"
  shows "(\<exists>r \<in> set default_ruleset. fires effects ctx r \<and> pr_action r = PA_Approve) \<longleftrightarrow>
     FsWrite \<in> set (ev_effects effects) \<and> ev_paths_write effects \<noteq> [] \<and>
       (\<forall>p \<in> set (ev_paths_write effects). under_any_root p roots) \<or>
     CommSend \<in> set (ev_effects effects) \<or> BrowserSubmit \<in> set (ev_effects effects) \<or>
     SecretUse \<in> set (ev_effects effects) \<or> ExecNative \<in> set (ev_effects effects) \<or>
     (NetOutbound \<in> set (ev_effects effects) \<or> 1 \<le> pii_hits ctx ''email'') \<and>
       (\<exists>h \<in> set (ev_network_hosts effects). \<not> list_ex (host_matches h) hosts)"
  using assms
  by (auto simp: default_rules_defs default_keys_bound_def fires_iff list_all_iff list_ex_iff)

lemma default_ruleset_decides:
  assumes "default_keys_bound ctx roots hosts"
  shows "\<exists>d. evaluate (policy_engine_new default_ruleset) effects ctx = Inr d \<and>
    (pd_action d = PA_Allow \<longleftrightarrow>
       FsRead \<in> set (ev_effects effects) \<and> ev_paths_read effects \<noteq> [] \<and>
       (\<forall>p \<in> set (ev_paths_read effects). under_any_root p roots) \<and>
       pc_descriptor ctx = ApprovedStable \<and>
       {ExecNative, SecretUse, CommSend, BrowserSubmit} \<inter> set (ev_effects effects) = {} \<and>
       \<not> (DbWrite \<in> set (ev_effects effects) \<and> ev_destructive effects) \<and>
       \<not> (FsWrite \<in> set (ev_effects effects) \<and> ev_paths_write effects \<noteq> [] \<and> roots \<noteq> []) \<and>
       \<not> ((NetOutbound \<in> set (ev_effects effects) \<or> 1 \<le> pii_hits ctx ''email'') \<and>
           (\<exists>h \<in> set (ev_network_hosts effects). \<not> list_ex (host_matches h) hosts)) \<and>
       \<not> (NetOutbound \<in> set (ev_effects effects) \<and> 1 \<le> pii_hits ctx ''secret''))"
proof -
  obtain d where d: "evaluate (policy_engine_new default_ruleset) effects ctx = Inr d"
    using default_evaluate_total [OF assms] by blast
  let ?F = "\<lambda>a. \<exists>r \<in> set default_ruleset. fires effects ctx r \<and> pr_action r = a"
  have "pr_action ` {r \<in> set default_ruleset. fires effects ctx r} = {PA_Allow} \<longleftrightarrow>
      ?F PA_Allow \<and> \<not> ?F PA_Deny \<and> \<not> ?F PA_Approve"
    unfolding only_allow_iff by blast
  then have "pd_action d = PA_Allow \<longleftrightarrow> ?F PA_Allow \<and> \<not> ?F PA_Deny \<and> \<not> ?F PA_Approve"
    using default_strictest [OF d] by (simp add: strictest_def)
  note act = this [unfolded default_allow_fires [OF assms] default_deny_fires [OF assms]]
  have other: "{ExecNative, SecretUse, CommSend, BrowserSubmit} \<inter> set (ev_effects effects) = {} \<longleftrightarrow>
      ExecNative \<notin> set (ev_effects effects) \<and> SecretUse \<notin> set (ev_effects effects) \<and>
      CommSend \<notin> set (ev_effects effects) \<and> BrowserSubmit \<notin> set (ev_effects effects)"
    by auto
  show ?thesis
  proof (cases "pc_descriptor ctx = ApprovedStable")
    case True
    show ?thesis
      using d act [unfolded default_approve_fires [OF assms True]] True
        guarded_write_iff [of roots "ev_paths_write effects"]
      unfolding other by (intro exI [of _ d] conjI) argo+
  next
    case False
    with d act show ?thesis by (intro exI [of _ d]) simp
  qed
qed

section \<open>Properties\<close>

text \<open>
  C26. Evaluation is fail-closed. When it succeeds, the action is Deny exactly when no rule fires or
  some firing rule denies, Approve exactly when some firing rule asks for approval and none
  denies, and Allow exactly when at least one rule fires and all firing rules allow; the priority
  of a rule never lets a weaker action win.
\<close>

theorem evaluate_fail_closed:
  assumes "evaluate e effects ctx = Inr d"
  defines "F \<equiv> {r \<in> set (pe_rules e). fires effects ctx r}"
  shows "(pd_action d = PA_Deny \<longleftrightarrow> F = {} \<or> (\<exists>r \<in> F. pr_action r = PA_Deny)) \<and>
    (pd_action d = PA_Approve \<longleftrightarrow>
       (\<exists>r \<in> F. pr_action r = PA_Approve) \<and> (\<forall>r \<in> F. pr_action r \<noteq> PA_Deny)) \<and>
    (pd_action d = PA_Allow \<longleftrightarrow> F \<noteq> {} \<and> (\<forall>r \<in> F. pr_action r = PA_Allow))"
proof -
  have "strictest (pr_action ` F) (pd_action d)"
    using evaluate_strictest [OF assms(1)] by (simp add: F_def policy_hits_fires)
  then have deny: "pd_action d = PA_Deny \<longleftrightarrow> pr_action ` F = {} \<or> PA_Deny \<in> pr_action ` F"
    and appr: "pd_action d = PA_Approve \<longleftrightarrow> PA_Approve \<in> pr_action ` F \<and> PA_Deny \<notin> pr_action ` F"
    and allow: "pd_action d = PA_Allow \<longleftrightarrow> pr_action ` F = {PA_Allow}"
    by (auto simp: strictest_def)
  have "pr_action ` F = {PA_Allow} \<longleftrightarrow> F \<noteq> {} \<and> (\<forall>r \<in> F. pr_action r = PA_Allow)" by force
  moreover have "a \<in> pr_action ` F \<longleftrightarrow> (\<exists>r \<in> F. pr_action r = a)" for a by force
  ultimately show ?thesis
    unfolding deny appr allow by (simp only: image_is_empty) blast
qed

definition witness_ctx :: policy_context where
  "witness_ctx = policy_context_default
     \<lparr>pc_roots := [''project_roots'' \<mapsto> [''/proj'']],
      pc_allowlists := [''allowed_hosts'' \<mapsto> [''.github.com'']]\<rparr>"

definition witness_read :: effect_vector where
  "witness_read = effect_vector_default
     \<lparr>ev_effects := [FsRead], ev_paths_read := [''/proj/src/main.rs'']\<rparr>"


text \<open>A file read inside the project, evaluated by the default rule set.\<close>

theorem evaluate_fail_closed_witness:
  "pd_action (projr (evaluate (policy_engine_new default_ruleset) witness_read witness_ctx)) = PA_Allow \<and>
   {r \<in> set (pe_rules (policy_engine_new default_ruleset)). fires witness_read witness_ctx r} \<noteq> {}"
proof -
  have "evaluate (policy_engine_new default_ruleset) witness_read witness_ctx =
      Inr (projr (evaluate (policy_engine_new default_ruleset) witness_read witness_ctx))"
    by code_simp
  moreover have "pd_action (projr (evaluate (policy_engine_new default_ruleset)
      witness_read witness_ctx)) = PA_Allow"
    by code_simp
  ultimately show ?thesis
    using evaluate_fail_closed [of "policy_engine_new default_ruleset" witness_read witness_ctx] by blast
qed

text \<open>
  The order in which rules are supplied is irrelevant: two arrangements of the same rules with
  distinct ids give the same engine verdict, error or decision, with the same list of policy ids
  and reasons.
\<close>

lemma evaluate_rule_order_irrelevant:
  assumes "mset rules = mset rules'" and "distinct (map pr_id rules)"
  shows "evaluate (policy_engine_new rules) effects ctx = evaluate (policy_engine_new rules') effects ctx"
  using policy_engine_new_perm [OF assms] by simp

lemma evaluate_rule_order_irrelevant_example:
  "evaluate (policy_engine_new default_ruleset) witness_read witness_ctx =
   evaluate (policy_engine_new (rev default_ruleset)) witness_read witness_ctx"
proof -
  have "distinct (map pr_id default_ruleset)" by code_simp
  then show ?thesis
    using evaluate_rule_order_irrelevant [of default_ruleset "rev default_ruleset"] by simp
qed

text \<open>
  The default-deny floor cannot be forged: whatever rules an engine is built from and extended
  with, a successful evaluation reports the reserved policy id exactly when no rule fired, and
  then reports nothing else and denies.
\<close>

lemma default_deny_floor_unforgeable:
  assumes "e = foldl add_rule (policy_engine_new rules) extra"
    and "evaluate e effects ctx = Inr d"
  shows "(DEFAULT_DENY_POLICY_ID \<in> set (pd_policy_ids d) \<longleftrightarrow>
            (\<forall>r \<in> set (rules @ extra). pr_id r \<noteq> DEFAULT_DENY_POLICY_ID \<longrightarrow> \<not> fires effects ctx r)) \<and>
         (DEFAULT_DENY_POLICY_ID \<in> set (pd_policy_ids d) \<longrightarrow>
            pd_policy_ids d = [DEFAULT_DENY_POLICY_ID] \<and> pd_action d = PA_Deny)"
proof -
  have e: "e = policy_engine_new (rules @ extra)"
    unfolding assms(1)
    by (induction extra rule: rev_induct) (simp_all add: add_rule_new flip: append_assoc)
  have ids: "pd_policy_ids d = (if policy_hits e effects ctx = [] then [DEFAULT_DENY_POLICY_ID]
        else map pr_id (policy_hits e effects ctx))"
    using evaluate_Inr [OF assms(2)] by simp
  have hits: "set (policy_hits e effects ctx) =
      {r \<in> set (rules @ extra). pr_id r \<noteq> DEFAULT_DENY_POLICY_ID \<and> fires effects ctx r}"
    unfolding policy_hits_fires e pe_rules_new by auto
  then have "DEFAULT_DENY_POLICY_ID \<in> set (pd_policy_ids d) \<longleftrightarrow> policy_hits e effects ctx = []"
    by (auto simp: ids)
  moreover have "policy_hits e effects ctx = [] \<Longrightarrow> pd_action d = PA_Deny"
    using evaluate_Inr [OF assms(2)] by simp
  moreover have "policy_hits e effects ctx = [] \<longleftrightarrow>
      (\<forall>r \<in> set (rules @ extra). pr_id r \<noteq> DEFAULT_DENY_POLICY_ID \<longrightarrow> \<not> fires effects ctx r)"
    using hits by (auto simp flip: set_empty)
  ultimately show ?thesis by (simp add: ids)
qed

definition forged_rule :: policy_rule where
  "forged_rule = \<lparr>pr_id = ''default-deny'', pr_match_effects = [], pr_conditions = [],
                  pr_action = PA_Allow, pr_priority = 1000\<rparr>"

lemma default_deny_floor_unforgeable_example:
  "pd_policy_ids (projr (evaluate (add_rule (policy_engine_new []) forged_rule)
      witness_read witness_ctx)) = [DEFAULT_DENY_POLICY_ID] \<and>
   pd_action (projr (evaluate (add_rule (policy_engine_new []) forged_rule)
      witness_read witness_ctx)) = PA_Deny"
proof -
  let ?e = "add_rule (policy_engine_new []) forged_rule"
  have e: "?e = foldl add_rule (policy_engine_new []) [forged_rule]" by simp
  have "evaluate ?e witness_read witness_ctx = Inr (projr (evaluate ?e witness_read witness_ctx))"
    by code_simp
  from default_deny_floor_unforgeable [OF e this] show ?thesis
    by (simp add: forged_rule_def DEFAULT_DENY_POLICY_ID_def)
qed

text \<open>
  With the two keys the firewall binds, the default rule set always produces a decision, and it
  allows a call exactly when the call reads files that all lie under a project root, its
  descriptor is approved and stable, and it shows no other guarded effect: no native execution,
  secret use or message, no destructive database write, no write path, no unknown host when it
  reaches the network or carries an e-mail address, and no secret on its way to the network.
\<close>

lemma default_ruleset_allow_iff:
  assumes "default_keys_bound ctx roots hosts"
  shows "\<exists>d. evaluate (policy_engine_new default_ruleset) effects ctx = Inr d \<and>
    (pd_action d = PA_Allow \<longleftrightarrow>
       FsRead \<in> set (ev_effects effects) \<and> ev_paths_read effects \<noteq> [] \<and>
       (\<forall>p \<in> set (ev_paths_read effects). under_any_root p roots) \<and>
       pc_descriptor ctx = ApprovedStable \<and>
       {ExecNative, SecretUse, CommSend, BrowserSubmit} \<inter> set (ev_effects effects) = {} \<and>
       \<not> (DbWrite \<in> set (ev_effects effects) \<and> ev_destructive effects) \<and>
       \<not> (FsWrite \<in> set (ev_effects effects) \<and> ev_paths_write effects \<noteq> [] \<and> roots \<noteq> []) \<and>
       \<not> ((NetOutbound \<in> set (ev_effects effects) \<or> 1 \<le> pii_hits ctx ''email'') \<and>
           (\<exists>h \<in> set (ev_network_hosts effects). \<not> list_ex (host_matches h) hosts)) \<and>
       \<not> (NetOutbound \<in> set (ev_effects effects) \<and> 1 \<le> pii_hits ctx ''secret''))"
  by (rule default_ruleset_decides [OF assms])

lemma default_ruleset_allow_iff_example:
  "\<exists>d. evaluate (policy_engine_new default_ruleset) witness_read witness_ctx = Inr d \<and>
     pd_action d = PA_Allow"
proof -
  have "default_keys_bound witness_ctx [''/proj''] [''.github.com'']" by code_simp
  from default_ruleset_allow_iff [OF this, of witness_read] show ?thesis
    by (rule ex_forward) (auto simp: witness_read_def witness_ctx_def effect_vector_default_def
        policy_context_default_def under_any_root_def is_under_def pii_hits_def)
qed

end
