(* ===== verification/Extract.thy ===== *)
theory Extract
  imports Types
begin

text \<open>
  Effect extraction (crate \<open>vigil-firewall\<close>, files \<open>extract.rs\<close> and \<open>catalog.rs\<close>): the
  eight built-in extractors, the path normalisation they use, and the static effect catalog. Every
  extractor is an instance of the locale \<open>effect_extractor\<close>, whose law is the merge contract
  of the trait: an extractor only adds to the effect vector.

  Third-party and operating-system functions the extractors call are fields of \<open>externs\<close>:
  regular-expression matching (\<open>regex\<close>), URL parsing (\<open>url\<close>), shell word splitting
  (\<open>shlex\<close>), file-system canonicalisation (\<open>dunce\<close>), JSON printing
  (\<open>serde_json\<close>) and the \<open>{:?}\<close> rendering of a string list, whose escapes depend on
  the Unicode tables of the toolchain. Paths are the ones of a Unix build.
\<close>

section \<open>Definitions\<close>

record externs =
  x_regex_is_match :: "string \<Rightarrow> string \<Rightarrow> bool"
  x_regex_find_iter :: "string \<Rightarrow> string \<Rightarrow> string list"
  x_url_host :: "string \<Rightarrow> string option"
  x_shlex_split :: "string \<Rightarrow> string list option"
  x_canonicalize :: "string \<Rightarrow> string option"
  x_json_to_string :: "json \<Rightarrow> string"
  x_debug_strings :: "string list \<Rightarrow> string"

subsection \<open>Unix paths\<close>

text \<open>\<open>std::path::Component\<close>; the \<open>Prefix\<close> variant exists on Windows only.\<close>

datatype path_component = RootDir | CurDir | ParentDir | Normal string

definition seg_component :: "string \<Rightarrow> path_component" where
  "seg_component s = (if s = ''..'' then ParentDir else Normal s)"

text \<open>
  \<open>Path::components\<close>: repeated and trailing separators and inner \<open>.\<close> segments are
  skipped; a leading \<open>.\<close> of a relative path is kept.
\<close>

definition path_components :: "string \<Rightarrow> path_component list" where
  "path_components p =
     (let segs = str_split (CHR ''/'') p in
      (if str_starts_with p ''/'' then [RootDir]
       else if hd segs = ''.'' then [CurDir] else []) @
      map seg_component (filter (\<lambda>s. s \<noteq> [] \<and> s \<noteq> ''.'') segs))"

definition path_is_absolute :: "string \<Rightarrow> bool" where
  "path_is_absolute p \<longleftrightarrow> str_starts_with p ''/''"

text \<open>\<open>PathBuf::push\<close>.\<close>

definition path_push :: "string \<Rightarrow> string \<Rightarrow> string" where
  "path_push buf p =
     (if path_is_absolute p then p
      else if buf \<noteq> [] \<and> last buf \<noteq> CHR ''/'' then buf @ ''/'' @ p else buf @ p)"

fun component_str :: "path_component \<Rightarrow> string" where
  "component_str RootDir = ''/''"
| "component_str CurDir = ''.''"
| "component_str ParentDir = ''..''"
| "component_str (Normal s) = s"

text \<open>Collecting components into a \<open>PathBuf\<close> pushes them one by one.\<close>

definition path_collect :: "path_component list \<Rightarrow> string" where
  "path_collect cs = foldl (\<lambda>buf c. path_push buf (component_str c)) [] cs"

fun normalize_step :: "path_component list \<Rightarrow> path_component \<Rightarrow> path_component list" where
  "normalize_step out CurDir = out"
| "normalize_step out ParentDir =
     (if out = [] then out
      else (case last out of
              RootDir \<Rightarrow> out
            | ParentDir \<Rightarrow> out @ [ParentDir]
            | _ \<Rightarrow> butlast out))"
| "normalize_step out c = out @ [c]"

definition manual_normalize :: "string \<Rightarrow> string" where
  "manual_normalize p =
     (let out = foldl normalize_step [] (path_components p)
      in if out = [] then ''.'' else path_collect out)"

definition to_posix :: "string \<Rightarrow> string" where
  "to_posix s =
     (let s' = (case str_strip_prefix s [CHR 0x5C, CHR 0x5C, CHR ''?'', CHR 0x5C] of
                  None \<Rightarrow> s | Some t \<Rightarrow> t)
      in str_replace_char (CHR 0x5C) (CHR ''/'') s')"

text \<open>\<open>cwd\<close> is the result of \<open>std::env::current_dir\<close>.\<close>

definition normalize_project_root :: "externs \<Rightarrow> string option \<Rightarrow> string \<Rightarrow> string" where
  "normalize_project_root x cwd p =
     (let abs = (if path_is_absolute p then p
                 else (case cwd of Some c \<Rightarrow> path_push c p | None \<Rightarrow> p));
          normalized = (case x_canonicalize x abs of Some q \<Rightarrow> q | None \<Rightarrow> manual_normalize abs)
      in to_posix normalized)"

subsection \<open>Path extractor\<close>

definition looks_like_path :: "string \<Rightarrow> bool" where
  "looks_like_path raw =
     (let s = str_trim raw in
      if s = [] \<or> str_contains s ''://'' \<or> str_has_whitespace s then False
      else if str_contains s ''/'' \<or> str_contains s [CHR 0x5C] \<or>
              str_starts_with s ''.'' \<or> str_starts_with s ''~'' then True
      else (case str_rsplit_once (CHR ''.'') s of
              None \<Rightarrow> False
            | Some (stem, ext) \<Rightarrow>
                stem \<noteq> [] \<and> 1 \<le> length ext \<and> length ext \<le> 8 \<and>
                list_all is_ascii_alphanumeric ext \<and> list_ex is_ascii_alphabetic ext))"

definition PATH_KEYS :: "string list" where
  "PATH_KEYS = [''path'', ''paths'', ''file'', ''files'', ''filename'', ''filepath'', ''dir'',
                ''directory'', ''folder'']"

definition ALIAS_KEYS :: "string list" where
  "ALIAS_KEYS = [''src'', ''source'', ''dst'', ''dest'', ''destination'', ''target'', ''input'',
                 ''output'']"

definition push_path_key :: "json \<Rightarrow> bool \<Rightarrow> string \<Rightarrow> string list" where
  "push_path_key args strict k =
     (case json_get args k of
        Some (JString s) \<Rightarrow> if strict \<or> looks_like_path s then [s] else []
      | Some (JArray a) \<Rightarrow>
          filter (\<lambda>s. strict \<or> looks_like_path s) (List.map_filter json_as_str a)
      | _ \<Rightarrow> [])"

definition collect_paths :: "json \<Rightarrow> string list" where
  "collect_paths args =
     concat (map (push_path_key args True) PATH_KEYS) @
     concat (map (push_path_key args False) ALIAS_KEYS)"

definition canonicalize :: "externs \<Rightarrow> string list \<Rightarrow> string \<Rightarrow> string" where
  "canonicalize x project_roots raw =
     (let abs = (if path_is_absolute raw then raw
                 else (case project_roots of root # _ \<Rightarrow> path_push root raw | [] \<Rightarrow> raw));
          normalized = (case x_canonicalize x abs of Some q \<Rightarrow> q | None \<Rightarrow> manual_normalize abs)
      in to_posix normalized)"

definition is_write_call :: "string \<Rightarrow> bool" where
  "is_write_call tool_name =
     (let lower = to_ascii_lowercase tool_name in
      list_ex (str_contains lower)
        [''write'', ''create'', ''edit'', ''patch'', ''delete'', ''unlink'', ''rm'', ''move'',
         ''rename'', ''append'', ''chmod'', ''chown'', ''mkdir'', ''remove'', ''truncate'',
         ''overwrite'', ''save'', ''upload''])"

definition path_extract ::
  "externs \<Rightarrow> string list \<Rightarrow> tool_invocation \<Rightarrow> effect_vector \<Rightarrow> effect_vector" where
  "path_extract x project_roots call out =
     (let paths = collect_paths (ti_args call) in
      if paths = [] then out
      else let norm = map (canonicalize x project_roots) paths in
        if is_write_call (ti_tool_name call) then
          out\<lparr>ev_effects := ev_effects out @ [FsWrite],
              ev_paths_write := ev_paths_write out @ norm\<rparr>
        else
          out\<lparr>ev_effects := ev_effects out @ [FsRead],
              ev_paths_read := ev_paths_read out @ norm\<rparr>)"

subsection \<open>URL, SQL and shell extractors\<close>

text \<open>\<open>Url::parse(s).ok()?.host_str()?.to_ascii_lowercase()\<close>, as a list of zero or one host.\<close>

definition url_hosts :: "externs \<Rightarrow> string \<Rightarrow> string list" where
  "url_hosts x s = (case x_url_host x s of Some h \<Rightarrow> [to_ascii_lowercase h] | None \<Rightarrow> [])"

definition url_extract :: "externs \<Rightarrow> tool_invocation \<Rightarrow> effect_vector \<Rightarrow> effect_vector" where
  "url_extract x call out =
     (let single = concat (map (\<lambda>k. case json_get (ti_args call) k of
                Some (JString s) \<Rightarrow> url_hosts x s
              | _ \<Rightarrow> [])
            [''url'', ''endpoint'', ''uri'', ''href'', ''link'', ''webhook'', ''webhook_url'',
             ''callback_url'']);
          many = (case json_get (ti_args call) ''urls'' of
                Some (JArray a) \<Rightarrow> concat (map (url_hosts x) (List.map_filter json_as_str a))
              | _ \<Rightarrow> []);
          hosts = single @ many
      in if hosts \<noteq> [] then
           out\<lparr>ev_effects := ev_effects out @ [NetOutbound],
               ev_network_hosts := ev_network_hosts out @ hosts\<rparr>
         else out)"

definition DESTRUCTIVE_SQL :: string where
  "DESTRUCTIVE_SQL =
     ''(?i)'' @ [CHR 0x5C] @ ''b(DELETE|DROP|TRUNCATE|ALTER|UPDATE|REPLACE)'' @ [CHR 0x5C] @ ''b''"

definition READ_ONLY_SQL :: string where
  "READ_ONLY_SQL =
     ''(?i)^'' @ [CHR 0x5C] @ ''s*(SELECT|SHOW|DESCRIBE|EXPLAIN|WITH)'' @ [CHR 0x5C] @ ''b''"

definition sql_step ::
  "externs \<Rightarrow> tool_invocation \<Rightarrow> effect_vector \<Rightarrow> string \<Rightarrow> effect_vector" where
  "sql_step x call out k =
     (case json_get (ti_args call) k of
        Some (JString s) \<Rightarrow>
          (if x_regex_is_match x READ_ONLY_SQL s \<and> \<not> x_regex_is_match x DESTRUCTIVE_SQL s then
             out\<lparr>ev_effects := ev_effects out @ [DbRead]\<rparr>
           else if x_regex_is_match x DESTRUCTIVE_SQL s then
             out\<lparr>ev_effects := ev_effects out @ [DbWrite], ev_destructive := True\<rparr>
           else out\<lparr>ev_effects := ev_effects out @ [DbWrite]\<rparr>)
      | _ \<Rightarrow> out)"

definition sql_extract :: "externs \<Rightarrow> tool_invocation \<Rightarrow> effect_vector \<Rightarrow> effect_vector" where
  "sql_extract x call out = foldl (sql_step x call) out [''sql'', ''query'', ''statement'']"

definition DESTRUCTIVE_BINARIES :: "string list" where
  "DESTRUCTIVE_BINARIES =
     [''rm'', ''rmdir'', ''shred'', ''mkfs'', ''fdisk'', ''format'', ''del'', ''dd'', ''srm'',
      ''erase'']"

definition SHELL_WRAPPERS :: "string list" where
  "SHELL_WRAPPERS =
     [''sh'', ''bash'', ''zsh'', ''ksh'', ''dash'', ''fish'', ''cmd'', ''cmd.exe'',
      ''powershell'', ''powershell.exe'', ''pwsh'', ''pwsh.exe'']"

definition SHELL_EVAL_FLAGS :: "string list" where
  "SHELL_EVAL_FLAGS = [''-c'', ''-lc'', ''-Command'', ''/c'', ''/C'', ''-Cmd'', ''--command'']"

definition PROTECTED_PATHS :: "string list" where
  "PROTECTED_PATHS =
     [''/'', ''/etc'', ''/usr'', ''/var'', ''/bin'', ''/sbin'', ''/boot'', ''/sys'', ''/proc'',
      ''~'', ''~/.ssh'', ''~/.config'', ''~/.aws'', ''~/.docker'', ''C:'' @ [CHR 0x5C],
      ''C:'' @ [CHR 0x5C] @ ''Windows'', ''%SystemRoot%'', ''%USERPROFILE%'' @ [CHR 0x5C] @ ''.ssh'']"

definition SHELL_METACHARS :: "string list" where
  "SHELL_METACHARS =
     [''&&'', ''||'', ''|'', ''&'', '';'', ''>'', ''>>'', ''<'', ''<<'', ''$('', ''`'',
      [CHR 0x5C, CHR 0x0A]]"

text \<open>The part after the last \<open>/\<close> or backslash.\<close>

definition basename :: "string \<Rightarrow> string" where
  "basename p = rev (takeWhile (\<lambda>c. c \<noteq> CHR ''/'' \<and> c \<noteq> CHR 0x5C) (rev p))"

definition path_hits_protected :: "string \<Rightarrow> string \<Rightarrow> bool" where
  "path_hits_protected arg p =
     (let a = str_trim_matches (\<lambda>c. c = CHR 0x27 \<or> c = CHR 0x22) arg in
      a = p \<or> str_starts_with a (p @ ''/'') \<or> str_starts_with a (p @ [CHR 0x5C]))"

definition strip_exe :: "string \<Rightarrow> string" where
  "strip_exe s = (case str_strip_suffix s ''.exe'' of Some t \<Rightarrow> t | None \<Rightarrow> s)"

text \<open>The argument vector, \<open>None\<close> when the command string cannot be split (fail-closed).\<close>

definition shell_argv :: "externs \<Rightarrow> json \<Rightarrow> string list option" where
  "shell_argv x args =
     (case json_get args ''argv'' of
        Some (JArray a) \<Rightarrow> Some (List.map_filter json_as_str a)
      | _ \<Rightarrow>
          (case (case json_get args ''command'' of Some v \<Rightarrow> Some v | None \<Rightarrow> json_get args ''cmd'') of
             Some (JString s) \<Rightarrow>
               (case x_shlex_split x s of
                  Some v \<Rightarrow> if v \<noteq> [] then Some v else None
                | None \<Rightarrow> None)
           | _ \<Rightarrow> Some []))"

definition shell_destructive :: "string list \<Rightarrow> bool" where
  "shell_destructive argv =
     (let full = str_join '' '' argv;
          has_meta = list_ex (str_contains full) SHELL_METACHARS;
          bin_lower = to_ascii_lowercase (basename (hd argv));
          bin_noexe = strip_exe bin_lower;
          is_wrapper = list_ex (\<lambda>w. strip_exe w = bin_noexe \<or> w = bin_lower) SHELL_WRAPPERS;
          has_eval_flag = list_ex (\<lambda>a. List.member SHELL_EVAL_FLAGS a) (tl argv);
          wrapper_with_script =
            (is_wrapper \<and>
              (has_eval_flag \<or>
               list_ex (\<lambda>a. str_contains a '' '' \<or> str_contains a [CHR 0x0A]) (tl argv)));
          is_destructive_bin = list_ex (\<lambda>d. bin_noexe = d \<or> bin_lower = d) DESTRUCTIVE_BINARIES;
          rm_dangerous =
            (is_destructive_bin \<and> list_ex (\<lambda>a. a = ''-rf'' \<or> a = ''-fr'' \<or> a = ''-r'') argv);
          hits_protected = list_ex (\<lambda>a. list_ex (path_hits_protected a) PROTECTED_PATHS) argv
      in has_meta \<or> wrapper_with_script \<or> is_destructive_bin \<or> rm_dangerous \<or> hits_protected)"

definition shell_extract :: "externs \<Rightarrow> tool_invocation \<Rightarrow> effect_vector \<Rightarrow> effect_vector" where
  "shell_extract x call out =
     (case shell_argv x (ti_args call) of
        None \<Rightarrow> out\<lparr>ev_effects := ev_effects out @ [ExecNative], ev_destructive := True\<rparr>
      | Some argv \<Rightarrow>
          if argv = [] then out
          else
            (let out' = out\<lparr>ev_effects := ev_effects out @ [ExecNative]\<rparr>
             in if shell_destructive argv then out'\<lparr>ev_destructive := True\<rparr> else out'))"

subsection \<open>E-mail, secret-reference and browser extractors\<close>

definition email_extract :: "tool_invocation \<Rightarrow> effect_vector \<Rightarrow> effect_vector" where
  "email_extract call out =
     (let recipients = concat (map (\<lambda>k. case json_get (ti_args call) k of
              Some (JString s) \<Rightarrow> [s]
            | Some (JArray a) \<Rightarrow> List.map_filter json_as_str a
            | _ \<Rightarrow> [])
          [''to'', ''cc'', ''bcc'', ''recipients''])
      in if recipients \<noteq> [] then
           out\<lparr>ev_effects := ev_effects out @ [CommSend],
               ev_recipients := ev_recipients out @ recipients\<rparr>
         else out)"

definition SECRET_REF_RE :: string where
  "SECRET_REF_RE = ''secret://[A-Za-z0-9._'' @ [CHR 0x5C] @ ''-/]+''"

definition secret_ref_extract ::
  "externs \<Rightarrow> tool_invocation \<Rightarrow> effect_vector \<Rightarrow> effect_vector" where
  "secret_ref_extract x call out =
     (let refs = x_regex_find_iter x SECRET_REF_RE (x_json_to_string x (ti_args call))
      in if refs \<noteq> [] then
           out\<lparr>ev_effects := ev_effects out @ [SecretUse],
               ev_secret_refs := ev_secret_refs out @ refs\<rparr>
         else out)"

definition browser_action_extract ::
  "externs \<Rightarrow> tool_invocation \<Rightarrow> effect_vector \<Rightarrow> effect_vector" where
  "browser_action_extract x call out =
     (let is_browser_tool = str_contains (to_ascii_lowercase (ti_tool_name call)) ''browser'';
          action = Option.bind (json_get (ti_args call) ''action'') json_as_str
      in if is_browser_tool \<and>
            (action = Some ''submit'' \<or> action = Some ''fill_form'' \<or> action = Some ''post'')
         then
           (let out' = out\<lparr>ev_effects := ev_effects out @ [BrowserSubmit]\<rparr>
            in (case json_get (ti_args call) ''origin'' of
                  Some (JString origin) \<Rightarrow>
                    out'\<lparr>ev_network_hosts := ev_network_hosts out' @ url_hosts x origin\<rparr>
                | _ \<Rightarrow> out'))
         else out)"

subsection \<open>The static effect catalog\<close>

record catalog_entry =
  ce_server_hints :: "string list"
  ce_tool :: string
  ce_effects :: "effect_kind list"
  ce_destructive :: bool

definition catalog_entry_e :: "string list \<Rightarrow> string \<Rightarrow> effect_kind list \<Rightarrow> catalog_entry" where
  "catalog_entry_e server_hints tool effects =
     \<lparr>ce_server_hints = server_hints, ce_tool = tool, ce_effects = effects, ce_destructive = False\<rparr>"

definition CATALOG :: "catalog_entry list" where
  "CATALOG =
    [catalog_entry_e [''filesystem'', ''file'', ''fs''] ''read_file'' [FsRead],
     catalog_entry_e [''filesystem'', ''file'', ''fs''] ''read_text_file'' [FsRead],
     catalog_entry_e [''filesystem'', ''file'', ''fs''] ''read_media_file'' [FsRead],
     catalog_entry_e [''filesystem'', ''file'', ''fs''] ''read_multiple_files'' [FsRead],
     catalog_entry_e [''filesystem'', ''file'', ''fs''] ''list_directory'' [FsRead],
     catalog_entry_e [''filesystem'', ''file'', ''fs''] ''list_directory_with_sizes'' [FsRead],
     catalog_entry_e [''filesystem'', ''file'', ''fs''] ''directory_tree'' [FsRead],
     catalog_entry_e [''filesystem'', ''file'', ''fs''] ''search_files'' [FsRead],
     catalog_entry_e [''filesystem'', ''file'', ''fs''] ''get_file_info'' [FsRead],
     catalog_entry_e [''filesystem'', ''file'', ''fs''] ''write_file'' [FsWrite],
     catalog_entry_e [''filesystem'', ''file'', ''fs''] ''edit_file'' [FsWrite],
     catalog_entry_e [''filesystem'', ''file'', ''fs''] ''create_directory'' [FsWrite],
     catalog_entry_e [''filesystem'', ''file'', ''fs''] ''move_file'' [FsWrite],
     catalog_entry_e [''fetch'', ''http'', ''web''] ''fetch'' [NetOutbound],
     catalog_entry_e [''git''] ''git_status'' [FsRead],
     catalog_entry_e [''git''] ''git_log'' [FsRead],
     catalog_entry_e [''git''] ''git_diff'' [FsRead],
     catalog_entry_e [''git''] ''git_show'' [FsRead],
     catalog_entry_e [''git''] ''git_add'' [FsWrite],
     catalog_entry_e [''git''] ''git_commit'' [FsWrite],
     catalog_entry_e [''github''] ''search_repositories'' [NetOutbound, SecretUse],
     catalog_entry_e [''github''] ''get_file_contents'' [NetOutbound, SecretUse],
     catalog_entry_e [''github''] ''get_issue'' [NetOutbound, SecretUse],
     catalog_entry_e [''github''] ''list_issues'' [NetOutbound, SecretUse],
     catalog_entry_e [''github''] ''create_issue'' [NetOutbound, SecretUse, CommSend],
     catalog_entry_e [''github''] ''create_pull_request'' [NetOutbound, SecretUse, CommSend],
     catalog_entry_e [''github''] ''add_issue_comment'' [NetOutbound, SecretUse, CommSend],
     catalog_entry_e [''github''] ''create_or_update_file'' [NetOutbound, SecretUse, CommSend],
     catalog_entry_e [''github''] ''push_files'' [NetOutbound, SecretUse, CommSend],
     catalog_entry_e [''brave''] ''brave_web_search'' [NetOutbound, SecretUse],
     catalog_entry_e [''brave''] ''brave_local_search'' [NetOutbound, SecretUse],
     catalog_entry_e [''slack''] ''slack_post_message'' [NetOutbound, SecretUse, CommSend],
     catalog_entry_e [''slack''] ''slack_reply_to_thread'' [NetOutbound, SecretUse, CommSend],
     catalog_entry_e [''postgres'', ''postgresql'', ''pg''] ''query'' [DbRead]]"

definition push_effect_once :: "effect_vector \<Rightarrow> effect_kind \<Rightarrow> effect_vector" where
  "push_effect_once out eff =
     (if List.member (ev_effects out) eff then out
      else out\<lparr>ev_effects := ev_effects out @ [eff]\<rparr>)"

definition catalog_step ::
  "tool_invocation \<Rightarrow> effect_vector \<Rightarrow> catalog_entry \<Rightarrow> effect_vector" where
  "catalog_step call out entry =
     (if ce_tool entry \<noteq> ti_tool_name call then out
      else if \<not> (ce_server_hints entry = [] \<or>
                 list_ex (str_contains (to_ascii_lowercase (ti_server_id call))) (ce_server_hints entry))
      then out
      else
        (let out' = foldl push_effect_once out (ce_effects entry)
         in if ce_destructive entry then out'\<lparr>ev_destructive := True\<rparr> else out'))"

definition catalog_extract :: "tool_invocation \<Rightarrow> effect_vector \<Rightarrow> effect_vector" where
  "catalog_extract call out = foldl (catalog_step call) out CATALOG"

subsection \<open>The pipeline\<close>

text \<open>The extractors in the order \<open>Firewall::with_scanner\<close> installs them.\<close>

definition builtin_extractors ::
  "externs \<Rightarrow> string list \<Rightarrow> (tool_invocation \<Rightarrow> effect_vector \<Rightarrow> effect_vector) list" where
  "builtin_extractors x project_roots =
     [catalog_extract, path_extract x project_roots, url_extract x, sql_extract x,
      shell_extract x, email_extract, secret_ref_extract x, browser_action_extract x]"

definition run_extractors ::
  "(tool_invocation \<Rightarrow> effect_vector \<Rightarrow> effect_vector) list \<Rightarrow> tool_invocation \<Rightarrow>
   effect_vector \<Rightarrow> effect_vector" where
  "run_extractors exs call out = foldl (\<lambda>acc ex. ex call acc) out exs"

definition dedup_effects :: "effect_vector \<Rightarrow> effect_vector" where
  "dedup_effects e =
     e\<lparr>ev_effects := retain_first {} (ev_effects e),
       ev_paths_read := vec_dedup (sort (ev_paths_read e)),
       ev_paths_write := vec_dedup (sort (ev_paths_write e)),
       ev_network_hosts := vec_dedup (sort (ev_network_hosts e)),
       ev_secret_refs := vec_dedup (sort (ev_secret_refs e)),
       ev_recipients := vec_dedup (sort (ev_recipients e))\<rparr>"

definition extract_effects :: "externs \<Rightarrow> string list \<Rightarrow> tool_invocation \<Rightarrow> effect_vector" where
  "extract_effects x project_roots call =
     dedup_effects (run_extractors (builtin_extractors x project_roots) call effect_vector_default)"

section \<open>The extractor contract\<close>

text \<open>
  \<open>ev_extends a b\<close>: every list field of \<open>a\<close> is a prefix of the field of \<open>b\<close>, the
  destructive flag is never taken back, and reversibility is untouched.
\<close>

definition ev_extends :: "effect_vector \<Rightarrow> effect_vector \<Rightarrow> bool" where
  "ev_extends a b \<longleftrightarrow>
     prefix (ev_effects a) (ev_effects b) \<and>
     prefix (ev_paths_read a) (ev_paths_read b) \<and>
     prefix (ev_paths_write a) (ev_paths_write b) \<and>
     prefix (ev_network_hosts a) (ev_network_hosts b) \<and>
     prefix (ev_secret_refs a) (ev_secret_refs b) \<and>
     prefix (ev_recipients a) (ev_recipients b) \<and>
     (ev_destructive a \<longrightarrow> ev_destructive b) \<and>
     ev_reversible a = ev_reversible b"

lemma ev_extends_refl [simp, intro]: "ev_extends a a"
  by (simp add: ev_extends_def)

lemma ev_extends_trans: "ev_extends a b \<Longrightarrow> ev_extends b c \<Longrightarrow> ev_extends a c"
  unfolding ev_extends_def by (meson prefix_order.order_trans)

lemma foldl_ev_extends:
  "(\<And>acc s. ev_extends acc (f acc s)) \<Longrightarrow> ev_extends out (foldl f out ss)"
  by (induction ss arbitrary: out) (auto intro: ev_extends_trans)

locale effect_extractor =
  fixes extr :: "tool_invocation \<Rightarrow> effect_vector \<Rightarrow> effect_vector"
  assumes extract_extends: "ev_extends out (extr call out)"
begin

lemma keeps_effect: "k \<in> set (ev_effects out) \<Longrightarrow> k \<in> set (ev_effects (extr call out))"
  using extract_extends [of out call] by (auto simp: ev_extends_def prefix_def)

lemma keeps_destructive: "ev_destructive out \<Longrightarrow> ev_destructive (extr call out)"
  using extract_extends [of out call] by (simp add: ev_extends_def)

lemma extends_after: "ev_extends a out \<Longrightarrow> ev_extends a (extr call out)"
  by (rule ev_extends_trans [OF _ extract_extends])

end

interpretation path_ex: effect_extractor "path_extract x project_roots" for x project_roots
  by unfold_locales (auto simp: path_extract_def ev_extends_def Let_def)

interpretation url_ex: effect_extractor "url_extract x" for x
  by unfold_locales (auto simp: url_extract_def ev_extends_def Let_def)

lemma sql_step_extends: "ev_extends out (sql_step x call out k)"
  by (auto simp: sql_step_def ev_extends_def split: option.splits json.splits)

interpretation sql_ex: effect_extractor "sql_extract x" for x
  by unfold_locales (unfold sql_extract_def, rule foldl_ev_extends, rule sql_step_extends)

interpretation shell_ex: effect_extractor "shell_extract x" for x
  by unfold_locales (auto simp: shell_extract_def ev_extends_def Let_def split: option.splits)

interpretation email_ex: effect_extractor email_extract
  by unfold_locales (auto simp: email_extract_def ev_extends_def Let_def)

interpretation secret_ref_ex: effect_extractor "secret_ref_extract x" for x
  by unfold_locales (auto simp: secret_ref_extract_def ev_extends_def Let_def)

interpretation browser_ex: effect_extractor "browser_action_extract x" for x
  by unfold_locales
     (auto simp: browser_action_extract_def ev_extends_def Let_def split: option.splits json.splits)

lemma push_effect_once_extends: "ev_extends out (push_effect_once out eff)"
  by (simp add: push_effect_once_def ev_extends_def)

lemma catalog_step_extends: "ev_extends out (catalog_step call out entry)"
proof -
  have "ev_extends out (foldl push_effect_once out (ce_effects entry))"
    by (rule foldl_ev_extends) (rule push_effect_once_extends)
  then show ?thesis
    by (auto simp: catalog_step_def Let_def ev_extends_def)
qed

interpretation catalog_ex: effect_extractor catalog_extract
  by unfold_locales (simp add: catalog_extract_def foldl_ev_extends catalog_step_extends)

text \<open>A pipeline of extractors that keep the contract keeps it, from every intermediate vector.\<close>

lemma run_extractors_extends:
  "(\<And>ex. ex \<in> set exs \<Longrightarrow> effect_extractor ex) \<Longrightarrow> ev_extends out (run_extractors exs call out)"
proof (induction exs arbitrary: out)
  case (Cons ex exs)
  have "ev_extends out (ex call out)"
    using Cons.prems [of ex] by (simp add: effect_extractor.extract_extends)
  moreover have "ev_extends (ex call out) (run_extractors exs call (ex call out))"
    using Cons by simp
  ultimately show ?case by (auto simp: run_extractors_def intro: ev_extends_trans)
qed (simp add: run_extractors_def)

lemma builtin_extractors_contract:
  "ex \<in> set (builtin_extractors x project_roots) \<Longrightarrow> effect_extractor ex"
  by (auto simp: builtin_extractors_def path_ex.effect_extractor_axioms
      url_ex.effect_extractor_axioms sql_ex.effect_extractor_axioms
      shell_ex.effect_extractor_axioms email_ex.effect_extractor_axioms
      secret_ref_ex.effect_extractor_axioms browser_ex.effect_extractor_axioms
      catalog_ex.effect_extractor_axioms)

lemma run_extractors_append:
  "run_extractors (xs @ ys) call out = run_extractors ys call (run_extractors xs call out)"
  by (simp add: run_extractors_def)

lemma dedup_effects_sets [simp]:
  "set (ev_effects (dedup_effects e)) = set (ev_effects e)"
  "set (ev_paths_read (dedup_effects e)) = set (ev_paths_read e)"
  "set (ev_paths_write (dedup_effects e)) = set (ev_paths_write e)"
  "set (ev_network_hosts (dedup_effects e)) = set (ev_network_hosts e)"
  "set (ev_secret_refs (dedup_effects e)) = set (ev_secret_refs e)"
  "set (ev_recipients (dedup_effects e)) = set (ev_recipients e)"
  "ev_destructive (dedup_effects e) = ev_destructive e"
  "ev_reversible (dedup_effects e) = ev_reversible e"
  by (simp_all add: dedup_effects_def set_retain_first)

section \<open>Path normalisation\<close>

text \<open>
  Components as the normalisation produces them: an optional root followed by proper names, so
  that printing and parsing are inverse.
\<close>

fun plain_name :: "path_component \<Rightarrow> bool" where
  "plain_name (Normal s) \<longleftrightarrow> s \<noteq> [] \<and> CHR ''/'' \<notin> set s \<and> s \<noteq> ''.'' \<and> s \<noteq> ''..''"
| "plain_name _ \<longleftrightarrow> False"

definition wf_components :: "path_component list \<Rightarrow> bool" where
  "wf_components cs \<longleftrightarrow> list_all plain_name (if prefix [RootDir] cs then tl cs else cs)"

lemma no_sep_in_split: "s \<in> set (str_split c p) \<Longrightarrow> c \<notin> set s"
  by (induction p arbitrary: s) (auto split: list.splits if_splits)

lemma str_split_join:
  "ss \<noteq> [] \<Longrightarrow> (\<And>s. s \<in> set ss \<Longrightarrow> c \<notin> set s) \<Longrightarrow> str_split c (str_join [c] ss) = ss"
proof (induction ss)
  case (Cons s ss)
  have one: "str_split c s = [s]"
    using Cons.prems(2) [of s] by (induction s) auto
  show ?case
  proof (cases "ss = []")
    case False
    then have "str_join [c] (s # ss) = s @ c # str_join [c] ss"
      by (simp add: str_join_Cons)
    then show ?thesis
      using Cons False one by (simp add: str_split_append_sep)
  qed (simp add: one)
qed simp

lemma wf_butlast:
  assumes "wf_components out" and "out \<noteq> []" and "last out \<noteq> RootDir"
  shows "wf_components (butlast out)"
proof (cases out)
  case (Cons c cs)
  with assms show ?thesis
    by (cases cs) (auto simp: wf_components_def list_all_iff split: if_splits dest: in_set_butlastD)
qed (use assms in simp)

lemma wf_snoc_name:
  "wf_components out \<Longrightarrow> plain_name c \<Longrightarrow> wf_components (out @ [c])"
  by (cases out; cases c) (auto simp: wf_components_def)

lemma wf_normalize_step:
  assumes "wf_components out" and "c = CurDir \<or> c = ParentDir \<or> plain_name c"
  shows "wf_components (normalize_step out c)"
proof -
  have "wf_components (normalize_step out ParentDir)"
  proof (cases "out = []")
    case False
    have "\<forall>c \<in> set out. c = RootDir \<or> plain_name c"
      using assms(1) by (cases out) (auto simp: wf_components_def list_all_iff split: if_splits)
    then have "last out = RootDir \<or> plain_name (last out)" using False by simp
    then have "last out \<noteq> ParentDir" by auto
    with False assms(1) show ?thesis
      by (auto split: path_component.splits intro: wf_butlast)
  qed (use assms in simp)
  with assms show ?thesis
    by (cases c) (auto intro: wf_snoc_name)
qed

lemma wf_normalize_fold:
  "wf_components out \<Longrightarrow> (\<And>c. c \<in> set cs \<Longrightarrow> c = CurDir \<or> c = ParentDir \<or> plain_name c) \<Longrightarrow>
     wf_components (foldl normalize_step out cs)"
  by (induction cs arbitrary: out) (simp_all add: wf_normalize_step)

lemma seg_component_plain:
  "s \<in> set (str_split (CHR ''/'') p) \<Longrightarrow> s \<noteq> [] \<Longrightarrow> s \<noteq> ''.'' \<Longrightarrow>
     seg_component s = ParentDir \<or> plain_name (seg_component s)"
  using no_sep_in_split [of s "CHR ''/''" p] by (auto simp: seg_component_def)

lemma wf_normalized: "wf_components (foldl normalize_step [] (path_components p))"
proof -
  let ?segs = "map seg_component (filter (\<lambda>s. s \<noteq> [] \<and> s \<noteq> ''.'') (str_split (CHR ''/'') p))"
  have segs: "c = CurDir \<or> c = ParentDir \<or> plain_name c" if "c \<in> set ?segs" for c
    using that seg_component_plain by auto
  have root: "wf_components [RootDir]" and empty: "wf_components []"
    by (simp_all add: wf_components_def)
  have "wf_components (foldl normalize_step [RootDir] ?segs)"
    and "wf_components (foldl normalize_step [] ?segs)"
    by (rule wf_normalize_fold [OF root], erule segs) (rule wf_normalize_fold [OF empty], erule segs)
  then show ?thesis
    by (auto simp: path_components_def Let_def)
qed

text \<open>Printing well-formed components.\<close>

lemma name_push:
  assumes "plain_name (Normal s)"
  shows "s \<noteq> []" and "last s \<noteq> CHR ''/''" and "\<not> path_is_absolute s"
proof -
  show s: "s \<noteq> []" using assms by simp
  show "last s \<noteq> CHR ''/''"
    using last_in_set [OF s] assms by (metis plain_name.simps(1))
  show "\<not> path_is_absolute s"
    using assms by (auto simp: path_is_absolute_def prefix_def)
qed

lemma path_collect_names:
  assumes "list_all plain_name (map Normal ss)" and "buf \<noteq> []" and "last buf \<noteq> CHR ''/''"
  shows "foldl (\<lambda>buf c. path_push buf (component_str c)) buf (map Normal ss) =
    buf @ concat (map (\<lambda>s. ''/'' @ s) ss)"
  using assms
proof (induction ss arbitrary: buf)
  case (Cons s ss)
  then have push: "path_push buf s = buf @ ''/'' @ s"
    by (simp add: path_push_def name_push(3))
  have "foldl (\<lambda>buf c. path_push buf (component_str c)) (buf @ ''/'' @ s) (map Normal ss) =
      (buf @ ''/'' @ s) @ concat (map (\<lambda>s. ''/'' @ s) ss)"
    using Cons.prems(1) name_push [of s] by (intro Cons.IH) simp_all
  with push show ?case by simp
qed simp

lemma join_concat:
  "str_join ''/'' (s # ss) = s @ concat (map (\<lambda>s. ''/'' @ s) ss)"
  by (induction ss arbitrary: s) auto

lemma plain_names_obtain:
  assumes "list_all plain_name cs"
  obtains ss where "cs = map Normal ss"
proof -
  have "\<exists>ss. cs = map Normal ss"
    using assms
  proof (induction cs)
    case (Cons c cs)
    then obtain s ss where "c = Normal s" and "cs = map Normal ss" by (cases c) auto
    then have "c # cs = map Normal (s # ss)" by simp
    then show ?case by (rule exI)
  qed simp
  then show ?thesis using that by blast
qed

lemma path_collect_plain:
  assumes "list_all plain_name (map Normal ss)" and "ss \<noteq> []"
  shows "path_collect (map Normal ss) = str_join ''/'' ss"
    and "path_collect (RootDir # map Normal ss) = ''/'' @ str_join ''/'' ss"
proof -
  obtain t ts where ss: "ss = t # ts" using assms(2) by (cases ss) auto
  have "plain_name (Normal t)" using assms(1) by (simp add: ss)
  from name_push [OF this]
  have t: "path_push [] t = t" "path_push ''/'' t = ''/'' @ t" "t \<noteq> []" "last t \<noteq> CHR ''/''"
    by (simp_all add: path_push_def)
  show "path_collect (map Normal ss) = str_join ''/'' ss"
    using path_collect_names [of ts t] assms(1) t by (simp add: ss path_collect_def join_concat)
  have "path_push [] ''/'' = ''/''" by (simp add: path_push_def path_is_absolute_def)
  then show "path_collect (RootDir # map Normal ss) = ''/'' @ str_join ''/'' ss"
    using path_collect_names [of ts "''/'' @ t"] assms(1) t
    by (simp add: ss path_collect_def join_concat)
qed

lemma path_components_plain:
  assumes "list_all plain_name (map Normal ss)" and "ss \<noteq> []"
  shows "path_components (str_join ''/'' ss) = map Normal ss"
    and "path_components (''/'' @ str_join ''/'' ss) = RootDir # map Normal ss"
proof -
  have names: "s \<noteq> [] \<and> CHR ''/'' \<notin> set s \<and> s \<noteq> ''.'' \<and> s \<noteq> ''..''" if "s \<in> set ss" for s
    using assms(1) that by (auto simp: list_all_iff)
  then have split: "str_split (CHR ''/'') (str_join ''/'' ss) = ss"
    using str_split_join [of ss "CHR ''/''"] assms(2) by simp
  have filt: "filter (\<lambda>s. s \<noteq> [] \<and> s \<noteq> ''.'') ss = ss" using names by (simp add: filter_id_conv)
  have segs: "map seg_component ss = map Normal ss"
    using names by (auto simp: seg_component_def)
  obtain t ts where ss: "ss = t # ts" using assms(2) by (cases ss) auto
  have "\<not> prefix ''/'' (str_join ''/'' ss)"
    using names [of t] by (cases t) (auto simp: ss join_concat)
  moreover have "hd ss \<noteq> ''.''" using names [of t] by (simp add: ss)
  ultimately show "path_components (str_join ''/'' ss) = map Normal ss"
    using filt segs by (simp add: path_components_def Let_def split)
  show "path_components (''/'' @ str_join ''/'' ss) = RootDir # map Normal ss"
    using filt segs by (simp add: path_components_def Let_def split)
qed

lemma components_collect:
  assumes "wf_components cs" and "cs \<noteq> []"
  shows "path_components (path_collect cs) = cs"
proof (cases "prefix [RootDir] cs")
  case True
  then obtain rest where cs: "cs = RootDir # rest" by (auto simp: prefix_def)
  then obtain ss where rest: "rest = map Normal ss"
    using assms(1) True by (auto simp: wf_components_def elim: plain_names_obtain)
  show ?thesis
  proof (cases "ss = []")
    case True
    then show ?thesis
      by (simp add: cs rest path_collect_def path_push_def path_is_absolute_def path_components_def)
  next
    case False
    then show ?thesis
      using assms(1) path_collect_plain(2) [of ss] path_components_plain(2) [of ss]
      by (simp add: cs rest wf_components_def)
  qed
next
  case False
  then obtain ss where cs: "cs = map Normal ss"
    using assms(1) by (auto simp: wf_components_def elim: plain_names_obtain)
  then show ?thesis
    using assms False path_collect_plain(1) [of ss] path_components_plain(1) [of ss]
    by (simp add: wf_components_def)
qed

lemma normalized_components:
  "path_components (manual_normalize p) =
     (let out = foldl normalize_step [] (path_components p) in if out = [] then [CurDir] else out)"
  using components_collect [OF wf_normalized, of p]
  by (simp add: manual_normalize_def Let_def path_components_def [of "''.''"])

lemma normalize_step_plain:
  "plain_name c \<Longrightarrow> normalize_step out c = out @ [c]"
  by (cases c) auto

lemma fold_normalize_plain:
  "list_all plain_name cs \<Longrightarrow> foldl normalize_step out cs = out @ cs"
  by (induction cs arbitrary: out) (auto simp: normalize_step_plain)

lemma fold_normalize_wf:
  assumes "wf_components cs"
  shows "foldl normalize_step [] cs = cs"
proof (cases "prefix [RootDir] cs")
  case True
  then obtain rest where "cs = RootDir # rest" by (auto simp: prefix_def)
  with assms show ?thesis by (simp add: wf_components_def fold_normalize_plain)
next
  case False
  with assms show ?thesis by (simp add: wf_components_def fold_normalize_plain)
qed

lemma manual_normalize_idem: "manual_normalize (manual_normalize p) = manual_normalize p"
proof -
  let ?out = "foldl normalize_step [] (path_components p)"
  have "foldl normalize_step [] (path_components (manual_normalize p)) = ?out"
    using fold_normalize_wf [OF wf_normalized, of p]
    by (simp add: normalized_components Let_def)
  then show ?thesis by (simp add: manual_normalize_def)
qed

lemma wf_no_dots: "wf_components cs \<Longrightarrow> ParentDir \<notin> set cs \<and> CurDir \<notin> set cs"
  by (cases cs) (auto simp: wf_components_def list_all_iff split: if_splits)

lemma normalize_step_root:
  "prefix [RootDir] out \<Longrightarrow> prefix [RootDir] (normalize_step out c)"
proof (cases out)
  case (Cons a rest)
  assume "prefix [RootDir] out"
  then show ?thesis
    by (cases c; cases rest rule: rev_cases) (auto simp: Cons split: path_component.splits)
qed simp

lemma normalize_fold_root:
  "prefix [RootDir] out \<Longrightarrow> prefix [RootDir] (foldl normalize_step out cs)"
  by (induction cs arbitrary: out) (auto intro: normalize_step_root simp del: prefix_Cons)

lemma path_collect_root: "path_is_absolute (path_collect (RootDir # cs))"
proof -
  have "path_is_absolute (foldl (\<lambda>buf c. path_push buf (component_str c)) buf cs)"
    if "path_is_absolute buf" for buf
    using that
    by (induction cs arbitrary: buf) (auto simp: path_push_def path_is_absolute_def prefix_def)
  then show ?thesis by (simp add: path_collect_def path_push_def path_is_absolute_def)
qed

lemma manual_normalize_absolute:
  assumes "path_is_absolute p"
  shows "path_is_absolute (manual_normalize p)"
proof -
  obtain cs where "path_components p = RootDir # cs"
    using assms by (auto simp: path_components_def path_is_absolute_def Let_def)
  then have "prefix [RootDir] (foldl normalize_step [] (path_components p))"
    using normalize_fold_root [of "[RootDir]" cs] by simp
  then obtain out where "foldl normalize_step [] (path_components p) = RootDir # out"
    by (auto simp: prefix_def)
  then show ?thesis by (simp add: manual_normalize_def Let_def path_collect_root)
qed

section \<open>Properties\<close>

text \<open>
  No extractor hides what an earlier one found: for every prefix of the pipeline, each effect,
  path, host, secret reference and recipient it produced is in the final vector of the call, the
  destructive flag is not taken back, and the final vector lists each effect and path once.
\<close>

lemma extraction_never_hides:
  fixes x roots call n
  defines "mid \<equiv> run_extractors (take n (builtin_extractors x roots)) call effect_vector_default"
    and "fin \<equiv> extract_effects x roots call"
  shows "set (ev_effects mid) \<subseteq> set (ev_effects fin) \<and>
    set (ev_paths_read mid) \<subseteq> set (ev_paths_read fin) \<and>
    set (ev_paths_write mid) \<subseteq> set (ev_paths_write fin) \<and>
    set (ev_network_hosts mid) \<subseteq> set (ev_network_hosts fin) \<and>
    set (ev_secret_refs mid) \<subseteq> set (ev_secret_refs fin) \<and>
    set (ev_recipients mid) \<subseteq> set (ev_recipients fin) \<and>
    ev_destructive mid \<le> ev_destructive fin \<and>
    distinct (ev_effects fin) \<and> distinct (ev_paths_read fin) \<and> distinct (ev_paths_write fin)"
proof -
  let ?all = "run_extractors (builtin_extractors x roots) call effect_vector_default"
  have "?all = run_extractors (drop n (builtin_extractors x roots)) call mid"
    unfolding mid_def run_extractors_append [symmetric] by simp
  moreover have "ev_extends mid (run_extractors (drop n (builtin_extractors x roots)) call mid)"
    by (rule run_extractors_extends) (meson builtin_extractors_contract in_set_dropD)
  ultimately have "ev_extends mid ?all" by simp
  moreover have "fin = dedup_effects ?all" by (simp add: fin_def extract_effects_def)
  moreover have "distinct (ev_effects (dedup_effects e)) \<and>
      distinct (ev_paths_read (dedup_effects e)) \<and> distinct (ev_paths_write (dedup_effects e))" for e
    by (simp add: dedup_effects_def distinct_retain_first distinct_vec_dedup)
  ultimately show ?thesis
    by (auto simp: ev_extends_def dest: set_mono_prefix)
qed

text \<open>
  A manually normalised path has no parent-directory component, stays absolute if it was, and
  normalising again changes nothing.
\<close>

lemma manual_normalize_no_traversal:
  "ParentDir \<notin> set (path_components (manual_normalize p)) \<and>
   path_is_absolute p \<le> path_is_absolute (manual_normalize p) \<and>
   manual_normalize (manual_normalize p) = manual_normalize p"
  using wf_no_dots [OF wf_normalized, of p] manual_normalize_absolute [of p] manual_normalize_idem
  by (auto simp: normalized_components Let_def)

end
