(* ===== verification/Scorer.thy ===== *)
theory Scorer
  imports Extract
begin

text \<open>
  The risk scorer (crate \<open>vigil-firewall\<close>, file \<open>scorer.rs\<close>): descriptor status, the
  weight table, the clamped score and its reasons. The lemmas show that the score is the capped sum
  of the weights and grows with the effect vector.
\<close>

section \<open>Definitions\<close>

datatype descriptor_status = DS_ApprovedStable | DS_FirstSeen | DS_Drifted

record risk_scorer =
  rs_allowed_hosts :: "string set"
  rs_project_roots :: "string list"

definition risk_scorer_new :: "string list \<Rightarrow> string list \<Rightarrow> risk_scorer" where
  "risk_scorer_new allowed_hosts project_roots =
     \<lparr>rs_allowed_hosts = set allowed_hosts, rs_project_roots = project_roots\<rparr>"

definition scorer_under_any_root :: "risk_scorer \<Rightarrow> string \<Rightarrow> bool" where
  "scorer_under_any_root self p =
     list_ex (\<lambda>r. if p = r then True
                  else str_starts_with p (if str_ends_with r ''/'' then r else r @ ''/''))
       (rs_project_roots self)"

text \<open>The mutable pair of the running score and the reasons pushed so far.\<close>

type_synonym score_state = "int \<times> (int \<times> string) list"

definition add_risk :: "bool \<Rightarrow> int \<Rightarrow> string \<Rightarrow> score_state \<Rightarrow> score_state" where
  "add_risk b w reason st = (if b then (fst st + w, snd st @ [(w, reason)]) else st)"

definition score_steps ::
  "externs \<Rightarrow> risk_scorer \<Rightarrow> effect_vector \<Rightarrow> descriptor_status \<Rightarrow> score_state" where
  "score_steps x self effects descriptor =
     (let has = (\<lambda>k. List.member (ev_effects effects) k);
          outside = filter (\<lambda>p. \<not> scorer_under_any_root self p) (ev_paths_write effects);
          unknown = filter (\<lambda>h. h \<notin> rs_allowed_hosts self) (ev_network_hosts effects);
          st0 = (0, []);
          st1 = (case descriptor of
                   DS_FirstSeen \<Rightarrow> add_risk True 15 ''first-seen MCP server'' st0
                 | DS_Drifted \<Rightarrow>
                     add_risk True 25 ''descriptor hash drifted since last approval'' st0
                 | DS_ApprovedStable \<Rightarrow> st0);
          st2 = add_risk (has FsWrite) 20
                  (''writes local files: '' @ show_nat (length (ev_paths_write effects))) st1;
          st3 = add_risk (has FsWrite \<and> rs_project_roots self \<noteq> [] \<and> outside \<noteq> []) 30
                  (''writes OUTSIDE project: '' @ hd outside) st2;
          st4 = add_risk (has NetOutbound) 15
                  (''outbound network: '' @ x_debug_strings x (ev_network_hosts effects)) st3;
          st5 = add_risk (has NetOutbound \<and> unknown \<noteq> []) 20 (''unknown host: '' @ hd unknown) st4;
          st6 = add_risk (has SecretUse) 25
                  (''uses credential lease: '' @ x_debug_strings x (ev_secret_refs effects)) st5;
          st7 = add_risk (has ExecNative) 30 ''runs native subprocess'' st6;
          st8 = add_risk (ev_destructive effects) 35 ''destructive operation detected'' st7;
          st9 = add_risk (has CommSend \<or> has BrowserSubmit) 25
                  (''sends to recipients / submits form: '' @ show_nat (length (ev_recipients effects)))
                  st8
      in st9)"

text \<open>\<open>s.clamp(0, 100) as u8\<close> and the reasons in descending weight, stably.\<close>

definition score ::
  "externs \<Rightarrow> risk_scorer \<Rightarrow> effect_vector \<Rightarrow> descriptor_status \<Rightarrow> u8 \<times> string list" where
  "score x self effects descriptor =
     (let st = score_steps x self effects descriptor
      in (word_of_int (max 0 (min 100 (fst st))), map snd (sort_key (\<lambda>r. - fst r) (snd st))))"

section \<open>Lemmas\<close>

definition risk_sum :: "risk_scorer \<Rightarrow> effect_vector \<Rightarrow> descriptor_status \<Rightarrow> int" where
  "risk_sum self effects descriptor =
     (let E = set (ev_effects effects) in
      (case descriptor of DS_ApprovedStable \<Rightarrow> 0 | DS_FirstSeen \<Rightarrow> 15 | DS_Drifted \<Rightarrow> 25) +
      (if FsWrite \<in> E then 20 else 0) +
      (if FsWrite \<in> E \<and> rs_project_roots self \<noteq> [] \<and>
          (\<exists>p \<in> set (ev_paths_write effects). \<not> scorer_under_any_root self p) then 30 else 0) +
      (if NetOutbound \<in> E then 15 else 0) +
      (if NetOutbound \<in> E \<and>
          (\<exists>h \<in> set (ev_network_hosts effects). h \<notin> rs_allowed_hosts self) then 20 else 0) +
      (if SecretUse \<in> E then 25 else 0) +
      (if ExecNative \<in> E then 30 else 0) +
      (if ev_destructive effects then 35 else 0) +
      (if CommSend \<in> E \<or> BrowserSubmit \<in> E then 25 else 0))"

lemma add_risk_fst: "fst (add_risk b w r st) = fst st + (if b then w else 0)"
  by (simp add: add_risk_def)

lemma score_steps_sum: "fst (score_steps x self effects descriptor) = risk_sum self effects descriptor"
  by (simp add: score_steps_def risk_sum_def Let_def add_risk_fst filter_empty_conv
      split: descriptor_status.split)

lemma risk_sum_bounds: "0 \<le> risk_sum self effects d \<and> risk_sum self effects d \<le> 225"
proof -
  have "(case d of DS_ApprovedStable \<Rightarrow> 0 | DS_FirstSeen \<Rightarrow> 15 | DS_Drifted \<Rightarrow> 25) \<in> {0..25::int}"
    by (cases d) simp_all
  then show ?thesis unfolding risk_sum_def Let_def by (simp only: atLeastAtMost_iff) auto
qed

lemma unat_word_of_int_small:
  "0 \<le> k \<Longrightarrow> k < 256 \<Longrightarrow> unat (word_of_int k :: u8) = nat k"
  by (simp add: unsigned_of_int take_bit_int_eq_self)

lemma unat_score: "unat (fst (score x self effects d)) = nat (min 100 (risk_sum self effects d))"
  using risk_sum_bounds [of self effects d]
  by (simp add: score_def Let_def score_steps_sum unat_word_of_int_small max_def min_def)

text \<open>A vector with more effects, more paths and hosts, and no less destructive, scores no less.\<close>

definition ev_covers :: "effect_vector \<Rightarrow> effect_vector \<Rightarrow> bool" where
  "ev_covers a b \<longleftrightarrow>
     set (ev_effects a) \<subseteq> set (ev_effects b) \<and>
     set (ev_paths_write a) \<subseteq> set (ev_paths_write b) \<and>
     set (ev_network_hosts a) \<subseteq> set (ev_network_hosts b) \<and>
     ev_destructive a \<le> ev_destructive b"

lemma risk_sum_mono:
  assumes "ev_covers a b"
  shows "risk_sum self a d \<le> risk_sum self b d"
proof -
  have le: "(if P then w else 0) \<le> (if Q then w else (0::int))" if "P \<Longrightarrow> Q" and "0 \<le> w" for P Q w
    using that by auto
  show ?thesis
    unfolding risk_sum_def Let_def
    using assms unfolding ev_covers_def by (intro add_mono le order_refl) (simp_all, blast+)
qed

section \<open>Properties\<close>

text \<open>
  The risk score never exceeds 100, equals the capped sum of the weights of what was found
  (no intermediate wrap-around), and does not decrease when a call shows more effects, paths,
  hosts or destructiveness.
\<close>

lemma score_bounded_and_monotone:
  assumes "ev_covers a b"
  shows "fst (score x self b d) \<le> 100 \<and>
    unat (fst (score x self b d)) = nat (min 100 (risk_sum self b d)) \<and>
    fst (score x self a d) \<le> fst (score x self b d)"
  using risk_sum_mono [OF assms, of self d]
  by (auto simp: word_le_nat_alt unat_score)

definition witness_externs :: externs where
  "witness_externs =
     \<lparr>x_regex_is_match = (\<lambda>p s. False), x_regex_find_iter = (\<lambda>p s. []),
      x_url_host = (\<lambda>s. None), x_shlex_split = (\<lambda>s. Some (str_split (CHR '' '') s)),
      x_canonicalize = (\<lambda>s. None), x_json_to_string = (\<lambda>j. []), x_debug_strings = concat\<rparr>"

definition witness_write :: effect_vector where
  "witness_write = effect_vector_default
     \<lparr>ev_effects := [FsWrite], ev_paths_write := [''/etc/hosts'']\<rparr>"

lemma score_bounded_and_monotone_example:
  "fst (score witness_externs (risk_scorer_new [] [''/proj'']) witness_write DS_FirstSeen) \<le> 100 \<and>
   risk_sum (risk_scorer_new [] [''/proj'']) witness_write DS_FirstSeen = 65"
proof -
  have "ev_covers effect_vector_default witness_write" by code_simp
  moreover have "risk_sum (risk_scorer_new [] [''/proj'']) witness_write DS_FirstSeen = 65" by code_simp
  ultimately show ?thesis
    using score_bounded_and_monotone [of effect_vector_default witness_write witness_externs] by blast
qed

end
