(* ===== verification/Redact_Rules.thy ===== *)
theory Redact_Rules
  imports Types
begin

text \<open>
  The secret fingerprints of crate \<open>vigil-redaction\<close> (\<open>lib.rs\<close>): the regular expressions as
  their source text and the two ordered rule tables, \<open>ALL_RULES\<close> for scrubbing and
  \<open>HARD_RULES\<close> for the fail-closed self check. What a pattern matches is decided by the
  \<open>regex\<close> crate, a parameter of the functions in theory \<open>Redact\<close>. A string literal is cut
  where it holds a quote, a backslash or a byte outside ASCII, which are written by their codes.
\<close>

record rule =
  rule_name :: string
  rule_pattern :: string

section \<open>Definitions\<close>

definition GITHUB_TOKEN_PATTERN :: string where
  "GITHUB_TOKEN_PATTERN =
      [CHR 0x5C] @ ''b(?:gh[pousr]_[A-Za-z0-9]{36,255}|github_pat_[A-Za-z0-9_]{50,255})'' @
      [CHR 0x5C] @ ''b''"

definition SECRET_KEY_NAME_FRAGMENT :: string where
  "SECRET_KEY_NAME_FRAGMENT =
      ''(?:[A-Z0-9][A-Z0-9_.-]*)?(?:secret|password|passwd|passphrase)|[A-Z0-9'' @
      ''][A-Z0-9_.-]*pwd|(?:[A-Z0-9][A-Z0-9_.-]*)?(?:api|access|secret|private'' @
      ''|signing|encryption|master|license|account|auth|app|session|shared|sub'' @
      ''scription|functions)[_-]?key|(?:[A-Z0-9][A-Z0-9_.-]*)?(?:access|refres'' @
      ''h|id|auth|bearer|session|api|private|personal[_-]?access|bot|oauth|sec'' @
      ''ret|app|deploy|vault|github|gitlab|slack|discord|telegram|npm|pypi|hf|'' @
      ''huggingface)[_-]?token''"

definition BARE_TOKEN_KEY_NAME :: string where
  "BARE_TOKEN_KEY_NAME =
      ''token''"

definition SECRET_KEY_LEFT_BOUNDARY :: string where
  "SECRET_KEY_LEFT_BOUNDARY =
      ''(?:^|[^A-Za-z0-9_.'' @ [CHR 0x5C] @ ''-])''"

definition CJK_SECRET_KEYWORD_FRAGMENT :: string where
  "CJK_SECRET_KEYWORD_FRAGMENT =
      [CHR 0xE5, CHR 0xAF, CHR 0x86, CHR 0xE7, CHR 0xA0, CHR 0x81] @ ''|'' @
      [CHR 0xE5, CHR 0x8F, CHR 0xA3, CHR 0xE4, CHR 0xBB, CHR 0xA4] @ ''|'' @
      [CHR 0xE4, CHR 0xBB, CHR 0xA4, CHR 0xE7, CHR 0x89, CHR 0x8C] @ ''|'' @
      [CHR 0xE5, CHR 0xAF, CHR 0x86, CHR 0xE9, CHR 0x92, CHR 0xA5] @ ''|'' @
      [CHR 0xE7, CHR 0xA7, CHR 0x98, CHR 0xE9, CHR 0x92, CHR 0xA5] @ ''|'' @
      [CHR 0xE5, CHR 0xAF, CHR 0x86, CHR 0xE5, CHR 0x8C, CHR 0x99] @ ''|'' @
      [CHR 0xE5, CHR 0x87, CHR 0xAD, CHR 0xE6, CHR 0x8D, CHR 0xAE] @ ''|'' @
      [CHR 0xE5, CHR 0x87, CHR 0xAD, CHR 0xE8, CHR 0xAF, CHR 0x81] @ ''|'' @
      [CHR 0xE7, CHR 0xA7, CHR 0x81, CHR 0xE9, CHR 0x92, CHR 0xA5] @ ''|'' @
      [CHR 0xE6, CHR 0x8E, CHR 0x88, CHR 0xE6, CHR 0x9D, CHR 0x83, CHR 0xE7, CHR 0xA0, CHR 0x81] @
      ''|'' @
      [CHR 0xE8, CHR 0xAE, CHR 0xBF, CHR 0xE9, CHR 0x97, CHR 0xAE, CHR 0xE5, CHR 0xAF, CHR 0x86, CHR 0xE9, CHR 0x92, CHR 0xA5] @
      ''|'' @
      [CHR 0xE6, CHR 0x8E, CHR 0xA5, CHR 0xE5, CHR 0x8F, CHR 0xA3, CHR 0xE5, CHR 0xAF, CHR 0x86, CHR 0xE9, CHR 0x92, CHR 0xA5]"

definition ENV_ASSIGNMENT_PATTERN :: string where
  "ENV_ASSIGNMENT_PATTERN =
      ''(?i)'' @ ''(?:'' @ [CHR 0x5C] @
      ''b[A-Z][A-Z0-9_]*(?:KEY|TOKEN|SECRET|PASSWORD|PASSWD|APIKEY|API_KEY|AUT'' @
      ''H|_PWD)'' @ [CHR 0x5C] @ ''b'' @ [CHR 0x5C] @ ''s*[=:'' @
      [CHR 0xEF, CHR 0xBC, CHR 0x9A, CHR 0xEF, CHR 0xBC, CHR 0x9D] @ '']|'' @ [CHR 0x5C] @
      ''b(?:KEY|TOKEN|SECRET|PASSWORD|PASSWD|PWD|APIKEY|API_KEY|AUTH)'' @ [CHR 0x5C] @
      ''b'' @ [CHR 0x5C] @ ''s*=)'' @ [CHR 0x5C] @ ''s*(?:['' @ [CHR 0x22, CHR 0x27] @
      ''][^'' @ [CHR 0x22, CHR 0x27, CHR 0x5C] @ ''r'' @ [CHR 0x5C] @ ''n]+['' @
      [CHR 0x22, CHR 0x27] @ '']|['' @ [CHR 0x22, CHR 0x27] @ '']?[^'' @ [CHR 0x5C] @ ''s'' @
      [CHR 0x22, CHR 0x27] @ '',;}'' @ [CHR 0x5C] @ '']]+)'' @ ''|'' @
      SECRET_KEY_LEFT_BOUNDARY @ ''(?:'' @ SECRET_KEY_NAME_FRAGMENT @ '')'' @
      [CHR 0x5C, CHR 0x5C] @ ''{0,3}['' @ [CHR 0x22, CHR 0x27] @ '']?'' @ [CHR 0x5C] @
      ''s*(?:=>|[=:'' @ [CHR 0xEF, CHR 0xBC, CHR 0x9A, CHR 0xEF, CHR 0xBC, CHR 0x9D] @
      ''])'' @ [CHR 0x5C] @ ''s*'' @ [CHR 0x5C, CHR 0x5C] @ ''{0,3}['' @
      [CHR 0x22, CHR 0x27] @ '']([^'' @ [CHR 0x22, CHR 0x27, CHR 0x5C, CHR 0x5C, CHR 0x5C] @
      ''r'' @ [CHR 0x5C] @ ''n<$%{'' @ [CHR 0x5C] @ ''x00][^'' @
      [CHR 0x22, CHR 0x27, CHR 0x5C, CHR 0x5C, CHR 0x5C] @ ''r'' @ [CHR 0x5C] @ ''n'' @
      [CHR 0x5C] @ ''x00]{5,})'' @ [CHR 0x5C, CHR 0x5C] @ ''{0,3}['' @ [CHR 0x22, CHR 0x27] @
      '']'' @ ''|'' @ SECRET_KEY_LEFT_BOUNDARY @ BARE_TOKEN_KEY_NAME @ [CHR 0x5C, CHR 0x5C] @
      ''{0,3}['' @ [CHR 0x22, CHR 0x27] @ '']?'' @ [CHR 0x5C] @ ''s*(?:=>|[=:'' @
      [CHR 0xEF, CHR 0xBC, CHR 0x9A, CHR 0xEF, CHR 0xBC, CHR 0x9D] @ ''])'' @ [CHR 0x5C] @
      ''s*'' @ [CHR 0x5C, CHR 0x5C] @ ''{0,3}['' @ [CHR 0x22, CHR 0x27] @ '']([^'' @
      [CHR 0x22, CHR 0x27, CHR 0x5C, CHR 0x5C, CHR 0x5C] @ ''r'' @ [CHR 0x5C] @ ''n<$%{'' @
      [CHR 0x5C] @ ''x00][^'' @ [CHR 0x22, CHR 0x27, CHR 0x5C, CHR 0x5C, CHR 0x5C] @ ''r'' @
      [CHR 0x5C] @ ''n'' @ [CHR 0x5C] @ ''x00]{15,})'' @ [CHR 0x5C, CHR 0x5C] @ ''{0,3}['' @
      [CHR 0x22, CHR 0x27] @ '']'' @ ''|(?:'' @ CJK_SECRET_KEYWORD_FRAGMENT @ '')['' @
      [CHR 0x22, CHR 0x27, CHR 0xE2, CHR 0x80, CHR 0x9C, CHR 0xE2, CHR 0x80, CHR 0x9D, CHR 0xE3, CHR 0x80, CHR 0x8C, CHR 0xE3, CHR 0x80, CHR 0x8D] @
      '']?'' @ [CHR 0x5C] @ ''s*[=:'' @
      [CHR 0xEF, CHR 0xBC, CHR 0x9A, CHR 0xEF, CHR 0xBC, CHR 0x9D] @ '']'' @ [CHR 0x5C] @
      ''s*['' @
      [CHR 0x22, CHR 0x27, CHR 0xE2, CHR 0x80, CHR 0x9C, CHR 0xE2, CHR 0x80, CHR 0x9D, CHR 0xE3, CHR 0x80, CHR 0x8C, CHR 0xE3, CHR 0x80, CHR 0x8D] @
      '']?([A-Za-z0-9][A-Za-z0-9!@#$%^&*_~+/.='' @ [CHR 0x5C] @ ''-]{5,})'' @ ''|(?:'' @
      CJK_SECRET_KEYWORD_FRAGMENT @ '')'' @ [CHR 0x5C] @ ''s*(?:'' @
      [CHR 0xE6, CHR 0x98, CHR 0xAF] @ ''|'' @ [CHR 0xE4, CHR 0xB8, CHR 0xBA] @ '')'' @
      [CHR 0x5C] @ ''s*['' @
      [CHR 0x22, CHR 0x27, CHR 0xE2, CHR 0x80, CHR 0x9C, CHR 0xE2, CHR 0x80, CHR 0x9D, CHR 0xE3, CHR 0x80, CHR 0x8C, CHR 0xE3, CHR 0x80, CHR 0x8D] @
      '']?([0-9!@#$%^&*][A-Za-z0-9!@#$%^&*_~+/.='' @ [CHR 0x5C] @ ''-]{5,})''"

definition ALL_RULES :: "rule list" where
  "ALL_RULES =
     [\<lparr>rule_name = ''aws_access_key_id'', rule_pattern =
         [CHR 0x5C] @ ''b(AKIA|ASIA)[0-9A-Z]{16}'' @ [CHR 0x5C] @ ''b''\<rparr>,
      \<lparr>rule_name = ''github_token'', rule_pattern =
         GITHUB_TOKEN_PATTERN\<rparr>,
      \<lparr>rule_name = ''anthropic_api_key'', rule_pattern =
         [CHR 0x5C] @ ''bsk-ant-[A-Za-z0-9_'' @ [CHR 0x5C] @ ''-]{20,}'' @ [CHR 0x5C] @ ''b''\<rparr>,
      \<lparr>rule_name = ''openai_api_key'', rule_pattern =
         [CHR 0x5C] @ ''bsk-[A-Za-z0-9_'' @ [CHR 0x5C] @ ''-]{20,}'' @ [CHR 0x5C] @ ''b''\<rparr>,
      \<lparr>rule_name = ''env_assignment'', rule_pattern =
         ENV_ASSIGNMENT_PATTERN\<rparr>,
      \<lparr>rule_name = ''jwt'', rule_pattern =
         [CHR 0x5C] @ ''bey[A-Za-z0-9_'' @ [CHR 0x5C] @ ''-]{10,}'' @ [CHR 0x5C] @
         ''.[A-Za-z0-9_'' @ [CHR 0x5C] @ ''-]{10,}'' @ [CHR 0x5C] @ ''.[A-Za-z0-9_'' @
         [CHR 0x5C] @ ''-]{10,}'' @ [CHR 0x5C] @ ''b''\<rparr>,
      \<lparr>rule_name = ''email'', rule_pattern =
         [CHR 0x5C] @ ''b[A-Za-z0-9._%+'' @ [CHR 0x5C] @ ''-]+@[A-Za-z0-9.'' @ [CHR 0x5C] @
         ''-]+'' @ [CHR 0x5C] @ ''.[A-Za-z]{2,}'' @ [CHR 0x5C] @ ''b''\<rparr>,
      \<lparr>rule_name = ''internal_ipv4'', rule_pattern =
         [CHR 0x5C] @ ''b(10'' @ [CHR 0x5C] @ ''.'' @ [CHR 0x5C] @ ''d{1,3}'' @ [CHR 0x5C] @
         ''.'' @ [CHR 0x5C] @ ''d{1,3}'' @ [CHR 0x5C] @ ''.'' @ [CHR 0x5C] @ ''d{1,3}|172'' @
         [CHR 0x5C] @ ''.(1[6-9]|2'' @ [CHR 0x5C] @ ''d|3[0-1])'' @ [CHR 0x5C] @ ''.'' @
         [CHR 0x5C] @ ''d{1,3}'' @ [CHR 0x5C] @ ''.'' @ [CHR 0x5C] @ ''d{1,3}|192'' @
         [CHR 0x5C] @ ''.168'' @ [CHR 0x5C] @ ''.'' @ [CHR 0x5C] @ ''d{1,3}'' @ [CHR 0x5C] @
         ''.'' @ [CHR 0x5C] @ ''d{1,3}|127'' @ [CHR 0x5C] @ ''.'' @ [CHR 0x5C] @ ''d{1,3}'' @
         [CHR 0x5C] @ ''.'' @ [CHR 0x5C] @ ''d{1,3}'' @ [CHR 0x5C] @ ''.'' @ [CHR 0x5C] @
         ''d{1,3})'' @ [CHR 0x5C] @ ''b''\<rparr>,
      \<lparr>rule_name = ''slack_webhook'', rule_pattern =
         [CHR 0x5C] @ ''bhttps://hooks'' @ [CHR 0x5C] @ ''.slack'' @ [CHR 0x5C] @
         ''.com/services/T[A-Z0-9]{8,12}/B[A-Z0-9]{8,12}/[A-Za-z0-9]{20,}'' @ [CHR 0x5C] @
         ''b''\<rparr>,
      \<lparr>rule_name = ''stripe_secret_key'', rule_pattern =
         [CHR 0x5C] @ ''bsk_(live|test)_[A-Za-z0-9]{24,}'' @ [CHR 0x5C] @ ''b''\<rparr>,
      \<lparr>rule_name = ''google_api_key'', rule_pattern =
         [CHR 0x5C] @ ''bAIza[A-Za-z0-9_'' @ [CHR 0x5C] @ ''-]{35}'' @ [CHR 0x5C] @ ''b''\<rparr>,
      \<lparr>rule_name = ''gitlab_pat'', rule_pattern =
         [CHR 0x5C] @ ''bglpat-[A-Za-z0-9_'' @ [CHR 0x5C] @ ''-]{20,}'' @ [CHR 0x5C] @ ''b''\<rparr>,
      \<lparr>rule_name = ''database_url'', rule_pattern =
         [CHR 0x5C] @ ''b(postgresql|postgres|mysql|mongodb'' @ [CHR 0x5C] @
         ''+srv|mongodb|rediss|redis|amqps|amqp)://[^:/'' @ [CHR 0x5C] @ ''s@]+:[^@/'' @
         [CHR 0x5C] @ ''s]+@[A-Za-z0-9.'' @ [CHR 0x5C] @ ''-]+(:'' @ [CHR 0x5C] @
         ''d+)?(/[^'' @ [CHR 0x5C] @ ''s]*)?''\<rparr>,
      \<lparr>rule_name = ''aliyun_access_key_id'', rule_pattern =
         [CHR 0x5C] @ ''bLTAI[A-Za-z0-9]{12,20}'' @ [CHR 0x5C] @ ''b''\<rparr>,
      \<lparr>rule_name = ''tencent_secret_id'', rule_pattern =
         [CHR 0x5C] @ ''bAKID[A-Za-z0-9]{32}'' @ [CHR 0x5C] @ ''b''\<rparr>,
      \<lparr>rule_name = ''slack_token'', rule_pattern =
         [CHR 0x5C] @ ''bxox[baprs]-[0-9A-Za-z-]{10,255}'' @ [CHR 0x5C] @ ''b''\<rparr>,
      \<lparr>rule_name = ''huggingface_token'', rule_pattern =
         [CHR 0x5C] @ ''bhf_[A-Za-z0-9]{30,64}'' @ [CHR 0x5C] @ ''b''\<rparr>,
      \<lparr>rule_name = ''generic_url'', rule_pattern =
         [CHR 0x5C] @ ''bhttps?://[^'' @ [CHR 0x5C] @ ''s<>'' @ [CHR 0x22, CHR 0x27] @ '']+''\<rparr>]"

definition HARD_RULES :: "rule list" where
  "HARD_RULES =
     [\<lparr>rule_name = ''aws_access_key_id'', rule_pattern =
         [CHR 0x5C] @ ''b(AKIA|ASIA)[0-9A-Z]{16}'' @ [CHR 0x5C] @ ''b''\<rparr>,
      \<lparr>rule_name = ''github_token'', rule_pattern =
         GITHUB_TOKEN_PATTERN\<rparr>,
      \<lparr>rule_name = ''anthropic_api_key'', rule_pattern =
         [CHR 0x5C] @ ''bsk-ant-[A-Za-z0-9_'' @ [CHR 0x5C] @ ''-]{20,}'' @ [CHR 0x5C] @ ''b''\<rparr>,
      \<lparr>rule_name = ''openai_api_key'', rule_pattern =
         [CHR 0x5C] @ ''bsk-[A-Za-z0-9_'' @ [CHR 0x5C] @ ''-]{20,}'' @ [CHR 0x5C] @ ''b''\<rparr>,
      \<lparr>rule_name = ''pem_private_key'', rule_pattern =
         ''-----BEGIN [A-Z ]*PRIVATE KEY-----''\<rparr>,
      \<lparr>rule_name = ''jwt'', rule_pattern =
         [CHR 0x5C] @ ''bey[A-Za-z0-9_'' @ [CHR 0x5C] @ ''-]{10,}'' @ [CHR 0x5C] @
         ''.[A-Za-z0-9_'' @ [CHR 0x5C] @ ''-]{10,}'' @ [CHR 0x5C] @ ''.[A-Za-z0-9_'' @
         [CHR 0x5C] @ ''-]{10,}'' @ [CHR 0x5C] @ ''b''\<rparr>,
      \<lparr>rule_name = ''env_assignment'', rule_pattern =
         ENV_ASSIGNMENT_PATTERN\<rparr>,
      \<lparr>rule_name = ''slack_webhook'', rule_pattern =
         [CHR 0x5C] @ ''bhttps://hooks'' @ [CHR 0x5C] @ ''.slack'' @ [CHR 0x5C] @
         ''.com/services/T[A-Z0-9]{8,12}/B[A-Z0-9]{8,12}/[A-Za-z0-9]{20,}'' @ [CHR 0x5C] @
         ''b''\<rparr>,
      \<lparr>rule_name = ''stripe_secret_key'', rule_pattern =
         [CHR 0x5C] @ ''bsk_(live|test)_[A-Za-z0-9]{24,}'' @ [CHR 0x5C] @ ''b''\<rparr>,
      \<lparr>rule_name = ''google_api_key'', rule_pattern =
         [CHR 0x5C] @ ''bAIza[A-Za-z0-9_'' @ [CHR 0x5C] @ ''-]{35}'' @ [CHR 0x5C] @ ''b''\<rparr>,
      \<lparr>rule_name = ''gitlab_pat'', rule_pattern =
         [CHR 0x5C] @ ''bglpat-[A-Za-z0-9_'' @ [CHR 0x5C] @ ''-]{20,}'' @ [CHR 0x5C] @ ''b''\<rparr>,
      \<lparr>rule_name = ''database_url'', rule_pattern =
         [CHR 0x5C] @ ''b(postgresql|postgres|mysql|mongodb'' @ [CHR 0x5C] @
         ''+srv|mongodb|rediss|redis|amqps|amqp)://[^:/'' @ [CHR 0x5C] @ ''s@]+:[^@/'' @
         [CHR 0x5C] @ ''s]+@[A-Za-z0-9.'' @ [CHR 0x5C] @ ''-]+(:'' @ [CHR 0x5C] @
         ''d+)?(/[^'' @ [CHR 0x5C] @ ''s]*)?''\<rparr>,
      \<lparr>rule_name = ''aliyun_access_key_id'', rule_pattern =
         [CHR 0x5C] @ ''bLTAI[A-Za-z0-9]{12,20}'' @ [CHR 0x5C] @ ''b''\<rparr>,
      \<lparr>rule_name = ''tencent_secret_id'', rule_pattern =
         [CHR 0x5C] @ ''bAKID[A-Za-z0-9]{32}'' @ [CHR 0x5C] @ ''b''\<rparr>,
      \<lparr>rule_name = ''slack_token'', rule_pattern =
         [CHR 0x5C] @ ''bxox[baprs]-[0-9A-Za-z-]{10,255}'' @ [CHR 0x5C] @ ''b''\<rparr>,
      \<lparr>rule_name = ''huggingface_token'', rule_pattern =
         [CHR 0x5C] @ ''bhf_[A-Za-z0-9]{30,64}'' @ [CHR 0x5C] @ ''b''\<rparr>]"

definition PEM_RE :: string where
  "PEM_RE =
      ''-----BEGIN [A-Z ]*PRIVATE KEY-----''"

definition KNOWN_REDACTED_MARKER :: string where
  "KNOWN_REDACTED_MARKER =
      [CHR 0x5C] @ ''[REDACTED (?:len='' @ [CHR 0x5C] @ ''d+ by_key=[A-Za-z0-9_'' @
      [CHR 0x5C] @ ''-]+|[a-z_]+)'' @ [CHR 0x5C] @ '']''"

definition KEY_HINT :: string where
  "KEY_HINT =
      ''(?i)(secret|token|password|api[_'' @ [CHR 0x5C] @ ''-]?key|auth)''"

definition BASE64_RUN :: string where
  "BASE64_RUN =
      ''[A-Za-z0-9+/_'' @ [CHR 0x5C] @ ''-]{40,}={0,2}''"

text \<open>The capture groups of \<open>env_assignment\<close> that hold only the value.\<close>

definition ENV_ASSIGNMENT_VALUE_GROUPS :: "nat list" where
  "ENV_ASSIGNMENT_VALUE_GROUPS = [1, 2, 3, 4]"

definition rule_value_groups :: "string \<Rightarrow> nat list" where
  "rule_value_groups name =
     (if name = ''env_assignment'' then ENV_ASSIGNMENT_VALUE_GROUPS else [])"

section \<open>Lemmas\<close>

text \<open>Rule names are unique within a table, and every hard rule but the PEM one also scrubs.\<close>

lemma rule_names_distinct:
  "distinct (map rule_name ALL_RULES)" "distinct (map rule_name HARD_RULES)"
  by code_simp+

lemma hard_rules_scrubbed:
  "list_all (\<lambda>r. rule_pattern r = PEM_RE \<or> list_ex ((=) r) ALL_RULES) HARD_RULES"
  by code_simp

end
