(* ===== verification/Approvals.thy ===== *)
theory Approvals
  imports Ledger
begin

text \<open>
  The approval queue (crate \<open>vigil-audit\<close>, \<open>approvals.rs\<close>): the typed audit records, the
  creation of a pending approval, its resolution by a user or by expiry, the session-scope lookup
  and the wait for a resolution. The table \<open>approvals\<close> and the in-process resolution slots
  extend the ledger.

  An operation that touches the table and then appends an event takes two environments, one
  for each database call. Rows without an \<open>ORDER BY\<close> are visited in table order. The plain reads
  (\<open>get_approval\<close>, \<open>list_pending_approvals\<close>) are those of a database that answers; what they
  return for a row they cannot decode is modelled. Every look of a wait has its own environment and
  may fail.
\<close>

section \<open>Definitions\<close>

subsection \<open>Serialised names\<close>

text \<open>The derived \<open>Serialize\<close> of the enums: the variant name.\<close>

fun decision_kind_str :: "decision_kind \<Rightarrow> string" where
  "decision_kind_str DK_Allow = ''Allow''"
| "decision_kind_str DK_Deny = ''Deny''"
| "decision_kind_str DK_Approve = ''Approve''"

fun effect_kind_str :: "effect_kind \<Rightarrow> string" where
  "effect_kind_str FsRead = ''FsRead''"
| "effect_kind_str FsWrite = ''FsWrite''"
| "effect_kind_str DbRead = ''DbRead''"
| "effect_kind_str DbWrite = ''DbWrite''"
| "effect_kind_str NetOutbound = ''NetOutbound''"
| "effect_kind_str ExecWasm = ''ExecWasm''"
| "effect_kind_str ExecNative = ''ExecNative''"
| "effect_kind_str SecretUse = ''SecretUse''"
| "effect_kind_str BrowserSubmit = ''BrowserSubmit''"
| "effect_kind_str CommSend = ''CommSend''"
| "effect_kind_str CredentialExchange = ''CredentialExchange''"

fun status_str :: "approval_status \<Rightarrow> string" where
  "status_str AS_Pending = ''Pending''"
| "status_str AS_Approved = ''Approved''"
| "status_str AS_Denied = ''Denied''"
| "status_str AS_Expired = ''Expired''"
| "status_str AS_Cancelled = ''Cancelled''"

definition parse_status :: "string \<Rightarrow> approval_status audit_result" where
  "parse_status s =
     (if s = ''Pending'' then Inr AS_Pending
      else if s = ''Approved'' then Inr AS_Approved
      else if s = ''Denied'' then Inr AS_Denied
      else if s = ''Expired'' then Inr AS_Expired
      else if s = ''Cancelled'' then Inr AS_Cancelled
      else Inl (InvalidInput ''approvals.status contains unknown variant''))"

fun scope_to_str :: "approval_scope \<Rightarrow> string" where
  "scope_to_str Once = ''Once''"
| "scope_to_str ThisSession = ''ThisSession''"
| "scope_to_str ForToolWithSameArgsHash = ''ForToolWithSameArgsHash''"
| "scope_to_str ForPolicyTemplate = ''ForPolicyTemplate''"

definition parse_scope :: "string \<Rightarrow> approval_scope option" where
  "parse_scope s =
     (if s = ''Once'' then Some Once
      else if s = ''ThisSession'' then Some ThisSession
      else if s = ''ForToolWithSameArgsHash'' then Some ForToolWithSameArgsHash
      else if s = ''ForPolicyTemplate'' then Some ForPolicyTemplate
      else None)"

definition show_int :: "int \<Rightarrow> string" where
  "show_int i = (if i < 0 then ''-'' @ show_nat (nat (- i)) else show_nat (nat i))"

definition j_strs :: "string list \<Rightarrow> json" where
  "j_strs ss = JArray (map JString ss)"

definition j_opt :: "('a \<Rightarrow> json) \<Rightarrow> 'a option \<Rightarrow> json" where
  "j_opt f v = (case v of None \<Rightarrow> JNull | Some a \<Rightarrow> f a)"

subsection \<open>Typed audit records\<close>

definition redact_free_text :: "ledger_externs \<Rightarrow> string list \<Rightarrow> string list" where
  "redact_free_text x parts =
     (case fst (redact (lx_redact x) (j_strs parts)) of
        JArray arr \<Rightarrow> map (\<lambda>v. case json_as_str v of Some s \<Rightarrow> s | None \<Rightarrow> []) arr
      | _ \<Rightarrow> parts)"

definition record_decision ::
  "ledger_externs \<Rightarrow> call_env \<Rightarrow> string \<Rightarrow> decision_record \<Rightarrow> effect_vector \<Rightarrow> 'z ledger_scheme
   \<Rightarrow> appended_event audit_result \<times> 'z ledger_scheme" where
  "record_decision x env sid d effects l =
     (let payload = JObject
            [(''decision_id'', JString (dr_decision_id d)),
             (''invocation_id'', JString (dr_invocation_id d)),
             (''decision'', JString (decision_kind_str (dr_decision d))),
             (''risk_score'', JNumber (show_nat (unat (dr_risk_score d)))),
             (''reasons'', j_strs (redact_free_text x (dr_reasons d))),
             (''policy_ids'', j_strs (dr_policy_ids d)),
             (''effects'', j_strs (map effect_kind_str (ev_effects effects))),
             (''destructive'', JBool (ev_destructive effects)),
             (''reversible'', JBool (ev_reversible effects))];
          fts = ''decision_id:'' @ dr_decision_id d @ '' invocation_id:'' @ dr_invocation_id d @
                '' risk:'' @ show_nat (unat (dr_risk_score d))
      in append_event_internal x env sid ''decision.recorded'' payload (Some fts) l)"

definition nth_or_default :: "string list \<Rightarrow> nat \<Rightarrow> string" where
  "nth_or_default xs i = (if i < length xs then xs ! i else [])"

definition record_approval_created ::
  "ledger_externs \<Rightarrow> call_env \<Rightarrow> approval_request \<Rightarrow> 'z ledger_scheme
   \<Rightarrow> appended_event audit_result \<times> 'z ledger_scheme" where
  "record_approval_created x env req l =
     (let redacted = redact_free_text x [ar_title req, ar_summary req];
          red_title = nth_or_default redacted 0;
          red_summary = nth_or_default redacted 1;
          payload = JObject
            [(''approval_id'', JString (ar_approval_id req)),
             (''decision_id'', JString (ar_decision_id req)),
             (''title'', JString red_title),
             (''summary'', JString red_summary),
             (''effects'', j_strs (map effect_kind_str (ev_effects (ar_effect_vector req)))),
             (''expires_at'', JNumber (show_int (ar_expires_at req))),
             (''status'', JString (status_str (ar_status req)))];
          fts = ''approval_id:'' @ ar_approval_id req @ '' decision_id:'' @ ar_decision_id req @
                '' '' @ red_summary
      in append_event_internal x env (ar_session_id req) ''approval.created'' payload (Some fts) l)"

definition record_approval_resolved ::
  "ledger_externs \<Rightarrow> call_env \<Rightarrow> approval_request \<Rightarrow> approval_resolution \<Rightarrow> 'z ledger_scheme
   \<Rightarrow> appended_event audit_result \<times> 'z ledger_scheme" where
  "record_approval_resolved x env req r l =
     (let payload = JObject
            [(''approval_id'', JString (res_approval_id r)),
             (''status'', JString (status_str (res_status r))),
             (''scope'', j_opt (\<lambda>s. JString (scope_to_str s)) (res_scope r)),
             (''resolved_by'', j_opt JString (res_resolved_by r)),
             (''resolved_at'', JNumber (show_int (res_resolved_at r)))];
          fts = ''approval_id:'' @ res_approval_id r @ '' resolved:'' @ status_str (res_status r)
      in append_event_internal x env (ar_session_id req) ''approval.resolved'' payload (Some fts) l)"

definition record_lease_minted ::
  "ledger_externs \<Rightarrow> call_env \<Rightarrow> string \<Rightarrow> string \<Rightarrow> string \<Rightarrow> string \<Rightarrow> string \<Rightarrow> int \<Rightarrow> 'z ledger_scheme
   \<Rightarrow> appended_event audit_result \<times> 'z ledger_scheme" where
  "record_lease_minted x env sid lease_id secret_ref server_id tool_name expires_at l =
     (let payload = JObject
            [(''lease_id'', JString lease_id), (''secret_ref'', JString secret_ref),
             (''server_id'', JString server_id), (''tool_name'', JString tool_name),
             (''expires_at'', JNumber (show_int expires_at))];
          fts = ''lease_id:'' @ lease_id @ '' secret_ref:'' @ secret_ref @ '' server:'' @ server_id @
                '' tool:'' @ tool_name
      in append_event_internal x env sid ''lease.minted'' payload (Some fts) l)"

definition record_lease_revoked ::
  "ledger_externs \<Rightarrow> call_env \<Rightarrow> string \<Rightarrow> string \<Rightarrow> string \<Rightarrow> 'z ledger_scheme
   \<Rightarrow> appended_event audit_result \<times> 'z ledger_scheme" where
  "record_lease_revoked x env sid lease_id reason l =
     append_event_internal x env sid ''lease.revoked''
       (JObject [(''lease_id'', JString lease_id), (''reason'', JString reason)])
       (Some (''lease_id:'' @ lease_id @ '' reason:'' @ reason)) l"

record engine_degraded_payload =
  ed_engine_id :: string
  ed_status :: string
  ed_reason_code :: string
  ed_budget_ms :: "nat option"
  ed_elapsed_ms :: "nat option"
  ed_fail_closed_decision :: string
  ed_decision_id :: string

definition opt_member :: "string \<Rightarrow> nat option \<Rightarrow> (string \<times> json) list" where
  "opt_member k v = (case v of None \<Rightarrow> [] | Some n \<Rightarrow> [(k, JNumber (show_nat n))])"

definition record_engine_degraded ::
  "ledger_externs \<Rightarrow> call_env \<Rightarrow> string \<Rightarrow> engine_degraded_payload \<Rightarrow> 'z ledger_scheme
   \<Rightarrow> appended_event audit_result \<times> 'z ledger_scheme" where
  "record_engine_degraded x env sid p l =
     append_event_internal x env sid ''engine.degraded''
       (JObject
         ([(''engine_id'', JString (ed_engine_id p)), (''status'', JString (ed_status p)),
           (''reason_code'', JString (ed_reason_code p))] @
          opt_member ''budget_ms'' (ed_budget_ms p) @ opt_member ''elapsed_ms'' (ed_elapsed_ms p) @
          [(''fail_closed_decision'', JString (ed_fail_closed_decision p)),
           (''decision_id'', JString (ed_decision_id p))]))
       (Some (''engine_id:'' @ ed_engine_id p @ '' status:'' @ ed_status p @ '' decision_id:'' @
              ed_decision_id p @ '' reason:'' @ ed_reason_code p)) l"

subsection \<open>The approvals table\<close>

record approval_row =
  a_approval_id :: string
  a_decision_id :: string
  a_invocation_id :: string
  a_session_id :: string
  a_title :: string
  a_summary :: string
  a_effect_json :: string
  a_status :: string
  a_scope :: "string option"
  a_args_hash :: "string option"
  a_server_id :: "string option"
  a_tool_name :: "string option"
  a_expires_at :: int
  a_created_at :: int
  a_resolved_at :: "int option"
  a_resolved_by :: "string option"

text \<open>\<open>led_slots\<close> is the \<open>ApprovalBroker\<close>: the published resolutions of this process.\<close>

record approval_db = ledger +
  led_approvals :: "approval_row list"
  led_slots :: "(string \<times> approval_resolution) list"

record approval_target_context =
  tc_server_id :: "string option"
  tc_tool_name :: "string option"
  tc_args_hash :: "string option"

definition i64_max :: int where
  "i64_max = 2 ^ 63 - 1"

text \<open>\<open>created_at.saturating_add(ttl_secs.min(i64::MAX as u64) as i64)\<close>.\<close>

definition approval_expiry :: "int \<Rightarrow> u64 \<Rightarrow> int" where
  "approval_expiry created_at ttl_secs = min i64_max (created_at + min (uint ttl_secs) i64_max)"

definition create_approval ::
  "ledger_externs \<Rightarrow> call_env \<Rightarrow> call_env \<Rightarrow> string \<Rightarrow> decision_record \<Rightarrow> effect_vector \<Rightarrow> string
   \<Rightarrow> string \<Rightarrow> u64 \<Rightarrow> approval_target_context \<Rightarrow> 'z approval_db_scheme
   \<Rightarrow> approval_request audit_result \<times> 'z approval_db_scheme" where
  "create_approval x env env2 sid d effects title summary ttl_secs ctx l =
     (let expires_at = approval_expiry (ce_now env) ttl_secs in
      case lx_effects_to_string x effects of None \<Rightarrow> (Inl Json, l) | Some effect_json \<Rightarrow>
      if ce_lock_poisoned env then (Inl LockPoisoned, l)
      else if ce_exec_fault env \<or> ce_uuid env \<in> set (map a_approval_id (led_approvals l)) then
        (Inl Sqlite, l)
      else
        let row = \<lparr>a_approval_id = ce_uuid env, a_decision_id = dr_decision_id d,
                   a_invocation_id = dr_invocation_id d, a_session_id = sid,
                   a_title = scrub_text (lx_redact x) title,
                   a_summary = scrub_text (lx_redact x) summary,
                   a_effect_json = scrub_text (lx_redact x) effect_json,
                   a_status = ''Pending'', a_scope = None, a_args_hash = tc_args_hash ctx,
                   a_server_id = tc_server_id ctx, a_tool_name = tc_tool_name ctx,
                   a_expires_at = expires_at, a_created_at = ce_now env, a_resolved_at = None,
                   a_resolved_by = None\<rparr>;
            l1 = l\<lparr>led_approvals := led_approvals l @ [row]\<rparr>;
            req = \<lparr>ar_approval_id = ce_uuid env, ar_decision_id = dr_decision_id d,
                   ar_invocation_id = dr_invocation_id d, ar_session_id = sid, ar_title = title,
                   ar_summary = summary, ar_effect_vector = effects, ar_expires_at = expires_at,
                   ar_status = AS_Pending\<rparr>
        in (case record_approval_created x env2 req l1 of
              (Inl e, l2) \<Rightarrow> (Inl e, l2)
            | (Inr _, l2) \<Rightarrow> (Inr req, l2)))"

text \<open>The column values of a row as a request; the derived reader may refuse the effects.\<close>

definition row_request :: "ledger_externs \<Rightarrow> approval_row \<Rightarrow> approval_request audit_result" where
  "row_request x r =
     (case lx_effects_from_str x (a_effect_json r) of None \<Rightarrow> Inl Json | Some effects \<Rightarrow>
      case parse_status (a_status r) of Inl e \<Rightarrow> Inl e | Inr status \<Rightarrow>
        Inr \<lparr>ar_approval_id = a_approval_id r, ar_decision_id = a_decision_id r,
             ar_invocation_id = a_invocation_id r, ar_session_id = a_session_id r,
             ar_title = a_title r, ar_summary = a_summary r, ar_effect_vector = effects,
             ar_expires_at = a_expires_at r, ar_status = status\<rparr>)"

definition find_approval :: "string \<Rightarrow> 'z approval_db_scheme \<Rightarrow> approval_row option" where
  "find_approval aid l = find (\<lambda>r. a_approval_id r = aid) (led_approvals l)"

definition get_approval ::
  "ledger_externs \<Rightarrow> string \<Rightarrow> 'z approval_db_scheme \<Rightarrow> approval_request option audit_result" where
  "get_approval x aid l =
     (case find_approval aid l of
        None \<Rightarrow> Inr None
      | Some r \<Rightarrow> (case row_request x r of Inl e \<Rightarrow> Inl e | Inr req \<Rightarrow> Inr (Some req)))"

fun requests_of :: "ledger_externs \<Rightarrow> approval_row list \<Rightarrow> approval_request list audit_result" where
  "requests_of x [] = Inr []"
| "requests_of x (r # rs) =
     (case row_request x r of Inl e \<Rightarrow> Inl e | Inr req \<Rightarrow>
      case requests_of x rs of Inl e \<Rightarrow> Inl e | Inr reqs \<Rightarrow> Inr (req # reqs))"

definition list_pending_approvals ::
  "ledger_externs \<Rightarrow> string option \<Rightarrow> 'z approval_db_scheme \<Rightarrow> approval_request list audit_result" where
  "list_pending_approvals x sid l =
     requests_of x (sort_key a_created_at
       (filter (\<lambda>r. a_status r = ''Pending'' \<and>
                  (case sid of None \<Rightarrow> True | Some s \<Rightarrow> a_session_id r = s)) (led_approvals l)))"

subsection \<open>Resolution\<close>

definition is_pending :: "string \<Rightarrow> approval_row \<Rightarrow> bool" where
  "is_pending aid r \<longleftrightarrow> a_approval_id r = aid \<and> a_status r = ''Pending''"

definition resolve_row ::
  "approval_status \<Rightarrow> approval_scope option \<Rightarrow> string option \<Rightarrow> int \<Rightarrow> approval_row \<Rightarrow> approval_row" where
  "resolve_row target scope by now r =
     r\<lparr>a_status := status_str target, a_resolved_at := Some now, a_resolved_by := by,
       a_scope := (if target = AS_Approved then map_option scope_to_str scope else None)\<rparr>"

definition read_persisted_resolution_meta ::
  "string \<Rightarrow> 'z approval_db_scheme \<Rightarrow> string option \<times> int" where
  "read_persisted_resolution_meta aid l =
     (case find_approval aid l of
        None \<Rightarrow> (None, 0)
      | Some r \<Rightarrow> (a_resolved_by r, case a_resolved_at r of None \<Rightarrow> 0 | Some t \<Rightarrow> t))"

definition publish ::
  "string \<Rightarrow> approval_resolution \<Rightarrow> 'z approval_db_scheme \<Rightarrow> 'z approval_db_scheme" where
  "publish aid r l = l\<lparr>led_slots := AList.update aid r (led_slots l)\<rparr>"

definition resolve ::
  "ledger_externs \<Rightarrow> call_env \<Rightarrow> call_env \<Rightarrow> string \<Rightarrow> approval_status \<Rightarrow> approval_scope option
   \<Rightarrow> string option \<Rightarrow> 'z approval_db_scheme \<Rightarrow> approval_resolution audit_result \<times> 'z approval_db_scheme"
  where
  "resolve x env env2 aid target scope by l =
     (if ce_lock_poisoned env then (Inl LockPoisoned, l)
      else if ce_exec_fault env then (Inl Sqlite, l)
      else
        let updated = list_ex (is_pending aid) (led_approvals l);
            l1 = l\<lparr>led_approvals := map (\<lambda>r. if is_pending aid r
                     then resolve_row target scope by (ce_now env) r else r) (led_approvals l)\<rparr>
        in
        case get_approval x aid l1 of
          Inl e \<Rightarrow> (Inl e, l1)
        | Inr None \<Rightarrow> (Inl (InvalidInput ''approval not found''), l1)
        | Inr (Some req) \<Rightarrow>
            let effective_scope = (if updated \<and> ar_status req = AS_Approved then scope else None);
                (resolver, at) = (if updated then (by, ce_now env)
                                  else read_persisted_resolution_meta aid l1);
                resolution = \<lparr>res_approval_id = aid, res_invocation_id = ar_invocation_id req,
                              res_status = ar_status req, res_scope = effective_scope,
                              res_resolved_by = resolver, res_resolved_at = at\<rparr>
            in
            if updated then
              (case record_approval_resolved x env2 req resolution l1 of
                 (Inl e, l2) \<Rightarrow> (Inl e, l2)
               | (Inr _, l2) \<Rightarrow> (Inr resolution, publish aid resolution l2))
            else (Inr resolution, l1))"

definition approve ::
  "ledger_externs \<Rightarrow> call_env \<Rightarrow> call_env \<Rightarrow> string \<Rightarrow> approval_scope \<Rightarrow> string option
   \<Rightarrow> 'z approval_db_scheme \<Rightarrow> approval_resolution audit_result \<times> 'z approval_db_scheme" where
  "approve x env env2 aid scope by l = resolve x env env2 aid AS_Approved (Some scope) by l"

definition cancel ::
  "ledger_externs \<Rightarrow> call_env \<Rightarrow> call_env \<Rightarrow> string \<Rightarrow> string option
   \<Rightarrow> 'z approval_db_scheme \<Rightarrow> approval_resolution audit_result \<times> 'z approval_db_scheme" where
  "cancel x env env2 aid by l = resolve x env env2 aid AS_Cancelled None by l"

text \<open>\<open>env3\<close> is the environment of the optional note.\<close>

definition deny ::
  "ledger_externs \<Rightarrow> call_env \<Rightarrow> call_env \<Rightarrow> call_env \<Rightarrow> string \<Rightarrow> string option \<Rightarrow> string option
   \<Rightarrow> 'z approval_db_scheme \<Rightarrow> approval_resolution audit_result \<times> 'z approval_db_scheme" where
  "deny x env env2 env3 aid reason by l =
     (case resolve x env env2 aid AS_Denied None by l of
        (Inl e, l1) \<Rightarrow> (Inl e, l1)
      | (Inr res, l1) \<Rightarrow>
          (case reason of
             None \<Rightarrow> (Inr res, l1)
           | Some reason_text \<Rightarrow>
               (case get_approval x aid l1 of
                  Inl e \<Rightarrow> (Inl e, l1)
                | Inr None \<Rightarrow> (Inl (InvalidInput ''approval disappeared after deny''), l1)
                | Inr (Some req) \<Rightarrow>
                    let red_r = nth_or_default (redact_free_text x [reason_text]) 0 in
                    (case append_event_internal x env3 (ar_session_id req) ''approval.note''
                            (JObject [(''approval_id'', JString aid), (''reason'', JString red_r)])
                            (Some red_r) l1 of
                       (Inl e, l2) \<Rightarrow> (Inl e, l2)
                     | (Inr _, l2) \<Rightarrow> (Inr res, l2)))))"

text \<open>
  \<open>ORDER BY resolved_at DESC LIMIT 1\<close> leaves the choice among equal times open: \<open>tie\<close>
  selects one of them.
\<close>

definition scope_rows ::
  "int \<Rightarrow> string \<Rightarrow> string \<Rightarrow> string \<Rightarrow> string \<Rightarrow> 'z approval_db_scheme \<Rightarrow> approval_row list" where
  "scope_rows now sid server tool args_hash l =
     filter (\<lambda>r. a_session_id r = sid \<and> a_server_id r = Some server \<and> a_tool_name r = Some tool \<and>
                 a_args_hash r = Some args_hash \<and> a_scope r = Some ''ThisSession'' \<and>
                 a_status r = ''Approved'' \<and> a_expires_at r > now) (led_approvals l)"

text \<open>\<open>NULL\<close> sorts below every integer.\<close>

definition resolved_key :: "approval_row \<Rightarrow> nat \<times> int" where
  "resolved_key r = (case a_resolved_at r of None \<Rightarrow> (0, 0) | Some t \<Rightarrow> (1, t))"

definition find_session_scope_allow ::
  "call_env \<Rightarrow> nat \<Rightarrow> string \<Rightarrow> string \<Rightarrow> string \<Rightarrow> string \<Rightarrow> 'z approval_db_scheme
   \<Rightarrow> approval_resolution option audit_result" where
  "find_session_scope_allow env tie sid server tool args_hash l =
     (if ce_lock_poisoned env then Inl LockPoisoned
      else if ce_exec_fault env then Inl Sqlite
      else
        let rows = scope_rows (ce_now env) sid server tool args_hash l;
            top = filter (\<lambda>r. list_all (\<lambda>q. resolved_key q \<le> resolved_key r) rows) rows
        in if top = [] then Inr None
           else
             let r = top ! (tie mod length top) in
             Inr (Some \<lparr>res_approval_id = a_approval_id r, res_invocation_id = a_invocation_id r,
                        res_status = AS_Approved, res_scope = Some ThisSession,
                        res_resolved_by = a_resolved_by r,
                        res_resolved_at = (case a_resolved_at r of None \<Rightarrow> ce_now env | Some t \<Rightarrow> t)\<rparr>))"

fun sweep_ids ::
  "ledger_externs \<Rightarrow> (call_env \<times> call_env) list \<Rightarrow> string list \<Rightarrow> 'z approval_db_scheme
   \<Rightarrow> approval_resolution list audit_result \<times> 'z approval_db_scheme" where
  "sweep_ids x envs [] l = (Inr [], l)"
| "sweep_ids x [] (aid # ids) l = (Inl Sqlite, l)"
| "sweep_ids x ((env, env2) # envs) (aid # ids) l =
     (case resolve x env env2 aid AS_Expired None (Some ''auto-expired'') l of
        (Inl e, l1) \<Rightarrow> (Inl e, l1)
      | (Inr res, l1) \<Rightarrow>
          (case sweep_ids x envs ids l1 of
             (Inl e, l2) \<Rightarrow> (Inl e, l2)
           | (Inr out, l2) \<Rightarrow> (Inr (res # out), l2)))"

definition expired_ids :: "int \<Rightarrow> 'z approval_db_scheme \<Rightarrow> string list" where
  "expired_ids now l =
     map a_approval_id
       (filter (\<lambda>r. a_status r = ''Pending'' \<and> a_expires_at r \<le> now) (led_approvals l))"

text \<open>One pair of environments per swept row; fewer pairs mean that the database stops answering.\<close>

definition sweep_expired ::
  "ledger_externs \<Rightarrow> call_env \<Rightarrow> (call_env \<times> call_env) list \<Rightarrow> 'z approval_db_scheme
   \<Rightarrow> approval_resolution list audit_result \<times> 'z approval_db_scheme" where
  "sweep_expired x env envs l =
     (if ce_lock_poisoned env then (Inl LockPoisoned, l)
      else if ce_exec_fault env then (Inl Sqlite, l)
      else sweep_ids x envs (expired_ids (ce_now env) l) l)"

subsection \<open>Waiting\<close>

text \<open>
  A look at the database in the environment of that look: the connection lock and the query may
  fail, as may the parsing of the stored status.
\<close>

definition current_resolution ::
  "call_env \<Rightarrow> string \<Rightarrow> 'z approval_db_scheme \<Rightarrow> approval_resolution option audit_result" where
  "current_resolution env aid l =
     (if ce_lock_poisoned env then Inl LockPoisoned
      else if ce_exec_fault env then Inl Sqlite
      else
        (case find_approval aid l of
           None \<Rightarrow> Inr None
         | Some r \<Rightarrow>
             (case parse_status (a_status r) of
                Inl e \<Rightarrow> Inl e
              | Inr status \<Rightarrow>
                  if status = AS_Pending then Inr None
                  else Inr (Some \<lparr>res_approval_id = aid, res_invocation_id = a_invocation_id r,
                                  res_status = status, res_scope = Option.bind (a_scope r) parse_scope,
                                  res_resolved_by = a_resolved_by r,
                                  res_resolved_at =
                                    (case a_resolved_at r of None \<Rightarrow> ce_now env | Some t \<Rightarrow> t)\<rparr>))))"

definition slot_value :: "string \<Rightarrow> 'z approval_db_scheme \<Rightarrow> approval_resolution option" where
  "slot_value aid l = map_of (led_slots l) aid"

text \<open>
  The wait as the sequence of looks it takes, each with its environment and the ledger it sees: the
  first at entry, then one per time slice (other threads and processes act in between), the last
  after the deadline. After a slice the in-process slot is looked at first, then the table. An
  error of a look ends the wait.
\<close>

fun wait_slices ::
  "string \<Rightarrow> (call_env \<times> 'z approval_db_scheme) list \<Rightarrow> call_env \<times> 'z approval_db_scheme
   \<Rightarrow> approval_resolution option audit_result" where
  "wait_slices aid [] final =
     (case slot_value aid (snd final) of
        Some r \<Rightarrow> Inr (Some r)
      | None \<Rightarrow> current_resolution (fst final) aid (snd final))"
| "wait_slices aid (look # looks) final =
     (case slot_value aid (snd look) of
        Some r \<Rightarrow> Inr (Some r)
      | None \<Rightarrow>
          (case current_resolution (fst look) aid (snd look) of
             Inl e \<Rightarrow> Inl e
           | Inr (Some r) \<Rightarrow> Inr (Some r)
           | Inr None \<Rightarrow> wait_slices aid looks final))"

definition wait_for_resolution ::
  "string \<Rightarrow> call_env \<times> 'z approval_db_scheme \<Rightarrow> (call_env \<times> 'z approval_db_scheme) list
   \<Rightarrow> call_env \<times> 'z approval_db_scheme \<Rightarrow> approval_resolution option audit_result" where
  "wait_for_resolution aid entry slices final =
     (case current_resolution (fst entry) aid (snd entry) of
        Inl e \<Rightarrow> Inl e
      | Inr (Some r) \<Rightarrow> Inr (Some r)
      | Inr None \<Rightarrow> wait_slices aid slices final)"

subsection \<open>The skeleton entry point\<close>

definition store_pending_approval_skeleton ::
  "ledger_externs \<Rightarrow> call_env \<Rightarrow> string \<Rightarrow> string \<Rightarrow> string \<Rightarrow> string \<Rightarrow> string \<Rightarrow> string \<Rightarrow> int
   \<Rightarrow> 'z approval_db_scheme \<Rightarrow> unit audit_result \<times> 'z approval_db_scheme" where
  "store_pending_approval_skeleton x env aid decision_id sid title summary effect_json expires_at l =
     (case validate_nonempty ''approval_id'' aid of
        Inl e \<Rightarrow> (Inl e, l)
      | Inr _ \<Rightarrow>
          if ce_lock_poisoned env then (Inl LockPoisoned, l)
          else if ce_exec_fault env \<or> aid \<in> set (map a_approval_id (led_approvals l)) then (Inl Sqlite, l)
          else (Inr (), l\<lparr>led_approvals := led_approvals l @
                 [\<lparr>a_approval_id = aid, a_decision_id = decision_id, a_invocation_id = [],
                   a_session_id = sid, a_title = scrub_text (lx_redact x) title,
                   a_summary = scrub_text (lx_redact x) summary,
                   a_effect_json = scrub_text (lx_redact x) effect_json, a_status = ''Pending'',
                   a_scope = None, a_args_hash = None, a_server_id = None, a_tool_name = None,
                   a_expires_at = expires_at, a_created_at = ce_now env, a_resolved_at = None,
                   a_resolved_by = None\<rparr>]\<rparr>))"

definition approval_status_of :: "string \<Rightarrow> 'z approval_db_scheme \<Rightarrow> string option" where
  "approval_status_of aid l = map_option a_status (find_approval aid l)"

section \<open>Round trips\<close>

lemma parse_status_str [simp]: "parse_status (status_str s) = Inr s"
  by (cases s) (simp_all add: parse_status_def)

lemma parse_scope_str [simp]: "parse_scope (scope_to_str s) = Some s"
  by (cases s) (simp_all add: parse_scope_def)

lemma parse_status_Pending [simp]: "parse_status ''Pending'' = Inr AS_Pending"
  by (simp add: parse_status_def)

lemma parse_status_Inr: "parse_status s = Inr t \<longleftrightarrow> s = status_str t"
  by (cases t) (auto simp: parse_status_def)

lemma status_str_Pending [simp]: "status_str t = ''Pending'' \<longleftrightarrow> t = AS_Pending"
  by (cases t) simp_all

lemma scope_str_session [simp]: "scope_to_str s = ''ThisSession'' \<longleftrightarrow> s = ThisSession"
  by (cases s) simp_all

section \<open>What the operations do to the table\<close>

lemma insert_event_approvals [simp]:
  "led_approvals (insert_event row l) = led_approvals l"
  "led_slots (insert_event row l) = led_slots l"
  by (simp_all add: insert_event_def)

lemma append_approvals [simp]:
  "led_approvals (snd (append_event_internal x env sid ty p rt l)) = led_approvals l"
  "led_slots (snd (append_event_internal x env sid ty p rt l)) = led_slots l"
  by (cases x env sid ty p rt l rule: append_cases; simp)+

lemma record_approvals [simp]:
  "led_approvals (snd (record_approval_created x env req l)) = led_approvals l"
  "led_approvals (snd (record_approval_resolved x env req r l)) = led_approvals l"
  by (simp_all add: record_approval_created_def record_approval_resolved_def Let_def)

lemma publish_approvals [simp]:
  "led_approvals (publish aid r l) = led_approvals l" "led_events (publish aid r l) = led_events l"
  by (simp_all add: publish_def)

lemma snd_case_record:
  "snd (case p of (Inl e, l2) \<Rightarrow> (Inl e, l2) | (Inr _, l2) \<Rightarrow> (Inr r, f l2)) =
     (case fst p of Inl _ \<Rightarrow> snd p | Inr _ \<Rightarrow> f (snd p))"
  by (cases p; cases "fst p") auto

lemma resolve_table:
  "led_approvals (snd (resolve x env env2 aid target scope by l)) =
     (if ce_lock_poisoned env \<or> ce_exec_fault env then led_approvals l
      else map (\<lambda>r. if is_pending aid r then resolve_row target scope by (ce_now env) r else r)
             (led_approvals l))"
  by (simp add: resolve_def Let_def snd_case_record split: sum.splits option.splits prod.splits)

lemma deny_table:
  "led_approvals (snd (deny x env env2 env3 aid reason by l)) =
   led_approvals (snd (resolve x env env2 aid AS_Denied None by l))"
proof (cases "resolve x env env2 aid AS_Denied None by l")
  case (Pair res l1)
  then show ?thesis
    by (cases res)
      (auto simp: deny_def Let_def snd_case_record [where f = "\<lambda>l. l"]
        split: option.splits sum.splits)
qed

definition row_evolves :: "approval_row \<Rightarrow> approval_row \<Rightarrow> bool" where
  "row_evolves r r' \<longleftrightarrow>
     r' = r \<or> a_status r = ''Pending'' \<and>
       (\<exists>t scope by now. t \<noteq> AS_Pending \<and> r' = resolve_row t scope by now r)"

definition table_evolves :: "approval_row list \<Rightarrow> approval_row list \<Rightarrow> bool" where
  "table_evolves rs rs' \<longleftrightarrow>
     (\<exists>old new. rs' = old @ new \<and> list_all2 row_evolves rs old)"

lemma row_evolves_refl [simp]: "row_evolves r r"
  by (simp add: row_evolves_def)

lemma resolve_row_status [simp]: "a_status (resolve_row t scope by now r) = status_str t"
  by (simp add: resolve_row_def)

lemma row_evolves_trans: "row_evolves a b \<Longrightarrow> row_evolves b c \<Longrightarrow> row_evolves a c"
  unfolding row_evolves_def by (elim disjE conjE exE) (simp_all, blast+)

lemma table_evolves_map: "(\<And>r. row_evolves r (f r)) \<Longrightarrow> table_evolves rs (map f rs)"
  unfolding table_evolves_def
  by (intro exI [of _ "map f rs"] exI [of _ "[]"]) (simp add: list_all2_conv_all_nth)

lemma table_evolves_refl [simp]: "table_evolves rs rs"
  unfolding table_evolves_def by (intro exI [of _ rs] exI [of _ "[]"]) (simp add: list_all2_same)

lemma table_evolves_trans:
  assumes "table_evolves a b" "table_evolves b c"
  shows "table_evolves a c"
proof -
  obtain oa na ob nb where "b = oa @ na" "list_all2 row_evolves a oa" "c = ob @ nb"
    "list_all2 row_evolves b ob" using assms by (auto simp: table_evolves_def)
  then obtain ob1 ob2 where "ob = ob1 @ ob2" "list_all2 row_evolves oa ob1"
    by (auto simp: list_all2_append1)
  moreover have "list_all2 row_evolves a ob1"
    by (rule list_all2_trans [OF row_evolves_trans]) (use \<open>list_all2 row_evolves a oa\<close> calculation in auto)
  ultimately show ?thesis using \<open>c = ob @ nb\<close> unfolding table_evolves_def by auto
qed

section \<open>Sequences of operations\<close>

text \<open>Every operation that changes the table, by any process, in any order.\<close>

datatype approval_op =
    Op_create call_env call_env string decision_record effect_vector string string u64
      approval_target_context
  | Op_approve call_env call_env string approval_scope "string option"
  | Op_deny call_env call_env call_env string "string option" "string option"
  | Op_cancel call_env call_env string "string option"
  | Op_sweep call_env "(call_env \<times> call_env) list"

fun run_op :: "ledger_externs \<Rightarrow> approval_op \<Rightarrow> approval_db \<Rightarrow> approval_db" where
  "run_op x (Op_create env env2 sid d ev title summary ttl ctx) l =
     snd (create_approval x env env2 sid d ev title summary ttl ctx l)"
| "run_op x (Op_approve env env2 aid scope by) l = snd (approve x env env2 aid scope by l)"
| "run_op x (Op_deny env env2 env3 aid reason by) l = snd (deny x env env2 env3 aid reason by l)"
| "run_op x (Op_cancel env env2 aid by) l = snd (cancel x env env2 aid by l)"
| "run_op x (Op_sweep env envs) l = snd (sweep_expired x env envs l)"

definition run_ops :: "ledger_externs \<Rightarrow> approval_op list \<Rightarrow> approval_db \<Rightarrow> approval_db" where
  "run_ops x ops l = foldl (\<lambda>l op. run_op x op l) l ops"

lemma create_table:
  obtains "led_approvals (snd (create_approval x env env2 sid d ev title summary ttl ctx l))
      = led_approvals l"
  | row where "led_approvals (snd (create_approval x env env2 sid d ev title summary ttl ctx l))
      = led_approvals l @ [row]"
    "a_approval_id row = ce_uuid env" "ce_uuid env \<notin> set (map a_approval_id (led_approvals l))"
    "a_status row = ''Pending''" "a_scope row = None" "a_resolved_at row = None"
    "a_session_id row = sid" "a_server_id row = tc_server_id ctx" "a_tool_name row = tc_tool_name ctx"
    "a_args_hash row = tc_args_hash ctx" "a_expires_at row = approval_expiry (ce_now env) ttl"
proof (cases "lx_effects_to_string x ev = None \<or> ce_lock_poisoned env \<or> ce_exec_fault env \<or>
    ce_uuid env \<in> set (map a_approval_id (led_approvals l))")
  case True
  then have "led_approvals (snd (create_approval x env env2 sid d ev title summary ttl ctx l))
      = led_approvals l"
    by (auto simp: create_approval_def Let_def split: option.splits)
  then show thesis by (rule that(1))
next
  case False
  then obtain ej where "lx_effects_to_string x ev = Some ej" by auto
  with False show thesis
    by (intro that(2))
      (auto simp: create_approval_def Let_def snd_case_record [where f = "\<lambda>l. l"] split: sum.splits)
qed


fun created_by :: "approval_op \<Rightarrow> approval_row \<Rightarrow> bool" where
  "created_by (Op_create env _ sid _ _ _ _ ttl ctx) r \<longleftrightarrow>
     a_approval_id r = ce_uuid env \<and> a_session_id r = sid \<and> a_server_id r = tc_server_id ctx \<and>
     a_tool_name r = tc_tool_name ctx \<and> a_args_hash r = tc_args_hash ctx \<and>
     a_expires_at r = approval_expiry (ce_now env) ttl"
| "created_by _ r \<longleftrightarrow> False"

definition fresh_row :: "approval_row \<Rightarrow> bool" where
  "fresh_row r \<longleftrightarrow> a_status r = ''Pending'' \<and> a_scope r = None \<and> a_resolved_at r = None"

fun resolves_to :: "approval_op \<Rightarrow> string \<Rightarrow> approval_status \<Rightarrow> approval_scope option \<Rightarrow> bool" where
  "resolves_to (Op_approve _ _ aid scope _) aid' t sc \<longleftrightarrow> aid' = aid \<and> t = AS_Approved \<and> sc = Some scope"
| "resolves_to (Op_deny _ _ _ aid _ _) aid' t sc \<longleftrightarrow> aid' = aid \<and> t = AS_Denied \<and> sc = None"
| "resolves_to (Op_cancel _ _ aid _) aid' t sc \<longleftrightarrow> aid' = aid \<and> t = AS_Cancelled \<and> sc = None"
| "resolves_to (Op_sweep _ _) aid' t sc \<longleftrightarrow> t = AS_Expired \<and> sc = None"
| "resolves_to _ aid' t sc \<longleftrightarrow> False"

lemma resolves_to_terminal: "resolves_to op aid t sc \<Longrightarrow> t \<noteq> AS_Pending"
  by (cases op) auto

definition resolve_rows ::
  "string \<Rightarrow> approval_status \<Rightarrow> approval_scope option \<Rightarrow> string option \<Rightarrow> int \<Rightarrow> approval_row list
   \<Rightarrow> approval_row list" where
  "resolve_rows aid t sc by now rs =
     map (\<lambda>r. if is_pending aid r then resolve_row t sc by now r else r) rs"

lemma resolve_row_simps [simp]:
  "a_approval_id (resolve_row t scope by now r) = a_approval_id r"
  "a_session_id (resolve_row t scope by now r) = a_session_id r"
  "a_server_id (resolve_row t scope by now r) = a_server_id r"
  "a_tool_name (resolve_row t scope by now r) = a_tool_name r"
  "a_args_hash (resolve_row t scope by now r) = a_args_hash r"
  "a_expires_at (resolve_row t scope by now r) = a_expires_at r"
  "a_effect_json (resolve_row t scope by now r) = a_effect_json r"
  "a_invocation_id (resolve_row t scope by now r) = a_invocation_id r"
  "a_resolved_at (resolve_row t scope by now r) = Some now"
  "a_resolved_by (resolve_row t scope by now r) = by"
  "a_scope (resolve_row t scope by now r) =
     (if t = AS_Approved then map_option scope_to_str scope else None)"
  by (simp_all add: resolve_row_def)

lemma created_by_resolve [simp]: "created_by op (resolve_row t scope by now r) = created_by op r"
  by (cases op) simp_all

section \<open>Facts about the table along a history of operations\<close>

text \<open>
  A predicate on the history of operations and the table that survives a longer history, a new
  row and one conditional update holds after every sequence of operations.
\<close>

locale table_history =
  fixes P :: "approval_op list \<Rightarrow> approval_row list \<Rightarrow> bool"
  assumes later: "P h rs \<Longrightarrow> P (h @ [op]) rs"
    and created: "P h rs \<Longrightarrow> op \<in> set h \<Longrightarrow> created_by op r \<Longrightarrow> fresh_row r \<Longrightarrow>
      a_approval_id r \<notin> a_approval_id ` set rs \<Longrightarrow> P h (rs @ [r])"
    and resolved: "P h rs \<Longrightarrow> op \<in> set h \<Longrightarrow> resolves_to op aid t sc \<Longrightarrow>
      P h (resolve_rows aid t sc by now rs)"
begin

lemma resolve_history:
  assumes "P h (led_approvals l)" "op \<in> set h" "resolves_to op aid t sc"
  shows "P h (led_approvals (snd (resolve x env env2 aid t sc by l)))"
  using assms resolved [OF assms] by (simp add: resolve_table resolve_rows_def)

lemma sweep_history:
  "P h (led_approvals l) \<Longrightarrow> Op_sweep env0 envs0 \<in> set h \<Longrightarrow>
   P h (led_approvals (snd (sweep_ids x envs ids l)))"
proof (induction x envs ids l rule: sweep_ids.induct)
  case (3 x env env2 envs aid ids l)
  have 1: "P h (led_approvals (snd (resolve x env env2 aid AS_Expired None (Some ''auto-expired'') l)))"
    by (rule resolve_history [OF 3(2,3)]) simp
  show ?case
  proof (cases "resolve x env env2 aid AS_Expired None (Some ''auto-expired'') l")
    case (Pair res l1)
    show ?thesis
    proof (cases res)
      case (Inl e)
      then show ?thesis using 1 Pair by simp
    next
      case (Inr r)
      have "P h (led_approvals (snd (sweep_ids x envs ids l1)))"
        using "3.IH" [OF Pair [symmetric] Inr] 1 Pair 3(3) by simp
      then show ?thesis
        using Pair Inr by (cases "sweep_ids x envs ids l1"; cases "fst (sweep_ids x envs ids l1)") auto
    qed
  qed
qed simp_all

lemma run_op_history:
  assumes "P h (led_approvals l)"
  shows "P (h @ [op]) (led_approvals (run_op x op l))"
proof (cases op)
  case op: (Op_create env env2 sid d ev title summary ttl ctx)
  show ?thesis
    by (cases x env env2 sid d ev title summary ttl ctx l rule: create_table)
      (use later [OF assms, of op] in
        \<open>auto simp: op image_iff fresh_row_def intro!: created [where op = op]\<close>)
next
  case (Op_sweep env envs)
  then show ?thesis using later [OF assms, of op] sweep_history [of "h @ [op]" l env envs x envs]
    by (simp add: sweep_expired_def)
qed (use later [OF assms, of op] in
      \<open>simp_all add: approve_def cancel_def deny_table resolve_history [where op = op]\<close>)

lemma run_ops_history:
  "P h (led_approvals l) \<Longrightarrow> P (h @ ops) (led_approvals (run_ops x ops l))"
proof (induction ops arbitrary: h l)
  case (Cons op ops)
  show ?case using Cons.IH [OF run_op_history [OF Cons.prems, of op x]] by (simp add: run_ops_def)
qed (simp add: run_ops_def)

end

subsection \<open>Rows only evolve\<close>

lemma resolve_rows_evolve:
  "t \<noteq> AS_Pending \<Longrightarrow> table_evolves rs (resolve_rows aid t sc by now rs)"
  unfolding resolve_rows_def
  by (intro table_evolves_map) (simp add: row_evolves_def is_pending_def, blast)

lemma table_evolves_snoc: "table_evolves base rs \<Longrightarrow> table_evolves base (rs @ [r])"
  unfolding table_evolves_def by (elim exE conjE) (metis append.assoc)

interpretation evolution: table_history "\<lambda>_. table_evolves base" for base
  by unfold_locales
    (auto intro: table_evolves_snoc table_evolves_trans resolve_rows_evolve dest: resolves_to_terminal)

lemma row_evolves_id: "row_evolves r r' \<Longrightarrow> a_approval_id r' = a_approval_id r"
  by (auto simp: row_evolves_def)

lemma find_evolves:
  "list_all2 row_evolves rs old \<Longrightarrow> find (\<lambda>r. a_approval_id r = aid) rs = Some r \<Longrightarrow>
   \<exists>r'. find (\<lambda>r. a_approval_id r = aid) (old @ new) = Some r' \<and> row_evolves r r'"
  by (induction rs old rule: list_all2_induct) (auto simp: row_evolves_id split: if_splits)

lemma run_ops_find:
  assumes "find_approval aid l = Some r"
  shows "\<exists>r'. find_approval aid (run_ops x ops l) = Some r' \<and> row_evolves r r'"
proof -
  obtain old new where "led_approvals (run_ops x ops l) = old @ new"
    "list_all2 row_evolves (led_approvals l) old"
    using evolution.run_ops_history [where base = "led_approvals l" and l = l and ops = ops and x = x]
    by (auto simp: table_evolves_def)
  then show ?thesis using assms find_evolves by (simp add: find_approval_def)
qed

lemma row_evolves_terminal: "row_evolves r r' \<Longrightarrow> a_status r \<noteq> ''Pending'' \<Longrightarrow> r' = r"
  by (simp add: row_evolves_def)

subsection \<open>The table stays well formed\<close>

definition approval_row_ok :: "approval_row \<Rightarrow> bool" where
  "approval_row_ok r \<longleftrightarrow>
     (case parse_status (a_status r) of
        Inl _ \<Rightarrow> False
      | Inr t \<Rightarrow>
          (t = AS_Pending \<longleftrightarrow> a_resolved_at r = None) \<and>
          (if t = AS_Approved then (\<exists>sc. a_scope r = Some (scope_to_str sc)) else a_scope r = None))"

definition approvals_wf :: "approval_row list \<Rightarrow> bool" where
  "approvals_wf rs \<longleftrightarrow> distinct (map a_approval_id rs) \<and> list_all approval_row_ok rs"

lemma resolve_rows_ids [simp]:
  "map a_approval_id (resolve_rows aid t sc by now rs) = map a_approval_id rs"
  by (simp add: resolve_rows_def)

lemma resolve_rows_ok:
  assumes "resolves_to op aid t sc" "list_all approval_row_ok rs"
  shows "list_all approval_row_ok (resolve_rows aid t sc by now rs)"
proof -
  have "approval_row_ok (resolve_row t sc by now r)" for r
    using assms(1) by (cases op) (auto simp: approval_row_ok_def parse_status_def)
  then show ?thesis using assms(2) by (auto simp: resolve_rows_def list_all_iff)
qed

interpretation wf: table_history "\<lambda>_. approvals_wf"
proof
  fix h rs op r
  assume "approvals_wf rs" "fresh_row r" "a_approval_id r \<notin> a_approval_id ` set rs"
  moreover have "approval_row_ok r" using \<open>fresh_row r\<close> by (simp add: approval_row_ok_def fresh_row_def
      parse_status_def)
  ultimately show "approvals_wf (rs @ [r])" by (simp add: approvals_wf_def)
qed (auto simp: approvals_wf_def resolve_rows_ok)

subsection \<open>Every session grant has a creation and an approval\<close>

fun grants_session :: "string \<Rightarrow> approval_op \<Rightarrow> bool" where
  "grants_session aid (Op_approve _ _ aid' scope _) \<longleftrightarrow> aid' = aid \<and> scope = ThisSession"
| "grants_session aid _ \<longleftrightarrow> False"

definition accounted :: "approval_op list \<Rightarrow> approval_row \<Rightarrow> bool" where
  "accounted h r \<longleftrightarrow>
     list_ex (\<lambda>op. created_by op r) h \<and>
     (a_scope r = Some ''ThisSession'' \<longrightarrow> list_ex (grants_session (a_approval_id r)) h)"

lemma accounted_resolve:
  assumes "accounted h r" "op \<in> set h" "resolves_to op (a_approval_id r) t sc"
  shows "accounted h (resolve_row t sc by now r)"
  using assms by (cases op) (auto simp: accounted_def list_ex_iff intro: bexI [of _ op])

interpretation grants: table_history "\<lambda>h. list_all (accounted h)"
proof
  fix h rs op aid t sc "by" now
  assume "list_all (accounted h) rs" "op \<in> set h" "resolves_to op aid t sc"
  then show "list_all (accounted h) (resolve_rows aid t sc by now rs)"
    by (auto simp: resolve_rows_def list_all_iff is_pending_def accounted_resolve)
qed (auto simp: list_all_iff accounted_def list_ex_iff fresh_row_def)

lemma scope_hit:
  assumes "find_session_scope_allow env tie sid server tool args_hash l = Inr (Some res)"
  obtains r where "r \<in> set (scope_rows (ce_now env) sid server tool args_hash l)"
    "a_approval_id r = res_approval_id res"
proof -
  define rows where "rows = scope_rows (ce_now env) sid server tool args_hash l"
  define top where "top = filter (\<lambda>r. list_all (\<lambda>q. resolved_key q \<le> resolved_key r) rows) rows"
  have "top \<noteq> []" "a_approval_id (top ! (tie mod length top)) = res_approval_id res"
    using assms unfolding top_def rows_def
    by (auto simp: find_session_scope_allow_def Let_def split: if_splits)
  moreover from this have "top ! (tie mod length top) \<in> set rows"
    using nth_mem [of "tie mod length top" top] by (simp add: top_def)
  ultimately show thesis using that rows_def by blast
qed

lemma find_in_rows: "find_approval aid l = Some r \<Longrightarrow> r \<in> set (led_approvals l) \<and> a_approval_id r = aid"
  by (auto simp: find_approval_def find_Some_iff)

subsection \<open>Reading back\<close>

lemma find_map_id:
  "(\<And>r. a_approval_id (f r) = a_approval_id r) \<Longrightarrow>
   find (\<lambda>r. a_approval_id r = aid) (map f rs) =
     map_option f (find (\<lambda>r. a_approval_id r = aid) rs)"
  by (induction rs) auto

lemma find_resolve_rows:
  "find (\<lambda>r. a_approval_id r = aid') (resolve_rows aid t sc by now rs) =
     map_option (\<lambda>r. if is_pending aid r then resolve_row t sc by now r else r)
       (find (\<lambda>r. a_approval_id r = aid') rs)"
  unfolding resolve_rows_def by (rule find_map_id) simp

lemma find_snoc_fresh:
  "aid \<notin> a_approval_id ` set rs \<Longrightarrow> a_approval_id r = aid \<Longrightarrow>
   find (\<lambda>r. a_approval_id r = aid) (rs @ [r]) = Some r"
  by (induction rs) auto

lemma find_pending:
  assumes "distinct (map a_approval_id rs)" "list_ex (is_pending aid) rs"
    "find (\<lambda>r. a_approval_id r = aid) rs = Some r"
  shows "is_pending aid r"
  using assms by (induction rs) (auto simp: is_pending_def list_ex_iff image_iff split: if_splits)

lemma resolve_ok_fields:
  assumes "resolve x env env2 aid t sc by l = (Inr res, l')"
  shows "res_approval_id res = aid"
    "led_approvals l' = resolve_rows aid t sc by (ce_now env) (led_approvals l)"
proof -
  have "\<not> ce_lock_poisoned env" "\<not> ce_exec_fault env"
    using assms by (auto simp: resolve_def split: if_splits)
  then show "led_approvals l' = resolve_rows aid t sc by (ce_now env) (led_approvals l)"
    using resolve_table [of x env env2 aid t sc "by" l] assms by (simp add: resolve_rows_def)
  show "res_approval_id res = aid"
    using assms by (auto simp: resolve_def Let_def split: if_splits sum.splits option.splits prod.splits)
qed

subsection \<open>Published resolutions\<close>

definition slots_sound :: "'z approval_db_scheme \<Rightarrow> bool" where
  "slots_sound l \<longleftrightarrow>
     list_all (\<lambda>(aid, res). res_status res \<noteq> AS_Pending \<and>
       (case find_approval aid l of None \<Rightarrow> False | Some r \<Rightarrow> a_status r = status_str (res_status res)))
       (led_slots l)"

definition approval_db_ok :: "'z approval_db_scheme \<Rightarrow> bool" where
  "approval_db_ok l \<longleftrightarrow> approvals_wf (led_approvals l) \<and> slots_sound l"

lemma slots_sound_resolved:
  assumes "slots_sound l" "led_slots l' = led_slots l"
    "led_approvals l' = resolve_rows aid t sc by now (led_approvals l)"
  shows "slots_sound l'"
  using assms unfolding slots_sound_def find_approval_def
  by (fastforce simp: find_resolve_rows list_all_iff is_pending_def split: option.splits)

lemma set_AList_update:
  "set (AList.update k v al) \<subseteq> insert (k, v) (set al)"
  by (induction al) auto

lemma slots_sound_publish:
  assumes "slots_sound l" "res_status res \<noteq> AS_Pending" "find_approval aid l = Some r"
    "a_status r = status_str (res_status res)"
  shows "slots_sound (publish aid res l)"
proof -
  have "find_approval aid' (publish aid res l) = find_approval aid' l" for aid'
    by (simp add: find_approval_def)
  then show ?thesis
    using assms set_AList_update [of aid res "led_slots l"]
    by (fastforce simp: slots_sound_def list_all_iff publish_def)
qed

lemma record_resolved_slots [simp]:
  "led_slots (snd (record_approval_created x env req l)) = led_slots l"
  "led_slots (snd (record_approval_resolved x env req r l)) = led_slots l"
  by (simp_all add: record_approval_created_def record_approval_resolved_def Let_def)

lemma get_approval_status:
  "get_approval x aid l = Inr (Some req) \<Longrightarrow>
   \<exists>r. find_approval aid l = Some r \<and> a_status r = status_str (ar_status req)"
  by (auto simp: get_approval_def row_request_def parse_status_Inr split: option.splits sum.splits)

lemma resolve_slots:
  obtains "led_slots (snd (resolve x env env2 aid t sc by l)) = led_slots l"
  | res l2 where "snd (resolve x env env2 aid t sc by l) = publish aid res l2"
    "led_slots l2 = led_slots l"
    "led_approvals l2 = resolve_rows aid t sc by (ce_now env) (led_approvals l)"
    "list_ex (is_pending aid) (led_approvals l)"
    "\<exists>r. find_approval aid l2 = Some r \<and> a_status r = status_str (res_status res)"
proof -
  define l1 where "l1 = l\<lparr>led_approvals := resolve_rows aid t sc by (ce_now env) (led_approvals l)\<rparr>"
  have slots1: "led_slots l1 = led_slots l" by (simp add: l1_def)
  show thesis
  proof (cases "\<not> ce_lock_poisoned env \<and> \<not> ce_exec_fault env \<and> list_ex (is_pending aid) (led_approvals l)
      \<and> (\<exists>req. get_approval x aid l1 = Inr (Some req))")
    case False
    then have "led_slots (snd (resolve x env env2 aid t sc by l)) = led_slots l"
      unfolding resolve_def Let_def resolve_rows_def [symmetric] l1_def [symmetric]
      by (auto simp: slots1 split: sum.splits option.splits prod.splits)
    then show ?thesis by (rule that(1))
  next
    case True
    then obtain req where get: "get_approval x aid l1 = Inr (Some req)" by blast
    define res where "res = \<lparr>res_approval_id = aid, res_invocation_id = ar_invocation_id req,
        res_status = ar_status req, res_scope = (if ar_status req = AS_Approved then sc else None),
        res_resolved_by = by, res_resolved_at = ce_now env\<rparr>"
    obtain ret l2 where rec: "record_approval_resolved x env2 req res l1 = (ret, l2)" by fastforce
    have same: "led_slots l2 = led_slots l" "led_approvals l2 = led_approvals l1"
      using record_approvals(2) [of x env2 req res l1] record_resolved_slots(2) [of x env2 req res l1]
      by (simp_all add: rec slots1)
    have eq: "snd (resolve x env env2 aid t sc by l) = (case ret of Inl _ \<Rightarrow> l2 | Inr _ \<Rightarrow> publish aid res l2)"
      using True get rec unfolding resolve_def Let_def resolve_rows_def [symmetric] l1_def [symmetric]
      by (simp add: res_def split: sum.splits)
    have "\<exists>r. find_approval aid l2 = Some r \<and> a_status r = status_str (res_status res)"
      using get_approval_status [OF get] same(2) by (simp add: find_approval_def res_def)
    then show ?thesis
      using that eq True same by (cases ret) (simp_all add: l1_def)
  qed
qed

lemma slots_sound_cong:
  "led_slots l' = led_slots l \<Longrightarrow> led_approvals l' = led_approvals l \<Longrightarrow> slots_sound l' = slots_sound l"
  by (simp add: slots_sound_def find_approval_def)

lemma resolve_keeps_ok:
  assumes "approval_db_ok l" "resolves_to op aid t sc"
  shows "approval_db_ok (snd (resolve x env env2 aid t sc by l))"
proof -
  let ?l' = "snd (resolve x env env2 aid t sc by l)"
  have wf: "approvals_wf (led_approvals l)" "slots_sound l" using assms by (simp_all add: approval_db_ok_def)
  have "slots_sound ?l'"
  proof (cases x env env2 aid t sc "by" l rule: resolve_slots)
    case 1
    show ?thesis
    proof (cases "ce_lock_poisoned env \<or> ce_exec_fault env")
      case True
      then show ?thesis using slots_sound_cong [OF 1] wf(2) by (simp add: resolve_table)
    next
      case False
      then show ?thesis
        by (intro slots_sound_resolved [OF wf(2) 1, of aid t sc "by" "ce_now env"])
          (simp add: resolve_table resolve_rows_def)
    qed
  next
    case (2 res l2)
    then obtain r where r: "find_approval aid l2 = Some r" "a_status r = status_str (res_status res)"
      by blast
    obtain r0 where r0: "find (\<lambda>r. a_approval_id r = aid) (led_approvals l) = Some r0"
      "r = (if is_pending aid r0 then resolve_row t sc by (ce_now env) r0 else r0)"
      using r(1) 2(3) by (auto simp: find_approval_def find_resolve_rows)
    moreover have "is_pending aid r0"
      using find_pending [OF _ 2(4) r0(1)] wf(1) by (simp add: approvals_wf_def)
    ultimately have "a_status r = status_str t" by simp
    with r(2) resolves_to_terminal [OF assms(2)] have "res_status res \<noteq> AS_Pending"
      by (metis parse_status_str sum.inject(2))
    then show ?thesis
      using slots_sound_publish [OF slots_sound_resolved [OF wf(2) 2(2,3)] _ r] 2(1) by simp
  qed
  moreover have "approvals_wf (led_approvals ?l')"
    by (rule wf.resolve_history [OF wf(1), of op "[op]"]) (use assms(2) in auto)
  ultimately show ?thesis by (simp add: approval_db_ok_def)
qed

lemma approval_db_ok_cong:
  "led_slots l' = led_slots l \<Longrightarrow> led_approvals l' = led_approvals l \<Longrightarrow>
   approval_db_ok l' = approval_db_ok l"
  using slots_sound_cong [of l' l] by (simp add: approval_db_ok_def)

lemma create_slots [simp]:
  "led_slots (snd (create_approval x env env2 sid d ev title summary ttl ctx l)) = led_slots l"
  by (auto simp: create_approval_def Let_def snd_case_record [where f = "\<lambda>l. l"]
      split: option.splits sum.splits)

lemma deny_slots:
  "led_slots (snd (deny x env env2 env3 aid reason by l)) =
   led_slots (snd (resolve x env env2 aid AS_Denied None by l))"
proof (cases "resolve x env env2 aid AS_Denied None by l")
  case (Pair res l1)
  then show ?thesis
    by (cases res)
      (auto simp: deny_def Let_def snd_case_record [where f = "\<lambda>l. l"]
        split: option.splits sum.splits)
qed

lemma find_snoc_Some:
  "find P rs = Some r \<Longrightarrow> find P (rs @ [r']) = Some r"
  by (induction rs) (auto split: if_splits)

lemma sweep_keeps_ok: "approval_db_ok l \<Longrightarrow> approval_db_ok (snd (sweep_ids x envs ids l))"
proof (induction x envs ids l rule: sweep_ids.induct)
  case (3 x env env2 envs aid ids l)
  obtain res l1 where r: "resolve x env env2 aid AS_Expired None (Some ''auto-expired'') l = (res, l1)"
    by fastforce
  have 1: "approval_db_ok l1"
    using resolve_keeps_ok [OF 3(2), of "Op_sweep env []" aid AS_Expired None x env env2
        "Some ''auto-expired''"] by (simp add: r)
  show ?case
  proof (cases res)
    case (Inr v)
    then show ?thesis using "3.IH" [OF r [symmetric] Inr 1] r
      by (cases "sweep_ids x envs ids l1"; cases "fst (sweep_ids x envs ids l1)") auto
  qed (simp add: r 1)
qed simp_all

lemma run_op_keeps_ok:
  assumes "approval_db_ok l"
  shows "approval_db_ok (run_op x op l)"
proof (cases op)
  case op: (Op_create env env2 sid d ev title summary ttl ctx)
  let ?l' = "snd (create_approval x env env2 sid d ev title summary ttl ctx l)"
  have "find_approval aid ?l' = Some r" if "find_approval aid l = Some r" for aid r
    using that find_snoc_Some
    by (cases x env env2 sid d ev title summary ttl ctx l rule: create_table)
      (auto simp: find_approval_def)
  then have "slots_sound ?l'"
    using assms by (fastforce simp: approval_db_ok_def slots_sound_def list_all_iff split: option.splits)
  moreover have "approvals_wf (led_approvals ?l')"
    using wf.run_op_history [of l x op] assms op by (simp add: approval_db_ok_def)
  ultimately show ?thesis by (simp add: op approval_db_ok_def)
next
  case (Op_deny env env2 env3 aid reason "by")
  then show ?thesis
    using resolve_keeps_ok [OF assms, of op aid AS_Denied None x env env2 "by"]
    by (simp add: approval_db_ok_cong [OF deny_slots deny_table])
qed (use assms resolve_keeps_ok [OF assms, of op] sweep_keeps_ok [OF assms] in
      \<open>simp_all add: approve_def cancel_def sweep_expired_def\<close>)

subsection \<open>Sweeping\<close>

definition expire_row :: "int \<Rightarrow> approval_row \<Rightarrow> approval_row" where
  "expire_row now r = resolve_row AS_Expired None (Some ''auto-expired'') now r"

lemma sweep_ids_ok:
  "sweep_ids x envs ids l = (Inr out, l') \<Longrightarrow>
   map res_approval_id out = ids \<and>
   list_all2 (\<lambda>r r'. if a_status r = ''Pending'' \<and> a_approval_id r \<in> set ids
                     then \<exists>now. r' = expire_row now r else r' = r)
     (led_approvals l) (led_approvals l')"
proof (induction x envs ids l arbitrary: out l' rule: sweep_ids.induct)
  case (3 x env env2 envs aid ids l)
  from "3.prems" obtain res l1 out2 where
    a: "resolve x env env2 aid AS_Expired None (Some ''auto-expired'') l = (Inr res, l1)"
      "sweep_ids x envs ids l1 = (Inr out2, l')" "out = res # out2"
    by (auto split: prod.splits sum.splits)
  have rows: "led_approvals l1 =
      resolve_rows aid AS_Expired None (Some ''auto-expired'') (ce_now env) (led_approvals l)"
    by (rule resolve_ok_fields(2) [OF a(1)])
  from "3.IH" [OF a(1) [symmetric] refl a(2)]
  have "map res_approval_id out2 = ids"
    "list_all2 (\<lambda>r r'. if a_status r = ''Pending'' \<and> a_approval_id r \<in> set ids
                     then \<exists>now. r' = expire_row now r else r' = r) (led_approvals l1) (led_approvals l')"
    by simp_all
  then show ?case
    using resolve_ok_fields(1) [OF a(1)]
    by (auto simp: a(3) rows resolve_rows_def list.rel_map is_pending_def expire_row_def
        elim!: list_all2_mono split: if_splits)
qed (simp_all add: list_all2_same)

lemma list_all2_right: "list_all2 R xs ys \<Longrightarrow> (\<And>x y. R x y \<Longrightarrow> Q y) \<Longrightarrow> list_all Q ys"
  by (induction rule: list_all2_induct) auto

lemma same_id_same_row:
  "distinct (map a_approval_id rs) \<Longrightarrow> r \<in> set rs \<Longrightarrow> q \<in> set rs \<Longrightarrow>
   a_approval_id r = a_approval_id q \<Longrightarrow> r = q"
  by (simp add: distinct_map inj_on_def)

lemma expired_ids_iff:
  assumes "distinct (map a_approval_id (led_approvals l))" "r \<in> set (led_approvals l)"
    "a_status r = ''Pending''"
  shows "a_approval_id r \<in> set (expired_ids now l) \<longleftrightarrow> a_expires_at r \<le> now"
  using assms(2,3) same_id_same_row [OF assms(1,2)] by (auto simp: expired_ids_def)


subsection \<open>Waiting\<close>

lemma wf_find_status:
  assumes "approvals_wf (led_approvals l)" "find_approval aid l = Some r"
  obtains t where "a_status r = status_str t"
proof -
  have "approval_row_ok r"
    using assms(1) find_in_rows [OF assms(2)] by (simp add: approvals_wf_def list_all_iff)
  then obtain t where "parse_status (a_status r) = Inr t"
    by (auto simp: approval_row_ok_def split: sum.splits)
  then show thesis using that by (simp add: parse_status_Inr)
qed

definition look_fails :: "call_env \<Rightarrow> audit_error \<Rightarrow> bool" where
  "look_fails env e \<longleftrightarrow>
     (if ce_lock_poisoned env then e = LockPoisoned else ce_exec_fault env \<and> e = Sqlite)"

definition still_open :: "string \<Rightarrow> call_env \<times> 'z approval_db_scheme \<Rightarrow> bool" where
  "still_open aid look \<longleftrightarrow> \<not> ce_lock_poisoned (fst look) \<and> \<not> ce_exec_fault (fst look) \<and>
     (\<forall>r. find_approval aid (snd look) = Some r \<longrightarrow> a_status r = ''Pending'')"

definition resolution_of :: "string \<Rightarrow> approval_resolution \<Rightarrow> 'z approval_db_scheme \<Rightarrow> bool" where
  "resolution_of aid res l \<longleftrightarrow>
     res_status res \<noteq> AS_Pending \<and>
     (case find_approval aid l of None \<Rightarrow> False | Some r \<Rightarrow> a_status r = status_str (res_status res))"

lemma slot_resolution: "slots_sound l \<Longrightarrow> slot_value aid l = Some res \<Longrightarrow> resolution_of aid res l"
  by (auto simp: slots_sound_def slot_value_def list_all_iff resolution_of_def dest!: map_of_SomeD)

lemma current_resolution_cases:
  assumes "approvals_wf (led_approvals l)"
  obtains (waiting) "current_resolution env aid l = Inr None" "still_open aid (env, l)"
  | (fails) e where "current_resolution env aid l = Inl e" "look_fails env e"
  | (resolved) res where "current_resolution env aid l = Inr (Some res)" "resolution_of aid res l"
proof (cases "ce_lock_poisoned env \<or> ce_exec_fault env")
  case True
  then show thesis
    by (cases "ce_lock_poisoned env")
      (auto simp: current_resolution_def look_fails_def intro: fails [of LockPoisoned] fails [of Sqlite])
next
  case ok: False
  show thesis
  proof (cases "find_approval aid l")
    case None
    then show thesis using ok by (intro waiting) (simp_all add: current_resolution_def still_open_def)
  next
    case (Some r)
    obtain t where "a_status r = status_str t" using wf_find_status [OF assms Some] .
    then have ps: "parse_status (a_status r) = Inr t" by simp
    show thesis
    proof (cases "t = AS_Pending")
      case True
      then show thesis
        using waiting Some ps ok by (simp add: current_resolution_def still_open_def parse_status_Inr)
    next
      case False
      then show thesis
        by (intro resolved [of "\<lparr>res_approval_id = aid, res_invocation_id = a_invocation_id r,
              res_status = t, res_scope = Option.bind (a_scope r) parse_scope,
              res_resolved_by = a_resolved_by r,
              res_resolved_at = (case a_resolved_at r of None \<Rightarrow> ce_now env | Some at \<Rightarrow> at)\<rparr>"])
          (use Some ps ok in \<open>simp_all add: current_resolution_def resolution_of_def parse_status_Inr\<close>)
    qed
  qed
qed

text \<open>The first look of a sequence that does not just show an open approval has the property.\<close>

definition first_look ::
  "string \<Rightarrow> (call_env \<Rightarrow> 'z approval_db_scheme \<Rightarrow> bool) \<Rightarrow> (call_env \<times> 'z approval_db_scheme) list \<Rightarrow> bool" where
  "first_look aid P looks \<longleftrightarrow>
     (\<exists>before env l after. looks = before @ (env, l) # after \<and> list_all (still_open aid) before \<and> P env l)"

lemma first_look_here: "P (fst look) (snd look) \<Longrightarrow> first_look aid P (look # looks)"
  unfolding first_look_def by (intro exI [of _ "[]"] exI [of _ "fst look"] exI [of _ "snd look"]
      exI [of _ looks]) simp

lemma first_look_later: "still_open aid look \<Longrightarrow> first_look aid P looks \<Longrightarrow> first_look aid P (look # looks)"
  unfolding first_look_def by (metis append_Cons list.pred_inject(2))

definition wait_result ::
  "string \<Rightarrow> (call_env \<times> 'z approval_db_scheme) list \<Rightarrow> approval_resolution option audit_result \<Rightarrow> bool" where
  "wait_result aid looks res \<longleftrightarrow>
     (case res of
        Inl e \<Rightarrow> first_look aid (\<lambda>env l. look_fails env e) looks
      | Inr (Some r) \<Rightarrow> first_look aid (\<lambda>env l. resolution_of aid r l) looks
      | Inr None \<Rightarrow> list_all (still_open aid) looks)"

lemma wait_result_here:
  "look_fails (fst look) e \<Longrightarrow> wait_result aid (look # looks) (Inl e)"
  "resolution_of aid r (snd look) \<Longrightarrow> wait_result aid (look # looks) (Inr (Some r))"
  by (simp_all add: wait_result_def first_look_here)

lemma wait_result_later:
  "still_open aid look \<Longrightarrow> wait_result aid looks res \<Longrightarrow> wait_result aid (look # looks) res"
  by (auto simp: wait_result_def intro: first_look_later split: sum.splits option.splits)

lemma wait_slices_result:
  assumes "list_all (\<lambda>look. approval_db_ok (snd look)) (looks @ [final])"
  shows "wait_result aid (looks @ [final]) (wait_slices aid looks final)"
  using assms
proof (induction looks)
  case Nil
  then have ok: "approvals_wf (led_approvals (snd final))" "slots_sound (snd final)"
    by (simp_all add: approval_db_ok_def)
  show ?case
  proof (cases "slot_value aid (snd final)")
    case None
    have "wait_result aid [] (Inr None)" by (simp add: wait_result_def)
    then show ?thesis
      using None
      by (cases rule: current_resolution_cases [OF ok(1), where aid = aid and env = "fst final"])
        (auto intro: wait_result_here wait_result_later)
  qed (use slot_resolution [OF ok(2)] in \<open>simp add: wait_result_here(2)\<close>)
next
  case (Cons look looks)
  then have ok: "approvals_wf (led_approvals (snd look))" "slots_sound (snd look)"
    and IH: "wait_result aid (looks @ [final]) (wait_slices aid looks final)"
    by (simp_all add: approval_db_ok_def)
  show ?case
  proof (cases "slot_value aid (snd look)")
    case None
    then show ?thesis
      using IH
      by (cases rule: current_resolution_cases [OF ok(1), where aid = aid and env = "fst look"])
        (auto intro: wait_result_here wait_result_later)
  qed (use slot_resolution [OF ok(2)] in \<open>simp add: wait_result_here(2)\<close>)
qed

section \<open>Properties\<close>

definition empty_db :: approval_db where
  "empty_db = ledger.extend empty_ledger \<lparr>led_approvals = [], led_slots = []\<rparr>"

lemma empty_db_simps [simp]: "led_approvals empty_db = []" "led_slots empty_db = []"
  by (simp_all add: empty_db_def ledger.defs)

text \<open>Concrete inputs: a total canonical form, one request, one approval of it for the session.\<close>

definition witness_qx :: ledger_externs where
  "witness_qx = witness_lx\<lparr>lx_jcs := (\<lambda>_. Some ''{}'')\<rparr>"

definition witness_decision :: decision_record where
  "witness_decision =
     \<lparr>dr_decision_id = ''d'', dr_invocation_id = ''i'', dr_decision = DK_Approve, dr_risk_score = 5,
      dr_reasons = [], dr_policy_ids = [], dr_created_at = 7\<rparr>"

definition witness_target :: approval_target_context where
  "witness_target = \<lparr>tc_server_id = Some ''srv'', tc_tool_name = Some ''t'', tc_args_hash = Some ''h''\<rparr>"

definition witness_create :: approval_op where
  "witness_create = Op_create witness_env witness_env ''s'' witness_decision effect_vector_default
     ''a'' ''b'' 9 witness_target"

definition witness_approve :: approval_op where
  "witness_approve = Op_approve witness_env witness_env ''u-1'' ThisSession (Some ''me'')"

definition witness_pending :: approval_row where
  "witness_pending =
     \<lparr>a_approval_id = ''p'', a_decision_id = ''d'', a_invocation_id = ''i'', a_session_id = ''s'',
      a_title = ''a'', a_summary = ''b'', a_effect_json = ''{}'', a_status = ''Pending'', a_scope = None,
      a_args_hash = None, a_server_id = None, a_tool_name = None, a_expires_at = 3, a_created_at = 1,
      a_resolved_at = None, a_resolved_by = None\<rparr>"

definition witness_db :: "approval_row list \<Rightarrow> approval_db" where
  "witness_db rs = empty_db\<lparr>led_approvals := rs\<rparr>"

lemma witness_db_simps [simp]: "led_approvals (witness_db rs) = rs" "led_slots (witness_db rs) = []"
  by (simp_all add: witness_db_def)

lemma witness_db_ok: "list_all approval_row_ok rs \<Longrightarrow> distinct (map a_approval_id rs) \<Longrightarrow>
    approval_db_ok (witness_db rs)"
  by (simp add: approval_db_ok_def approvals_wf_def slots_sound_def)

lemma witness_pending_ok: "approval_row_ok witness_pending"
  by (simp add: approval_row_ok_def witness_pending_def)

text \<open>
  C18. Once an approval is resolved, no sequence of creations, approvals, denials, cancellations
  and sweeps, by whatever processes, failing or not, changes anything of its row: the first
  resolution is final.
\<close>

theorem resolution_is_final:
  assumes "find_approval aid l = Some r" "a_status r \<noteq> ''Pending''"
  shows "find_approval aid (run_ops x ops l) = Some r"
  using run_ops_find [OF assms(1), of x ops] row_evolves_terminal [OF _ assms(2)] by blast

theorem resolution_is_final_witness:
  defines "r \<equiv> expire_row 4 witness_pending"
  shows "find_approval ''p'' (run_ops witness_qx [Op_approve witness_env witness_env ''p'' Once None,
      Op_sweep witness_env []] (witness_db [r])) = Some r"
  by (rule resolution_is_final) (simp_all add: r_def find_approval_def expire_row_def witness_pending_def)

text \<open>
  Every sequence of operations keeps the approvals table well formed: ids are unique, every
  status is one of the five names, a row has a resolution time exactly when it is no longer
  pending, and a scope exactly when it is approved; and every resolution published to waiting
  threads of the process carries the terminal status its row has.
\<close>

lemma approvals_stay_ok:
  assumes "approval_db_ok l"
  shows "approval_db_ok (run_ops x ops l)"
  using assms by (induction ops arbitrary: l) (auto simp: run_ops_def run_op_keeps_ok)

lemma approvals_stay_ok_example:
  "approval_db_ok (run_ops witness_qx [witness_create, witness_approve] (witness_db [witness_pending]))"
  by (rule approvals_stay_ok) (simp add: witness_db_ok witness_pending_ok)

text \<open>
  C20. A hit of the session-scope lookup, after any history on a fresh database, is backed by that
  history: some creation made the hit approval for exactly this session, server, tool and
  argument hash, with an expiry still in the future, and some approval of that id was given with
  the scope \<open>ThisSession\<close>. No other scope and no denial ever lets a later call pass.
\<close>

theorem session_allow_was_granted:
  assumes "find_session_scope_allow env tie sid server tool args_hash (run_ops x ops empty_db) =
    Inr (Some res)"
  shows "\<exists>r. a_approval_id r = res_approval_id res \<and> a_session_id r = sid \<and>
    a_server_id r = Some server \<and> a_tool_name r = Some tool \<and> a_args_hash r = Some args_hash \<and>
    a_expires_at r > ce_now env \<and> list_ex (\<lambda>op. created_by op r) ops \<and>
    list_ex (grants_session (res_approval_id res)) ops"
proof -
  obtain r where r: "r \<in> set (scope_rows (ce_now env) sid server tool args_hash (run_ops x ops empty_db))"
    "a_approval_id r = res_approval_id res" using scope_hit [OF assms] .
  moreover have "list_all (accounted ops) (led_approvals (run_ops x ops empty_db))"
    using grants.run_ops_history [of "[]" empty_db ops x] by simp
  ultimately show ?thesis by (intro exI [of _ r]) (auto simp: scope_rows_def accounted_def list_all_iff)
qed


theorem session_allow_was_granted_witness:
  "list_ex (grants_session ''u-1'') [witness_create, witness_approve]"
proof -
  have "find_session_scope_allow witness_env 0 ''s'' ''srv'' ''t'' ''h''
      (run_ops witness_qx [witness_create, witness_approve] empty_db) =
    Inr (Some \<lparr>res_approval_id = ''u-1'', res_invocation_id = ''i'', res_status = AS_Approved,
      res_scope = Some ThisSession, res_resolved_by = Some ''me'', res_resolved_at = 7\<rparr>)"
    by code_simp
  from session_allow_was_granted [OF this] show ?thesis by auto
qed

text \<open>
  A sweep that succeeds returns one resolution per expired pending approval, in table order,
  marks exactly those rows \<open>Expired\<close> (no scope, resolver \<open>auto-expired\<close>), leaves every other row
  as it was, and leaves nothing for a second sweep at the same time.
\<close>

lemma sweep_expires_exactly:
  assumes "sweep_expired x env envs l = (Inr out, l')" "approvals_wf (led_approvals l)"
  shows "map res_approval_id out = expired_ids (ce_now env) l \<and>
    list_all2 (\<lambda>r r'. if a_status r = ''Pending'' \<and> a_expires_at r \<le> ce_now env
                      then \<exists>at. r' = expire_row at r else r' = r)
      (led_approvals l) (led_approvals l') \<and>
    expired_ids (ce_now env) l' = []"
proof -
  have sw: "sweep_ids x envs (expired_ids (ce_now env) l) l = (Inr out, l')"
    using assms(1) by (auto simp: sweep_expired_def split: if_splits)
  let ?R = "\<lambda>r r'. if a_status r = ''Pending'' \<and> a_expires_at r \<le> ce_now env
                    then \<exists>at. r' = expire_row at r else r' = r"
  have rows: "list_all2 ?R (led_approvals l) (led_approvals l')"
  proof (rule list.rel_mono_strong [OF conjunct2 [OF sweep_ids_ok [OF sw]]])
    fix r r'
    assume "r \<in> set (led_approvals l)"
      "if a_status r = ''Pending'' \<and> a_approval_id r \<in> set (expired_ids (ce_now env) l)
       then \<exists>now. r' = expire_row now r else r' = r"
    then show "?R r r'"
      using expired_ids_iff [of l r "ce_now env"] assms(2)
      by (cases "a_status r = ''Pending''") (simp_all add: approvals_wf_def)
  qed
  have "list_all (\<lambda>r. \<not> (a_status r = ''Pending'' \<and> a_expires_at r \<le> ce_now env)) (led_approvals l')"
    by (rule list_all2_right [OF rows]) (auto simp: expire_row_def split: if_splits)
  then have "expired_ids (ce_now env) l' = []"
    by (simp add: expired_ids_def filter_empty_conv list_all_iff)
  with rows sweep_ids_ok [OF sw] show ?thesis by blast
qed

lemma sweep_expires_exactly_example:
  defines "l \<equiv> witness_db [witness_pending]"
  defines "r \<equiv> sweep_expired witness_qx witness_env [(witness_env, witness_env)] l"
  shows "(case fst r of Inr out \<Rightarrow> map res_approval_id out = [''p''] | Inl _ \<Rightarrow> False) \<and>
    expired_ids 7 (snd r) = []"
proof -
  have "case fst r of Inr out \<Rightarrow> map res_approval_id out = [''p''] | Inl _ \<Rightarrow> False"
    unfolding r_def l_def by code_simp
  then obtain out where out: "fst r = Inr out" "map res_approval_id out = [''p'']"
    by (cases "fst r") auto
  then have "sweep_expired witness_qx witness_env [(witness_env, witness_env)] l = (Inr out, snd r)"
    by (metis prod.collapse r_def)
  from sweep_expires_exactly [OF this] show ?thesis
    using out by (simp add: l_def approvals_wf_def witness_pending_ok witness_env_def)
qed

text \<open>
  What \<open>create_approval\<close> returns is what \<open>get_approval\<close> reads back, the two free texts in their
  scrubbed form, whenever the scrubbed effects still read as the effects they were written from.
\<close>

lemma created_approval_reads_back:
  assumes "create_approval x env env2 sid d ev title summary ttl ctx l = (Inr req, l')"
    "lx_effects_to_string x ev = Some effect_json"
    "lx_effects_from_str x (scrub_text (lx_redact x) effect_json) = Some ev"
  shows "get_approval x (ar_approval_id req) l' =
    Inr (Some (req\<lparr>ar_title := scrub_text (lx_redact x) title,
                   ar_summary := scrub_text (lx_redact x) summary\<rparr>))"
proof -
  let ?row = "\<lparr>a_approval_id = ce_uuid env, a_decision_id = dr_decision_id d,
     a_invocation_id = dr_invocation_id d, a_session_id = sid,
     a_title = scrub_text (lx_redact x) title, a_summary = scrub_text (lx_redact x) summary,
     a_effect_json = scrub_text (lx_redact x) effect_json,
     a_status = ''Pending'', a_scope = None, a_args_hash = tc_args_hash ctx,
     a_server_id = tc_server_id ctx, a_tool_name = tc_tool_name ctx,
     a_expires_at = approval_expiry (ce_now env) ttl, a_created_at = ce_now env,
     a_resolved_at = None, a_resolved_by = None\<rparr>"
  have fresh: "ce_uuid env \<notin> a_approval_id ` set (led_approvals l)" "\<not> ce_lock_poisoned env"
    "\<not> ce_exec_fault env"
    using assms(1,2) by (auto simp: create_approval_def Let_def split: if_splits)
  have req: "req = \<lparr>ar_approval_id = ce_uuid env, ar_decision_id = dr_decision_id d,
     ar_invocation_id = dr_invocation_id d, ar_session_id = sid, ar_title = title,
     ar_summary = summary, ar_effect_vector = ev, ar_expires_at = approval_expiry (ce_now env) ttl,
     ar_status = AS_Pending\<rparr>"
    using assms(1,2) by (auto simp: create_approval_def Let_def split: if_splits sum.splits prod.splits)
  have "led_approvals (snd (create_approval x env env2 sid d ev title summary ttl ctx l)) =
      led_approvals l @ [?row]"
    using assms(2) fresh
    by (simp add: create_approval_def Let_def snd_case_record [where f = "\<lambda>l. l"] split: sum.splits)
  then have "led_approvals l' = led_approvals l @ [?row]" by (simp add: assms(1))
  then have "find_approval (ce_uuid env) l' = Some ?row"
    unfolding find_approval_def by (simp add: find_snoc_fresh fresh)
  then show ?thesis
    by (simp add: get_approval_def row_request_def req assms(3) parse_status_def)
qed

lemma created_approval_reads_back_example:
  defines "r \<equiv> create_approval witness_qx witness_env witness_env ''s'' witness_decision
    effect_vector_default ''a'' ''b'' 9 witness_target empty_db"
  shows "case fst r of
      Inl _ \<Rightarrow> False
    | Inr req \<Rightarrow> get_approval witness_qx (ar_approval_id req) (snd r) =
        Inr (Some (req\<lparr>ar_title := scrub_text witness_redact ''a'',
                       ar_summary := scrub_text witness_redact ''b''\<rparr>))"
proof -
  have "case fst r of Inl _ \<Rightarrow> False | Inr _ \<Rightarrow> True" unfolding r_def by code_simp
  then obtain req where req: "fst r = Inr req" by (cases "fst r") auto
  then have eq: "create_approval witness_qx witness_env witness_env ''s'' witness_decision
    effect_vector_default ''a'' ''b'' 9 witness_target empty_db = (Inr req, snd r)"
    by (metis prod.collapse r_def)
  have "lx_effects_to_string witness_qx effect_vector_default = Some ''{}''"
    "lx_effects_from_str witness_qx (scrub_text (lx_redact witness_qx) ''{}'') = Some effect_vector_default"
    by code_simp+
  from created_approval_reads_back [OF eq this] show ?thesis
    using req by (simp add: witness_qx_def witness_lx_def)
qed

text \<open>
  A resolution whose row has effects that no longer read as JSON fails with the JSON error,
  and the row is resolved all the same: the status, the scope and the resolver are committed,
  while no \<open>approval.resolved\<close> event is appended and no waiting thread is told. The caller sees
  an error for an approval that the session-scope lookup and later readers treat as given.
\<close>

lemma unreadable_effects_resolve_silently:
  assumes "find_approval aid l = Some r" "a_status r = ''Pending''"
    "lx_effects_from_str x (a_effect_json r) = None"
    "\<not> ce_lock_poisoned env" "\<not> ce_exec_fault env"
  shows "\<exists>l'. resolve x env env2 aid t sc by l = (Inl Json, l') \<and>
    find_approval aid l' = Some (resolve_row t sc by (ce_now env) r) \<and>
    led_events l' = led_events l \<and> led_slots l' = led_slots l"
proof -
  let ?l' = "l\<lparr>led_approvals := resolve_rows aid t sc by (ce_now env) (led_approvals l)\<rparr>"
  have "is_pending aid r" using find_in_rows [OF assms(1)] assms(2) by (simp add: is_pending_def)
  then have f: "find_approval aid ?l' = Some (resolve_row t sc by (ce_now env) r)"
    using assms(1) by (simp add: find_approval_def find_resolve_rows)
  then have "get_approval x aid ?l' = Inl Json"
    using assms(3) by (simp add: get_approval_def row_request_def)
  then have "resolve x env env2 aid t sc by l = (Inl Json, ?l')"
    using assms(4,5) unfolding resolve_def Let_def resolve_rows_def [symmetric] by simp
  with f show ?thesis by simp
qed


lemma unreadable_effects_resolve_silently_example:
  defines "r \<equiv> witness_pending\<lparr>a_effect_json := ''[REDACTED pem_private_key]''\<rparr>"
  shows "\<exists>l'. resolve witness_qx witness_env witness_env ''p'' AS_Approved (Some ThisSession) None
      (witness_db [r]) = (Inl Json, l') \<and>
    find_approval ''p'' l' = Some (resolve_row AS_Approved (Some ThisSession) None (ce_now witness_env) r) \<and>
    led_events l' = led_events (witness_db [r]) \<and> led_slots l' = led_slots (witness_db [r])"
  by (rule unreadable_effects_resolve_silently)
    (simp_all add: find_approval_def r_def witness_pending_def witness_qx_def witness_lx_def witness_env_def)

text \<open>
  C39. A wait returns what the first look shows that shows anything: the looks are those at entry,
  after every slice and after the deadline, each with its own environment. The wait returns an
  error only when a look failed on the lock or on the query, a resolution only when the row, or the
  slot kept for it, has that terminal status in the ledger of that look, and in both cases every
  look before it worked and showed a row that was pending or missing. It returns nothing only when
  all looks did so.
\<close>

theorem wait_sees_every_resolution:
  assumes "list_all (\<lambda>look. approval_db_ok (snd look)) (entry # slices @ [final])"
  shows "case wait_for_resolution aid entry slices final of
      Inl e \<Rightarrow> first_look aid (\<lambda>env l. look_fails env e) (entry # slices @ [final])
    | Inr (Some res) \<Rightarrow> first_look aid (\<lambda>env l. resolution_of aid res l) (entry # slices @ [final])
    | Inr None \<Rightarrow> list_all (still_open aid) (entry # slices @ [final])"
  unfolding wait_result_def [symmetric]
proof -
  have "approvals_wf (led_approvals (snd entry))" using assms by (simp add: approval_db_ok_def)
  then show "wait_result aid (entry # slices @ [final]) (wait_for_resolution aid entry slices final)"
    using wait_slices_result [of slices final aid] assms
    by (cases rule: current_resolution_cases [where aid = aid and env = "fst entry"])
      (auto simp: wait_for_resolution_def intro: wait_result_here wait_result_later)
qed

text \<open>The approval expires between two looks of the wait; and a database that cannot be read.\<close>

theorem wait_sees_every_resolution_witness:
  defines "l0 \<equiv> witness_db [witness_pending]" and "l1 \<equiv> witness_db [expire_row 4 witness_pending]"
  defines "looks \<equiv> [(witness_env, l0), (witness_env, l0), (witness_env, l1), (witness_env, l1)]"
  shows "(case wait_for_resolution ''p'' (witness_env, l0) [(witness_env, l0), (witness_env, l1)]
             (witness_env, l1) of
      Inl e \<Rightarrow> first_look ''p'' (\<lambda>env l. look_fails env e) looks
    | Inr (Some res) \<Rightarrow> first_look ''p'' (\<lambda>env l. resolution_of ''p'' res l) looks
    | Inr None \<Rightarrow> list_all (still_open ''p'') looks) \<and>
    wait_for_resolution ''p'' (witness_env\<lparr>ce_exec_fault := True\<rparr>, l1) [] (witness_env, l1) = Inl Sqlite"
proof
  have "approval_row_ok (expire_row 4 witness_pending)"
    by (simp add: approval_row_ok_def expire_row_def parse_status_def)
  then have "list_all (\<lambda>look. approval_db_ok (snd look))
      ((witness_env, l0) # [(witness_env, l0), (witness_env, l1)] @ [(witness_env, l1)])"
    by (simp add: l0_def l1_def witness_db_ok witness_pending_ok)
  from wait_sees_every_resolution [OF this, of "''p''", unfolded append_Cons append_Nil]
  show "case wait_for_resolution ''p'' (witness_env, l0) [(witness_env, l0), (witness_env, l1)]
             (witness_env, l1) of
      Inl e \<Rightarrow> first_look ''p'' (\<lambda>env l. look_fails env e) looks
    | Inr (Some res) \<Rightarrow> first_look ''p'' (\<lambda>env l. resolution_of ''p'' res l) looks
    | Inr None \<Rightarrow> list_all (still_open ''p'') looks"
    unfolding looks_def .
qed (simp add: wait_for_resolution_def current_resolution_def witness_env_def)

end
