(* ===== verification/Firewall.thy ===== *)
theory Firewall
  imports Policy Scorer Scan Approvals
begin

text \<open>
  The firewall (crate \<open>vigil-firewall\<close>): the preflight scan of the long argument texts
  (\<open>preflight.rs\<close>) and the whole evaluation of a tool call (\<open>engine.rs\<close>), which composes effect
  extraction, risk scoring, preflight, the policy engine, the decision record and the approval.

  A scanner is a function from a text to an error or a result with a status. The state is the
  database and the counter of audit writes that failed. \<open>nat \<Rightarrow> nat \<Rightarrow> call_env\<close> gives the
  environment of each redaction write: that of the scan row of the \<open>i\<close>-th text at \<open>(i, 0)\<close>, that
  of its \<open>j\<close>-th finding at \<open>(i, j + 1)\<close>.
\<close>

section \<open>Preflight\<close>

datatype engine_status_report = SR_Ok | SR_DegradedTimeout | SR_DegradedError | SR_Unsupported

fun stable_code :: "engine_status_report \<Rightarrow> string" where
  "stable_code SR_Ok = ''ok''"
| "stable_code SR_DegradedTimeout = ''degraded_timeout''"
| "stable_code SR_DegradedError = ''degraded_error''"
| "stable_code SR_Unsupported = ''unsupported''"

fun report_of_status :: "engine_status \<Rightarrow> engine_status_report" where
  "report_of_status ES_Ok = SR_Ok"
| "report_of_status ES_DegradedTimeout = SR_DegradedTimeout"
| "report_of_status ES_DegradedError = SR_DegradedError"

type_synonym pii_scanner = "string \<Rightarrow> scan_error + redaction_result \<times> engine_status_report"

text \<open>\<open>PiiScanner::scan_with_status\<close> of a scanner that only implements \<open>scan\<close>.\<close>

definition unreported :: "(string \<Rightarrow> scan_error + redaction_result) \<Rightarrow> pii_scanner" where
  "unreported scan text = map_sum id (\<lambda>r. (r, SR_Unsupported)) (scan text)"

definition default_scanner :: "redact_externs \<Rightarrow> pii_scanner" where
  "default_scanner x = unreported (scan_text x)"

definition ort_pii_scanner :: "redact_externs \<Rightarrow> engine \<Rightarrow> pii_scanner" where
  "ort_pii_scanner x infer = unreported (\<lambda>text. scan_text_with_engine x text infer)"

definition budgeted_ort_pii_scanner ::
  "redact_externs \<Rightarrow> (string \<Rightarrow> (string + finding list) option) \<Rightarrow> pii_scanner" where
  "budgeted_ort_pii_scanner x answer text =
     map_sum id (\<lambda>o'. (bo_result o', report_of_status (bo_status o')))
       (scan_text_with_engine_budgeted x text (answer text))"

fun walk :: "nat \<Rightarrow> json \<Rightarrow> string list"
  and walk_members :: "nat \<Rightarrow> (string \<times> json) list \<Rightarrow> string list"
  and walk_items :: "nat \<Rightarrow> json list \<Rightarrow> string list" where
  "walk threshold (JString s) = (if length s \<ge> threshold then [s] else [])"
| "walk threshold (JArray xs) = walk_items threshold xs"
| "walk threshold (JObject m) = walk_members threshold m"
| "walk threshold _ = []"
| "walk_members threshold [] = []"
| "walk_members threshold (kv # m) = walk threshold (snd kv) @ walk_members threshold m"
| "walk_items threshold [] = []"
| "walk_items threshold (v # vs) = walk threshold v @ walk_items threshold vs"

definition extract_long_text_fields :: "json \<Rightarrow> nat \<Rightarrow> string list" where
  "extract_long_text_fields args threshold = walk threshold args"

definition hex_digit :: "nat \<Rightarrow> char" where
  "hex_digit n = (if n < 10 then char_of (48 + n) else char_of (87 + n))"

definition sha256_prefix16_hex :: "ledger_externs \<Rightarrow> string \<Rightarrow> string" where
  "sha256_prefix16_hex x bytes =
     concat (map (\<lambda>b. let n = of_char b :: nat in [hex_digit (n div 16), hex_digit (n mod 16)])
       (take 16 (lx_sha256 x bytes)))"

fun persist_findings ::
  "ledger_externs \<Rightarrow> (nat \<Rightarrow> call_env) \<Rightarrow> string \<Rightarrow> string \<Rightarrow> nat \<Rightarrow> finding list \<Rightarrow> 'z ledger_scheme
   \<Rightarrow> unit audit_result \<times> 'z ledger_scheme" where
  "persist_findings x env scan_id text j [] l = (Inr (), l)"
| "persist_findings x env scan_id text j (f # fs) l =
     (case from_kind (f_kind f) of
        None \<Rightarrow> persist_findings x env scan_id text (j + 1) fs l
      | Some label \<Rightarrow>
          if \<not> span_in_text text f then persist_findings x env scan_id text (j + 1) fs l
          else
            (case insert_redaction_finding (env (j + 1))
                    \<lparr>nf_scan_id = scan_id, nf_label = label_as_str label, nf_offset = fst (f_span f),
                     nf_fingerprint = sha256_prefix16_hex x (str_slice text (fst (f_span f)) (snd (f_span f))),
                     nf_action_taken = ''redacted''\<rparr> l of
               (Inl e, l') \<Rightarrow> (Inl e, l')
             | (Inr _, l') \<Rightarrow> persist_findings x env scan_id text (j + 1) fs l'))"

definition persist_scan_to_ledger ::
  "ledger_externs \<Rightarrow> (nat \<Rightarrow> call_env) \<Rightarrow> string \<Rightarrow> string \<Rightarrow> redaction_result \<Rightarrow> 'z ledger_scheme
   \<Rightarrow> unit audit_result \<times> 'z ledger_scheme" where
  "persist_scan_to_ledger x env sid text result l =
     (case insert_redaction_scan (env 0)
             \<lparr>ns_session_id = sid, ns_source = ''tool_arg'', ns_text_length = length text,
              ns_fingerprint = sha256_prefix16_hex x text\<rparr> l of
        (Inl e, l') \<Rightarrow> (Inl e, l')
      | (Inr scan_id, l') \<Rightarrow> persist_findings x env scan_id text 0 (rr_findings result) l')"

text \<open>The maps from label names to counts, and the loop state of \<open>run_preflight\<close>.\<close>

type_synonym label_counts = "string \<Rightarrow> u32 option"

record preflight_state =
  ps_by_label :: label_counts
  ps_total_risk_delta :: u32
  ps_worst_status :: engine_status_report
  ps_audit_failures :: u64

definition add_label_counts :: "label_counts \<Rightarrow> (privacy_label \<Rightarrow> u32 option) \<Rightarrow> label_counts" where
  "add_label_counts by_label counts =
     foldl (\<lambda>m label. case counts label of
                        None \<Rightarrow> m
                      | Some cnt \<Rightarrow> m(label_as_str label \<mapsto>
                          (case m (label_as_str label) of None \<Rightarrow> 0 | Some n \<Rightarrow> n) + cnt))
       by_label label_ALL"

fun status_rank :: "engine_status_report \<Rightarrow> nat" where
  "status_rank SR_DegradedError = 3"
| "status_rank SR_DegradedTimeout = 2"
| "status_rank SR_Ok = 1"
| "status_rank SR_Unsupported = 0"

definition elevate_status ::
  "engine_status_report \<Rightarrow> engine_status_report \<Rightarrow> engine_status_report" where
  "elevate_status a b = (if status_rank a \<ge> status_rank b then a else b)"

fun preflight_loop ::
  "ledger_externs \<Rightarrow> pii_scanner \<Rightarrow> (nat \<Rightarrow> nat \<Rightarrow> call_env) \<Rightarrow> string \<Rightarrow> nat \<Rightarrow> string list
   \<Rightarrow> preflight_state \<Rightarrow> 'z ledger_scheme \<Rightarrow> (string + unit) \<times> preflight_state \<times> 'z ledger_scheme" where
  "preflight_loop x scanner env sid i [] st l = (Inr (), st, l)"
| "preflight_loop x scanner env sid i (text # texts) st l =
     (case scanner text of
        Inr (result, status) \<Rightarrow>
          (let sig = rr_risk_signals result;
               (res, l') = persist_scan_to_ledger x (env i) sid text result l
           in preflight_loop x scanner env sid (i + 1) texts
                \<lparr>ps_by_label = add_label_counts (ps_by_label st) (rs_counts_by_label sig),
                 ps_total_risk_delta =
                   saturating_add_u32 (ps_total_risk_delta st) (rs_total_risk_delta sig),
                 ps_worst_status = elevate_status (ps_worst_status st) status,
                 ps_audit_failures =
                   ps_audit_failures st + (case res of Inl _ \<Rightarrow> 1 | Inr _ \<Rightarrow> 0)\<rparr> l')
      | Inl EmptyInput \<Rightarrow> preflight_loop x scanner env sid (i + 1) texts st l
      | Inl (InferenceFailed _) \<Rightarrow> (Inl ''t0_inference_failed'', st, l))"

record preflight_outcome =
  pf_pii_summary :: "pii_finding_summary list"
  pf_risk_delta :: u32
  pf_engine_status :: engine_status_report

definition summary_of :: "label_counts \<Rightarrow> pii_finding_summary list" where
  "summary_of m =
     concat (map (\<lambda>s. case m s of None \<Rightarrow> [] | Some n \<Rightarrow> [\<lparr>pf_label = s, pf_count = n\<rparr>])
       (sort (map label_as_str label_ALL)))"

definition counts_csv :: "preflight_outcome \<Rightarrow> string" where
  "counts_csv p =
     str_join '','' (map (\<lambda>s. pf_label s @ ''='' @ show_nat (unat (pf_count s))) (pf_pii_summary p))"

definition run_preflight ::
  "ledger_externs \<Rightarrow> pii_scanner \<Rightarrow> (nat \<Rightarrow> nat \<Rightarrow> call_env) \<Rightarrow> u64 \<Rightarrow> string \<Rightarrow> json \<Rightarrow> nat
   \<Rightarrow> 'z ledger_scheme \<Rightarrow> (string + preflight_outcome) \<times> u64 \<times> 'z ledger_scheme" where
  "run_preflight x scanner env failures sid args threshold l =
     (case preflight_loop x scanner env sid 0 (extract_long_text_fields args threshold)
             \<lparr>ps_by_label = (\<lambda>_. None), ps_total_risk_delta = 0, ps_worst_status = SR_Unsupported,
              ps_audit_failures = failures\<rparr> l of
        (Inl reason, st, l') \<Rightarrow> (Inl reason, ps_audit_failures st, l')
      | (Inr _, st, l') \<Rightarrow>
          (Inr \<lparr>pf_pii_summary = summary_of (ps_by_label st),
                pf_risk_delta = ps_total_risk_delta st,
                pf_engine_status = ps_worst_status st\<rparr>, ps_audit_failures st, l'))"

section \<open>Evaluation\<close>

datatype firewall_error =
    FE_Policy policy_error
  | FE_Audit audit_error
  | ReservedScopeKey
  | PreflightScanFailed string

record firewall_config =
  fc_project_roots :: "string list"
  fc_allowed_hosts :: "string list"
  fc_allowed_scopes :: "(string \<times> string list) list"
  fc_approval_ttl_secs :: u64
  fc_long_text_threshold :: nat

definition firewall_config_default :: firewall_config where
  "firewall_config_default =
     \<lparr>fc_project_roots = [], fc_allowed_hosts = [], fc_allowed_scopes = [], fc_approval_ttl_secs = 300,
      fc_long_text_threshold = 100\<rparr>"

datatype oauth_scope_context = NonOauth | Scopes "string list"

fun into_policy_requested_scopes :: "oauth_scope_context \<Rightarrow> string list option" where
  "into_policy_requested_scopes NonOauth = None"
| "into_policy_requested_scopes (Scopes s) = Some s"

datatype firewall_outcome =
    Allowed decision_record effect_vector
  | Denied decision_record effect_vector
  | ApproveOutcome decision_record effect_vector approval_request

fun outcome_decision_kind :: "firewall_outcome \<Rightarrow> decision_kind" where
  "outcome_decision_kind (Allowed _ _) = DK_Allow"
| "outcome_decision_kind (Denied _ _) = DK_Deny"
| "outcome_decision_kind (ApproveOutcome _ _ _) = DK_Approve"

fun outcome_effects :: "firewall_outcome \<Rightarrow> effect_vector" where
  "outcome_effects (Allowed _ e) = e"
| "outcome_effects (Denied _ e) = e"
| "outcome_effects (ApproveOutcome _ e _) = e"

fun outcome_decision :: "firewall_outcome \<Rightarrow> decision_record" where
  "outcome_decision (Allowed d _) = d"
| "outcome_decision (Denied d _) = d"
| "outcome_decision (ApproveOutcome d _ _) = d"

record firewall =
  fw_policy :: policy_engine
  fw_scorer :: risk_scorer
  fw_config :: firewall_config
  fw_scanner :: pii_scanner

definition with_scanner :: "policy_engine \<Rightarrow> firewall_config \<Rightarrow> pii_scanner \<Rightarrow> firewall" where
  "with_scanner policy config scanner =
     \<lparr>fw_policy = policy,
      fw_scorer = risk_scorer_new (fc_allowed_hosts config) (fc_project_roots config),
      fw_config = config, fw_scanner = scanner\<rparr>"

definition firewall_new :: "redact_externs \<Rightarrow> policy_engine \<Rightarrow> firewall_config \<Rightarrow> firewall" where
  "firewall_new x policy config = with_scanner policy config (default_scanner x)"

definition RESERVED_ALLOWLIST_KEYS :: "string list" where
  "RESERVED_ALLOWLIST_KEYS = [''allowed_hosts'']"

fun descriptor_state_of :: "descriptor_status \<Rightarrow> descriptor_state" where
  "descriptor_state_of DS_ApprovedStable = ApprovedStable"
| "descriptor_state_of DS_FirstSeen = FirstSeen"
| "descriptor_state_of DS_Drifted = Drifted"

fun map_action :: "policy_action \<Rightarrow> decision_kind" where
  "map_action PA_Allow = DK_Allow"
| "map_action PA_Deny = DK_Deny"
| "map_action PA_Approve = DK_Approve"

definition merge_reasons :: "string list \<Rightarrow> string list \<Rightarrow> string list" where
  "merge_reasons score_reasons policy_reasons = score_reasons @ policy_reasons"

definition summarize :: "tool_invocation \<Rightarrow> effect_vector \<Rightarrow> decision_record \<Rightarrow> string \<times> string" where
  "summarize call effects dec =
     (ti_tool_name call @ '' on '' @ ti_server_id call,
      str_join '' | ''
        ([''risk '' @ show_nat (unat (dr_risk_score dec)) @ ''/100''] @
         (if ev_paths_write effects = [] then []
          else [''writes: '' @ str_join '', '' (ev_paths_write effects)]) @
         (if ev_paths_read effects = [] then []
          else [''reads: '' @ show_nat (length (ev_paths_read effects))]) @
         (if ev_network_hosts effects = [] then []
          else [''hosts: '' @ str_join '', '' (ev_network_hosts effects)]) @
         (if ev_secret_refs effects = [] then []
          else [''secrets: '' @ str_join '', '' (ev_secret_refs effects)]) @
         (if ev_recipients effects = [] then []
          else [''recipients: '' @ show_nat (length (ev_recipients effects))])))"

definition compute_args_hash :: "ledger_externs \<Rightarrow> json \<Rightarrow> firewall_error + string" where
  "compute_args_hash x args =
     (case lx_jcs x args of
        None \<Rightarrow> Inl (FE_Audit Json)
      | Some bytes \<Rightarrow> Inr (lx_hex_encode x (lx_sha256 x bytes)))"

text \<open>\<open>(base as u32).saturating_add(delta).min(100) as u8\<close>.\<close>

definition risk_with_pii :: "u8 \<Rightarrow> u32 \<Rightarrow> u8" where
  "risk_with_pii base delta = ucast (min (saturating_add_u32 (ucast base) delta) 100)"

definition evaluation_context ::
  "firewall_config \<Rightarrow> u8 \<Rightarrow> descriptor_status \<Rightarrow> oauth_scope_context \<Rightarrow> pii_finding_summary list
   \<Rightarrow> policy_context" where
  "evaluation_context config risk descriptor scope_ctx pii =
     (policy_context_default
       \<lparr>pc_risk_score := risk, pc_descriptor := descriptor_state_of descriptor,
        pc_requested_scopes := into_policy_requested_scopes scope_ctx, pc_pii_findings := pii,
        pc_roots := [''project_roots'' \<mapsto> fc_project_roots config],
        pc_allowlists :=
          foldl (\<lambda>m (k, v). m(k \<mapsto> v)) [''allowed_hosts'' \<mapsto> fc_allowed_hosts config]
            (fc_allowed_scopes config)\<rparr>)"

definition preflight_reason :: "u8 \<Rightarrow> u32 \<Rightarrow> u8 \<Rightarrow> preflight_outcome \<Rightarrow> string" where
  "preflight_reason base delta final p =
     ''preflight: base_risk='' @ show_nat (unat base) @ '' pii_delta='' @ show_nat (unat delta) @
     '' final='' @ show_nat (unat final) @ '' labels='' @
     (if pf_pii_summary p = [] then ''(none)'' else counts_csv p)"

definition degraded_status :: "engine_status_report \<Rightarrow> engine_status_report option" where
  "degraded_status s = (if s = SR_DegradedTimeout \<or> s = SR_DegradedError then Some s else None)"

record firewall_env =
  fe_preflight :: "nat \<Rightarrow> nat \<Rightarrow> call_env"
  fe_decision_id :: string
  fe_now :: int
  fe_record :: call_env
  fe_degraded :: call_env
  fe_create :: call_env
  fe_created_event :: call_env

text \<open>The \<open>engine.degraded\<close> event; a failed write is counted.\<close>

definition record_degraded ::
  "ledger_externs \<Rightarrow> call_env \<Rightarrow> string \<Rightarrow> string \<Rightarrow> engine_status_report option \<Rightarrow> u64
   \<Rightarrow> 'z ledger_scheme \<Rightarrow> u64 \<times> 'z ledger_scheme" where
  "record_degraded x env sid decision_id status failures l =
     (case status of
        None \<Rightarrow> (failures, l)
      | Some s \<Rightarrow>
          (case record_engine_degraded x env sid
                  \<lparr>ed_engine_id = ''firewall_preflight_scanner'', ed_status = stable_code s,
                   ed_reason_code = stable_code s, ed_budget_ms = None, ed_elapsed_ms = None,
                   ed_fail_closed_decision = ''fall_back_hard_only'', ed_decision_id = decision_id\<rparr> l of
             (Inl _, l') \<Rightarrow> (failures + 1, l')
           | (Inr _, l') \<Rightarrow> (failures, l')))"

text \<open>After the policy verdict: the decision record, the degradation event, the branch on the action.\<close>

definition settle_decision ::
  "ledger_externs \<Rightarrow> firewall_env \<Rightarrow> firewall_config \<Rightarrow> tool_invocation \<Rightarrow> effect_vector \<Rightarrow> decision_record
   \<Rightarrow> policy_action \<Rightarrow> engine_status_report option \<Rightarrow> u64 \<Rightarrow> 'z approval_db_scheme
   \<Rightarrow> (firewall_error + firewall_outcome) \<times> u64 \<times> 'z approval_db_scheme" where
  "settle_decision x env config call effects decision action degraded failures l =
     (case record_decision x (fe_record env) (ti_session_id call) decision effects l of
        (Inl e, l2) \<Rightarrow> (Inl (FE_Audit e), failures, l2)
      | (Inr _, l2) \<Rightarrow>
          let (failures2, l3) = record_degraded x (fe_degraded env) (ti_session_id call)
                (fe_decision_id env) degraded failures l2
          in
          case action of
            PA_Allow \<Rightarrow> (Inr (Allowed decision effects), failures2, l3)
          | PA_Deny \<Rightarrow> (Inr (Denied decision effects), failures2, l3)
          | PA_Approve \<Rightarrow>
              (case compute_args_hash x (ti_args call) of
                 Inl e \<Rightarrow> (Inl e, failures2, l3)
               | Inr args_hash \<Rightarrow>
                   let (title, summary) = summarize call effects decision in
                   (case create_approval x (fe_create env) (fe_created_event env)
                           (ti_session_id call) decision effects title summary
                           (fc_approval_ttl_secs config)
                           \<lparr>tc_server_id = Some (ti_server_id call),
                            tc_tool_name = Some (ti_tool_name call),
                            tc_args_hash = Some args_hash\<rparr> l3 of
                      (Inl e, l4) \<Rightarrow> (Inl (FE_Audit e), failures2, l4)
                    | (Inr approval, l4) \<Rightarrow>
                        (Inr (ApproveOutcome decision effects approval), failures2, l4))))"

definition firewall_evaluate ::
  "externs \<Rightarrow> ledger_externs \<Rightarrow> (string \<Rightarrow> string \<Rightarrow> string \<Rightarrow> descriptor_status) \<Rightarrow> firewall_env
   \<Rightarrow> firewall \<Rightarrow> tool_invocation \<Rightarrow> oauth_scope_context \<Rightarrow> u64 \<Rightarrow> 'z approval_db_scheme
   \<Rightarrow> (firewall_error + firewall_outcome) \<times> u64 \<times> 'z approval_db_scheme" where
  "firewall_evaluate fx x oracle env fw call scope_ctx failures l =
     (let config = fw_config fw in
      if list_ex (\<lambda>(k, _). k \<in> set RESERVED_ALLOWLIST_KEYS) (fc_allowed_scopes config) then
        (Inl ReservedScopeKey, failures, l)
      else
        let effects = extract_effects fx (fc_project_roots config) call;
            descriptor = oracle (ti_server_id call) (ti_tool_name call) (ti_descriptor_hash call);
            (base_risk, score_reasons) = score fx (fw_scorer fw) effects descriptor
        in
        case run_preflight x (fw_scanner fw) (fe_preflight env) failures (ti_session_id call)
               (ti_args call) (fc_long_text_threshold config) l of
          (Inl reason, failures1, l1) \<Rightarrow> (Inl (PreflightScanFailed reason), failures1, l1)
        | (Inr preflight, failures1, l1) \<Rightarrow>
            let final_risk = risk_with_pii base_risk (pf_risk_delta preflight);
                ctx = evaluation_context config final_risk descriptor scope_ctx (pf_pii_summary preflight)
            in
            case evaluate (fw_policy fw) effects ctx of
              Inl e \<Rightarrow> (Inl (FE_Policy e), failures1, l1)
            | Inr pdec \<Rightarrow>
                let degraded = degraded_status (pf_engine_status preflight);
                    reasons = merge_reasons score_reasons (pd_reasons pdec) @
                      [preflight_reason base_risk (pf_risk_delta preflight) final_risk preflight] @
                      (case degraded of None \<Rightarrow> [] | Some s \<Rightarrow> [''engine.status='' @ stable_code s]);
                    decision = \<lparr>dr_decision_id = fe_decision_id env,
                                dr_invocation_id = ti_invocation_id call,
                                dr_decision = map_action (pd_action pdec), dr_risk_score = final_risk,
                                dr_reasons = reasons, dr_policy_ids = pd_policy_ids pdec,
                                dr_created_at = fe_now env\<rparr>
                in settle_decision x env config call effects decision (pd_action pdec) degraded
                     failures1 l1)"

section \<open>What preflight touches\<close>

lemma insert_redaction_scan_keeps:
  "led_events (snd (insert_redaction_scan env scan l)) = led_events l"
  "ledger.more (snd (insert_redaction_scan env scan l)) = ledger.more l"
  by (auto simp: insert_redaction_scan_def split: sum.splits)

lemma insert_redaction_finding_keeps:
  "led_events (snd (insert_redaction_finding env f l)) = led_events l"
  "ledger.more (snd (insert_redaction_finding env f l)) = ledger.more l"
  by (auto simp: insert_redaction_finding_def Let_def split: sum.splits)

definition same_log :: "'z ledger_scheme \<Rightarrow> 'z ledger_scheme \<Rightarrow> bool" where
  "same_log l l' \<longleftrightarrow> led_events l' = led_events l \<and> ledger.more l' = ledger.more l"

lemma same_log_refl [simp]: "same_log l l"
  by (simp add: same_log_def)

lemma same_log_trans: "same_log a b \<Longrightarrow> same_log b c \<Longrightarrow> same_log a c"
  by (simp add: same_log_def)

lemma persist_findings_keeps: "same_log l (snd (persist_findings x env scan_id text j fs l))"
proof (induction x env scan_id "text" j fs l rule: persist_findings.induct)
  case (2 x env scan_id "text" j f fs l)
  define p where "p = (\<lambda>label. insert_redaction_finding (env (j + 1))
    \<lparr>nf_scan_id = scan_id, nf_label = label_as_str label, nf_offset = fst (f_span f),
     nf_fingerprint = sha256_prefix16_hex x (str_slice text (fst (f_span f)) (snd (f_span f))),
     nf_action_taken = ''redacted''\<rparr> l)"
  have keep: "same_log l (snd (p label))" for label
    by (simp add: p_def same_log_def insert_redaction_finding_keeps)
  show ?case
  proof (cases "from_kind (f_kind f)")
    case None
    then show ?thesis using "2.IH"(1) by simp
  next
    case (Some label)
    show ?thesis
    proof (cases "span_in_text text f")
      case False
      then show ?thesis using "2.IH"(2) Some by simp
    next
      case True
      obtain r l' where p: "p label = (r, l')" by fastforce
      show ?thesis
      proof (cases r)
        case (Inl e)
        then show ?thesis using Some True p keep [of label] by (simp add: p_def)
      next
        case (Inr a)
        have "same_log l' (snd (persist_findings x env scan_id text (j + 1) fs l'))"
          using "2.IH"(3) [OF Some _ p [unfolded p_def, symmetric] Inr] True by simp
        then show ?thesis
          using same_log_trans keep [of label] Some True p Inr by (simp add: p_def)
      qed
    qed
  qed
qed simp

lemma persist_scan_keeps: "same_log l (snd (persist_scan_to_ledger x env sid text result l))"
proof -
  define scan where "scan = \<lparr>ns_session_id = sid, ns_source = ''tool_arg'', ns_text_length = length text,
              ns_fingerprint = sha256_prefix16_hex x text\<rparr>"
  obtain r l' where p: "insert_redaction_scan (env 0) scan l = (r, l')" by fastforce
  have "same_log l l'" using insert_redaction_scan_keeps [of "env 0" scan l] p by (simp add: same_log_def)
  then show ?thesis
    using p persist_findings_keeps same_log_trans unfolding persist_scan_to_ledger_def scan_def
    by (cases r) (auto simp del: persist_findings.simps, blast)
qed

lemma preflight_loop_keeps: "same_log l (snd (snd (preflight_loop x scanner env sid i texts st l)))"
proof (induction x scanner env sid i texts st l rule: preflight_loop.induct)
  case (2 x scanner env sid i t texts st l)
  show ?case
  proof (cases "scanner t")
    case (Inl e)
    then show ?thesis using "2.IH"(1) by (cases e) simp_all
  next
    case (Inr p)
    obtain result status where p: "p = (result, status)" by (cases p)
    obtain res l' where q: "persist_scan_to_ledger x (env i) sid t result l = (res, l')" by fastforce
    have "same_log l l'" using persist_scan_keeps [of l x "env i" sid t result] q by simp
    then show ?thesis
      using "2.IH"(2) [OF Inr p [symmetric] refl refl q [symmetric]] same_log_trans Inr p q
      by (auto simp: Let_def)
  qed
qed simp

lemma run_preflight_keeps: "same_log l (snd (snd (run_preflight x scanner env n sid args threshold l)))"
proof -
  obtain r st l' where p: "preflight_loop x scanner env sid 0 (extract_long_text_fields args threshold)
     \<lparr>ps_by_label = (\<lambda>_. None), ps_total_risk_delta = 0, ps_worst_status = SR_Unsupported,
      ps_audit_failures = n\<rparr> l = (r, st, l')" by (metis prod_cases3)
  from preflight_loop_keeps [of l x scanner env sid 0 "extract_long_text_fields args threshold"
      "\<lparr>ps_by_label = (\<lambda>_. None), ps_total_risk_delta = 0, ps_worst_status = SR_Unsupported,
        ps_audit_failures = n\<rparr>"] show ?thesis
    by (cases r) (simp_all add: run_preflight_def p)
qed

lemma preflight_loop_fails:
  "t \<in> set texts \<Longrightarrow> scanner t = Inl (InferenceFailed reason) \<Longrightarrow>
   fst (preflight_loop x scanner env sid i texts st l) = Inl ''t0_inference_failed''"
proof (induction x scanner env sid i texts st l rule: preflight_loop.induct)
  case (2 x scanner env sid i u texts st l)
  show ?case
  proof (cases "u = t \<or> (\<exists>r. scanner u = Inl (InferenceFailed r))")
    case True
    then show ?thesis using "2.prems"(2) by auto
  next
    case False
    then have t: "t \<in> set texts" using "2.prems"(1) by auto
    show ?thesis
    proof (cases "scanner u")
      case (Inl e)
      then show ?thesis using False "2.IH"(1) [OF Inl _ t "2.prems"(2)] by (cases e) auto
    next
      case (Inr p)
      obtain result status where p: "p = (result, status)" by (cases p)
      obtain res l' where q: "persist_scan_to_ledger x (env i) sid u result l = (res, l')" by fastforce
      show ?thesis
        using "2.IH"(2) [OF Inr p [symmetric] refl refl q [symmetric] t "2.prems"(2)] Inr p q by (simp add: Let_def)
    qed
  qed
qed simp

section \<open>What preflight finds\<close>

text \<open>
  The reports of the scanner on the texts it does not call empty; their risk, added up below the
  bound of \<open>u32\<close>; and their findings, counted by label.
\<close>

definition scan_reports :: "pii_scanner \<Rightarrow> string list \<Rightarrow> risk_signals list" where
  "scan_reports scanner texts =
     concat (map (\<lambda>t. case scanner t of Inr (r, _) \<Rightarrow> [rr_risk_signals r] | Inl _ \<Rightarrow> []) texts)"

definition reported_risk :: "risk_signals list \<Rightarrow> u32" where
  "reported_risk sigs = of_nat (min (2 ^ 32 - 1) (sum_list (map (\<lambda>s. unat (rs_total_risk_delta s)) sigs)))"

definition reported_pii :: "risk_signals list \<Rightarrow> pii_finding_summary list" where
  "reported_pii sigs = summary_of (foldl (\<lambda>m s. add_label_counts m (rs_counts_by_label s)) (\<lambda>_. None) sigs)"

lemma unat_saturating_add_u32: "unat (saturating_add_u32 a b) = min (2 ^ 32 - 1) (unat a + unat b)"
proof -
  have ints: "uint a = int (unat a)" "uint b = int (unat b)" by simp_all
  have full: "2 ^ 32 \<le> uint a + uint b \<longleftrightarrow> 2 ^ 32 \<le> unat a + unat b"
    unfolding ints by (metis of_nat_add of_nat_le_iff of_nat_numeral of_nat_power)
  show ?thesis
  proof (cases "2 ^ 32 \<le> unat a + unat b")
    case True
    then have "saturating_add_u32 a b = - 1" using full by (simp only: saturating_add_u32_def if_True)
    moreover have "unat (- 1 :: u32) = 2 ^ 32 - 1"
      by (simp add: unsigned_minus_1_eq_mask mask_eq_exp_minus_1)
    ultimately show ?thesis using True by simp
  next
    case False
    then have "saturating_add_u32 a b = a + b" using full by (simp only: saturating_add_u32_def if_False)
    moreover have "unat (a + b) = unat a + unat b" using False by (simp add: unat_word_ariths)
    ultimately show ?thesis using False by simp
  qed
qed

lemma saturated_sum:
  "foldl (\<lambda>d s. saturating_add_u32 d (rs_total_risk_delta s)) d sigs =
     of_nat (min (2 ^ 32 - 1) (unat d + sum_list (map (\<lambda>s. unat (rs_total_risk_delta s)) sigs)))"
proof (induction sigs arbitrary: d)
  case Nil
  have "unat d < 2 ^ LENGTH(32)" by (rule unsigned_less)
  then have "unat d \<le> 2 ^ 32 - 1" by simp
  then show ?case by (simp add: min_absorb2)
next
  case (Cons s sigs)
  show ?case unfolding foldl_Cons Cons.IH unat_saturating_add_u32 by (simp add: min_def)
qed

lemma preflight_loop_finds:
  "preflight_loop x scanner env sid i texts st l = (Inr u, st', l') \<Longrightarrow>
   ps_by_label st' = foldl (\<lambda>m s. add_label_counts m (rs_counts_by_label s)) (ps_by_label st)
     (scan_reports scanner texts) \<and>
   ps_total_risk_delta st' = foldl (\<lambda>d s. saturating_add_u32 d (rs_total_risk_delta s))
     (ps_total_risk_delta st) (scan_reports scanner texts)"
proof (induction x scanner env sid i texts st l rule: preflight_loop.induct)
  case (2 x scanner env sid i t texts st l)
  show ?case
  proof (cases "scanner t")
    case (Inl e)
    then show ?thesis using "2.IH"(1) "2.prems" by (cases e) (simp_all add: scan_reports_def)
  next
    case (Inr p)
    obtain result status where p: "p = (result, status)" by (cases p)
    obtain res l1 where q: "persist_scan_to_ledger x (env i) sid t result l = (res, l1)" by fastforce
    show ?thesis
      using "2.IH"(2) [OF Inr p [symmetric] refl refl q [symmetric]] "2.prems" Inr p q
      by (simp add: Let_def scan_reports_def)
  qed
qed (simp add: scan_reports_def)

lemma run_preflight_finds:
  assumes "run_preflight x scanner env n sid args threshold l = (Inr pf, n', l')"
  shows "pf_pii_summary pf = reported_pii (scan_reports scanner (extract_long_text_fields args threshold))"
    and "pf_risk_delta pf = reported_risk (scan_reports scanner (extract_long_text_fields args threshold))"
proof -
  obtain u st where "preflight_loop x scanner env sid 0 (extract_long_text_fields args threshold)
     \<lparr>ps_by_label = (\<lambda>_. None), ps_total_risk_delta = 0, ps_worst_status = SR_Unsupported,
      ps_audit_failures = n\<rparr> l = (Inr u, st, l')" "pf_pii_summary pf = summary_of (ps_by_label st)"
    "pf_risk_delta pf = ps_total_risk_delta st"
    using assms by (auto simp: run_preflight_def split: prod.splits sum.splits)
  with preflight_loop_finds [OF this(1)]
  show "pf_pii_summary pf = reported_pii (scan_reports scanner (extract_long_text_fields args threshold))"
    and "pf_risk_delta pf = reported_risk (scan_reports scanner (extract_long_text_fields args threshold))"
    by (simp_all add: reported_pii_def reported_risk_def saturated_sum)
qed

section \<open>The stages of a successful evaluation\<close>

abbreviation call_effects :: "externs \<Rightarrow> firewall \<Rightarrow> tool_invocation \<Rightarrow> effect_vector" where
  "call_effects fx fw call \<equiv> extract_effects fx (fc_project_roots (fw_config fw)) call"

abbreviation call_descriptor ::
  "(string \<Rightarrow> string \<Rightarrow> string \<Rightarrow> descriptor_status) \<Rightarrow> tool_invocation \<Rightarrow> descriptor_status" where
  "call_descriptor oracle call \<equiv> oracle (ti_server_id call) (ti_tool_name call) (ti_descriptor_hash call)"

abbreviation call_context ::
  "externs \<Rightarrow> (string \<Rightarrow> string \<Rightarrow> string \<Rightarrow> descriptor_status) \<Rightarrow> firewall \<Rightarrow> tool_invocation
   \<Rightarrow> oauth_scope_context \<Rightarrow> preflight_outcome \<Rightarrow> policy_context" where
  "call_context fx oracle fw call scope_ctx pf \<equiv>
     evaluation_context (fw_config fw)
       (risk_with_pii (fst (score fx (fw_scorer fw) (call_effects fx fw call) (call_descriptor oracle call)))
         (pf_risk_delta pf))
       (call_descriptor oracle call) scope_ctx (pf_pii_summary pf)"

definition settled ::
  "ledger_externs \<Rightarrow> firewall_env \<Rightarrow> firewall_config \<Rightarrow> tool_invocation \<Rightarrow> decision_record \<Rightarrow> effect_vector
   \<Rightarrow> policy_action \<Rightarrow> 'z approval_db_scheme \<Rightarrow> firewall_outcome \<Rightarrow> 'z approval_db_scheme \<Rightarrow> bool" where
  "settled x env config call d e action l3 out l' \<longleftrightarrow>
     action = PA_Allow \<and> out = Allowed d e \<and> l' = l3 \<or> action = PA_Deny \<and> out = Denied d e \<and> l' = l3 \<or>
     action = PA_Approve \<and>
       (\<exists>args_hash title summary req.
          compute_args_hash x (ti_args call) = Inr args_hash \<and>
          create_approval x (fe_create env) (fe_created_event env) (ti_session_id call) d e title summary
            (fc_approval_ttl_secs config)
            \<lparr>tc_server_id = Some (ti_server_id call), tc_tool_name = Some (ti_tool_name call),
             tc_args_hash = Some args_hash\<rparr> l3 = (Inr req, l') \<and>
          out = ApproveOutcome d e req)"

lemma settle_decision_ok:
  assumes "settle_decision x env config call e d action degraded n l = (Inr out, n', l')"
  obtains a l2 n2 l3 where
    "record_decision x (fe_record env) (ti_session_id call) d e l = (Inr a, l2)"
    "record_degraded x (fe_degraded env) (ti_session_id call) (fe_decision_id env) degraded n l2 = (n2, l3)"
    "settled x env config call d e action l3 out l'"
proof -
  obtain a l2 where rec: "record_decision x (fe_record env) (ti_session_id call) d e l = (Inr a, l2)"
    using assms by (auto simp: settle_decision_def split: prod.splits sum.splits)
  obtain n2 l3 where deg: "record_degraded x (fe_degraded env) (ti_session_id call) (fe_decision_id env)
      degraded n l2 = (n2, l3)" by fastforce
  show thesis
    by (rule that [OF rec deg])
      (use assms rec deg in \<open>auto simp: settle_decision_def settled_def
        split: policy_action.splits sum.splits prod.splits\<close>)
qed

lemma firewall_evaluate_ok:
  assumes "firewall_evaluate fx x oracle env fw call scope_ctx n l = (Inr out, n', l')"
  obtains pf n1 l1 pdec d where
    "\<not> list_ex (\<lambda>(k, _). k \<in> set RESERVED_ALLOWLIST_KEYS) (fc_allowed_scopes (fw_config fw))"
    "run_preflight x (fw_scanner fw) (fe_preflight env) n (ti_session_id call) (ti_args call)
       (fc_long_text_threshold (fw_config fw)) l = (Inr pf, n1, l1)"
    "evaluate (fw_policy fw) (call_effects fx fw call) (call_context fx oracle fw call scope_ctx pf) = Inr pdec"
    "dr_decision d = map_action (pd_action pdec)"
    "settle_decision x env (fw_config fw) call (call_effects fx fw call) d (pd_action pdec)
       (degraded_status (pf_engine_status pf)) n1 l1 = (Inr out, n', l')"
    "dr_policy_ids d = pd_policy_ids pdec"
    "dr_risk_score d = pc_risk_score (call_context fx oracle fw call scope_ctx pf)"
proof -
  let ?e = "call_effects fx fw call"
  obtain base reasons where sc: "score fx (fw_scorer fw) ?e (call_descriptor oracle call) = (base, reasons)"
    by fastforce
  note eval = assms [unfolded firewall_evaluate_def Let_def sc prod.case]
  have res: "\<not> list_ex (\<lambda>(k, _). k \<in> set RESERVED_ALLOWLIST_KEYS) (fc_allowed_scopes (fw_config fw))"
    using eval by (auto split: if_splits)
  obtain pf n1 l1 where pf: "run_preflight x (fw_scanner fw) (fe_preflight env) n (ti_session_id call)
      (ti_args call) (fc_long_text_threshold (fw_config fw)) l = (Inr pf, n1, l1)"
    using eval res by (auto split: prod.splits sum.splits)
  obtain pdec where pd: "evaluate (fw_policy fw) ?e (call_context fx oracle fw call scope_ctx pf) = Inr pdec"
    using eval res pf by (auto simp: sc split: sum.splits)
  define final where "final = risk_with_pii base (pf_risk_delta pf)"
  define degraded where "degraded = degraded_status (pf_engine_status pf)"
  define d where "d = \<lparr>dr_decision_id = fe_decision_id env, dr_invocation_id = ti_invocation_id call,
     dr_decision = map_action (pd_action pdec), dr_risk_score = final,
     dr_reasons = merge_reasons reasons (pd_reasons pdec) @
       [preflight_reason base (pf_risk_delta pf) final pf] @
       (case degraded of None \<Rightarrow> [] | Some s \<Rightarrow> [''engine.status='' @ stable_code s]),
     dr_policy_ids = pd_policy_ids pdec, dr_created_at = fe_now env\<rparr>"
  have kind: "dr_decision d = map_action (pd_action pdec)" "dr_policy_ids d = pd_policy_ids pdec"
    "dr_risk_score d = pc_risk_score (call_context fx oracle fw call scope_ctx pf)"
    by (simp_all add: d_def final_def evaluation_context_def sc)
  have settle: "settle_decision x env (fw_config fw) call ?e d (pd_action pdec)
      (degraded_status (pf_engine_status pf)) n1 l1 = (Inr out, n', l')"
    using eval res pf pd by (simp add: sc d_def final_def degraded_def)
  show thesis by (rule that [OF res pf pd kind(1) settle kind(2,3)])
qed

lemma record_degraded_keeps:
  assumes "record_degraded x env sid did status n l = (n', l')"
  shows "prefix (led_events l) (led_events l')" "led_approvals l' = led_approvals l"
proof -
  have "l' = l \<or> (\<exists>p rt. l' = snd (append_event_internal x env sid ''engine.degraded'' p rt l))"
    using assms
    by (auto simp: record_degraded_def record_engine_degraded_def
        split: option.splits prod.splits sum.splits) (metis snd_conv)+
  then show "prefix (led_events l) (led_events l')" "led_approvals l' = led_approvals l"
    using internal_log.append_extends by auto
qed

lemma record_decision_ok:
  assumes "record_decision x env sid d e l = (Inr a, l')"
  obtains row where "led_events l' = led_events l @ [row]" "er_session_id row = sid"
    "er_event_type row = ''decision.recorded''" "led_approvals l' = led_approvals l"
proof -
  obtain p rt where ap: "append_event_internal x env sid ''decision.recorded'' p rt l = (Inr a, l')"
    using assms by (auto simp: record_decision_def Let_def)
  from internal_log.append_ok [OF this] append_approvals(1) [of x env sid "''decision.recorded''" p rt l]
  show thesis using that ap by auto
qed

lemma record_approval_created_keeps:
  assumes "record_approval_created x env req l = (r, l')"
  shows "prefix (led_events l) (led_events l') \<and> led_approvals l' = led_approvals l"
proof -
  obtain p rt where "l' = snd (append_event_internal x env (ar_session_id req) ''approval.created'' p rt l)"
    using assms by (metis record_approval_created_def snd_conv)
  then show ?thesis using internal_log.append_extends by simp
qed

lemma create_approval_ok:
  assumes "create_approval x env env2 sid d e title summary ttl ctx l = (Inr req, l')"
  shows "prefix (led_events l) (led_events l')"
    and "\<exists>row. led_approvals l' = led_approvals l @ [row] \<and> a_approval_id row = ar_approval_id req \<and>
      a_status row = ''Pending'' \<and> a_session_id row = sid \<and> a_server_id row = tc_server_id ctx \<and>
      a_tool_name row = tc_tool_name ctx \<and> a_args_hash row = tc_args_hash ctx"
  using assms
  by (auto simp: create_approval_def Let_def dest!: record_approval_created_keeps
      split: option.splits if_splits prod.splits sum.splits)

lemma settle_outcome:
  assumes "settle_decision x env config call e d action degraded n l = (Inr out, n', l')"
  shows "outcome_effects out = e" "outcome_decision_kind out = map_action action" "outcome_decision out = d"
  using assms by (rule settle_decision_ok, auto simp: settled_def)+

lemma settle_records:
  assumes "settle_decision x env config call e d action degraded n l = (Inr out, n', l')"
  shows "\<exists>row rest. led_events l' = led_events l @ row # rest \<and> er_session_id row = ti_session_id call \<and>
    er_event_type row = ''decision.recorded''"
  using assms
proof (rule settle_decision_ok)
  fix a l2 n2 l3
  assume rec: "record_decision x (fe_record env) (ti_session_id call) d e l = (Inr a, l2)"
    and deg: "record_degraded x (fe_degraded env) (ti_session_id call) (fe_decision_id env) degraded n l2 = (n2, l3)"
    and branch: "settled x env config call d e action l3 out l'"
  have "prefix (led_events l2) (led_events l')"
    using branch [unfolded settled_def] create_approval_ok(1) record_degraded_keeps(1) [OF deg] prefix_order.trans by blast
  then show ?thesis by (auto simp: prefix_def intro: record_decision_ok [OF rec])
qed

lemma settle_approvals:
  assumes "settle_decision x env config call e d action degraded n l = (Inr out, n', l')"
  shows "case out of
       ApproveOutcome d e req \<Rightarrow>
         (\<exists>arow args_hash. led_approvals l' = led_approvals l @ [arow] \<and>
            a_approval_id arow = ar_approval_id req \<and> a_status arow = ''Pending'' \<and>
            a_session_id arow = ti_session_id call \<and> a_server_id arow = Some (ti_server_id call) \<and>
            a_tool_name arow = Some (ti_tool_name call) \<and> a_args_hash arow = Some args_hash \<and>
            compute_args_hash x (ti_args call) = Inr args_hash)
     | _ \<Rightarrow> led_approvals l' = led_approvals l"
  using assms
proof (rule settle_decision_ok)
  fix a l2 n2 l3
  assume rec: "record_decision x (fe_record env) (ti_session_id call) d e l = (Inr a, l2)"
    and deg: "record_degraded x (fe_degraded env) (ti_session_id call) (fe_decision_id env) degraded n l2 = (n2, l3)"
    and branch: "settled x env config call d e action l3 out l'"
  have "led_approvals l3 = led_approvals l"
    using record_decision_ok [OF rec] record_degraded_keeps(2) [OF deg] by metis
  then show ?thesis using branch by (auto simp: settled_def dest!: create_approval_ok(2))
qed

lemma same_log_approvals:
  fixes l :: "'z approval_db_scheme"
  shows "ledger.more l' = ledger.more l \<Longrightarrow> led_approvals l' = led_approvals l"
  by (metis approval_db.select_convs(1) ledger.surjective approval_db.surjective ledger.select_convs(7))

lemma map_sum_Inr_iff: "map_sum f g s = Inr y \<longleftrightarrow> (\<exists>z. s = Inr z \<and> g z = y)"
  by (cases s) auto

lemma foldl_insert_other:
  "\<not> list_ex (\<lambda>(k, _). k = key) kvs \<Longrightarrow> foldl (\<lambda>m (k, v). m(k \<mapsto> v)) m kvs key = m key"
  by (induction kvs arbitrary: m) auto

lemma evaluation_context_keys:
  assumes "\<not> list_ex (\<lambda>(k, _). k \<in> set RESERVED_ALLOWLIST_KEYS) (fc_allowed_scopes config)"
  shows "default_keys_bound (evaluation_context config risk descriptor scope_ctx pii)
    (fc_project_roots config) (fc_allowed_hosts config)"
  using assms by (simp add: default_keys_bound_def evaluation_context_def RESERVED_ALLOWLIST_KEYS_def
      foldl_insert_other)

lemma default_allow_facts:
  assumes "default_keys_bound ctx roots hosts"
    and "evaluate (policy_engine_new default_ruleset) e ctx = Inr d" "pd_action d = PA_Allow"
  shows "pc_descriptor ctx = ApprovedStable \<and> FsRead \<in> set (ev_effects e) \<and> ev_paths_read e \<noteq> [] \<and>
    (\<forall>p \<in> set (ev_paths_read e). under_any_root p roots) \<and>
    {ExecNative, SecretUse, CommSend, BrowserSubmit} \<inter> set (ev_effects e) = {} \<and>
    \<not> (DbWrite \<in> set (ev_effects e) \<and> ev_destructive e) \<and>
    (NetOutbound \<in> set (ev_effects e) \<longrightarrow> (\<forall>h \<in> set (ev_network_hosts e). list_ex (host_matches h) hosts))"
  using default_ruleset_decides [OF assms(1), of e] assms(2,3) by auto

lemma allowed_context:
  assumes "firewall_evaluate fx x oracle env fw call scope_ctx n l = (Inr (Allowed d e), n', l')"
    and "fw_policy fw = policy_engine_new default_ruleset"
  obtains ctx pdec where
    "default_keys_bound ctx (fc_project_roots (fw_config fw)) (fc_allowed_hosts (fw_config fw))"
    "evaluate (policy_engine_new default_ruleset) e ctx = Inr pdec" "pd_action pdec = PA_Allow"
    "pc_descriptor ctx = ApprovedStable \<longleftrightarrow> call_descriptor oracle call = DS_ApprovedStable"
    "e = call_effects fx fw call"
proof -
  from assms(1) obtain pf n1 l1 pdec d0 where
    res: "\<not> list_ex (\<lambda>(k, _). k \<in> set RESERVED_ALLOWLIST_KEYS) (fc_allowed_scopes (fw_config fw))"
    and pd: "evaluate (fw_policy fw) (call_effects fx fw call) (call_context fx oracle fw call scope_ctx pf) = Inr pdec"
    and st: "settle_decision x env (fw_config fw) call (call_effects fx fw call) d0 (pd_action pdec)
       (degraded_status (pf_engine_status pf)) n1 l1 = (Inr (Allowed d e), n', l')"
    by (rule firewall_evaluate_ok)
  have allow: "pd_action pdec = PA_Allow" "e = call_effects fx fw call"
    using settle_outcome [OF st] by (cases "pd_action pdec"; simp)+
  have "pc_descriptor (call_context fx oracle fw call scope_ctx pf) = ApprovedStable \<longleftrightarrow>
      call_descriptor oracle call = DS_ApprovedStable"
    by (cases "call_descriptor oracle call") (simp_all add: evaluation_context_def)
  then show thesis
    using that [OF evaluation_context_keys [OF res] _ allow(1) _ allow(2)] pd assms(2) allow(2) by simp
qed

section \<open>The interface to the descriptor oracle\<close>

text \<open>
  What the firewall relies on when it lets a call through: a descriptor that the oracle reports as
  stable is one that was approved.
\<close>

locale descriptor_oracle =
  fixes status :: "string \<Rightarrow> string \<Rightarrow> string \<Rightarrow> descriptor_status"
    and approved :: "string \<Rightarrow> string \<Rightarrow> string \<Rightarrow> bool"
  assumes stable_approved: "status sid tool h = DS_ApprovedStable \<Longrightarrow> approved sid tool h"
begin

lemma allowed_approved:
  assumes "firewall_evaluate fx x status env fw call scope_ctx n l = (Inr (Allowed d e), n', l')"
    and "fw_policy fw = policy_engine_new default_ruleset"
  shows "approved (ti_server_id call) (ti_tool_name call) (ti_descriptor_hash call)"
  using assms
proof (rule allowed_context)
  fix ctx pdec
  assume "default_keys_bound ctx (fc_project_roots (fw_config fw)) (fc_allowed_hosts (fw_config fw))"
    "evaluate (policy_engine_new default_ruleset) e ctx = Inr pdec" "pd_action pdec = PA_Allow"
    and ctx: "pc_descriptor ctx = ApprovedStable \<longleftrightarrow> call_descriptor status call = DS_ApprovedStable"
  from default_allow_facts [OF this(1-3)] show ?thesis using ctx stable_approved by blast
qed

end

section \<open>Properties\<close>

text \<open>A read of a project file under the shipped rules.\<close>

definition witness_invocation :: tool_invocation where
  "witness_invocation =
     \<lparr>ti_invocation_id = ''i'', ti_session_id = ''s'', ti_server_id = ''fs'', ti_tool_name = ''read_file'',
      ti_args = JObject [(''path'', JString ''/proj/a.txt'')], ti_descriptor_hash = ''h'', ti_requested_at = 7\<rparr>"

definition witness_config :: firewall_config where
  "witness_config = firewall_config_default\<lparr>fc_project_roots := [''/proj'']\<rparr>"

definition witness_firewall :: firewall where
  "witness_firewall = firewall_new witness_redact (policy_engine_new default_ruleset) witness_config"

definition witness_fenv :: firewall_env where
  "witness_fenv =
     \<lparr>fe_preflight = (\<lambda>_ _. witness_env), fe_decision_id = ''d'', fe_now = 7, fe_record = witness_env,
      fe_degraded = witness_env, fe_create = witness_env, fe_created_event = witness_env\<rparr>"

abbreviation witness_evaluate ::
  "descriptor_status \<Rightarrow> (firewall_error + firewall_outcome) \<times> u64 \<times> approval_db" where
  "witness_evaluate descriptor \<equiv> firewall_evaluate witness_externs witness_qx (\<lambda>_ _ _. descriptor)
     witness_fenv witness_firewall witness_invocation NonOauth 0 empty_db"

text \<open>
  C1. What the firewall lets through under the shipped rules. Whatever the scanner, the descriptor
  oracle, the scope context, the configuration and the database, a call is allowed without asking
  only if its descriptor is the approved one, it reads at least one path, every path it reads is
  under a project root, it neither executes, uses a secret, sends a message nor submits a form, it
  is no destructive database write, and every host of an outbound call matches the allowlist.
\<close>

theorem default_firewall_allows_only_project_reads:
  assumes "firewall_evaluate fx x oracle env fw call scope_ctx n l = (Inr (Allowed d e), n', l')"
    and "fw_policy fw = policy_engine_new default_ruleset"
  shows "oracle (ti_server_id call) (ti_tool_name call) (ti_descriptor_hash call) = DS_ApprovedStable \<and>
    e = extract_effects fx (fc_project_roots (fw_config fw)) call \<and>
    FsRead \<in> set (ev_effects e) \<and> ev_paths_read e \<noteq> [] \<and>
    (\<forall>p \<in> set (ev_paths_read e). under_any_root p (fc_project_roots (fw_config fw))) \<and>
    {ExecNative, SecretUse, CommSend, BrowserSubmit} \<inter> set (ev_effects e) = {} \<and>
    \<not> (DbWrite \<in> set (ev_effects e) \<and> ev_destructive e) \<and>
    (NetOutbound \<in> set (ev_effects e) \<longrightarrow>
       (\<forall>h \<in> set (ev_network_hosts e). list_ex (host_matches h) (fc_allowed_hosts (fw_config fw))))"
  using assms
proof (rule allowed_context)
  fix ctx pdec
  assume "default_keys_bound ctx (fc_project_roots (fw_config fw)) (fc_allowed_hosts (fw_config fw))"
    "evaluate (policy_engine_new default_ruleset) e ctx = Inr pdec" "pd_action pdec = PA_Allow"
    and ctx: "pc_descriptor ctx = ApprovedStable \<longleftrightarrow> call_descriptor oracle call = DS_ApprovedStable"
      "e = call_effects fx fw call"
  from default_allow_facts [OF this(1-3)] show ?thesis using ctx by blast
qed

theorem default_firewall_allows_only_project_reads_witness:
  "\<exists>d e n' l'. witness_evaluate DS_ApprovedStable = (Inr (Allowed d e), n', l') \<and>
     FsRead \<in> set (ev_effects e) \<and> (\<exists>p \<in> set (ev_paths_read e). under_any_root p [''/proj''])"
proof -
  have "map_sum id outcome_decision_kind (fst (witness_evaluate DS_ApprovedStable)) = Inr DK_Allow"
    by code_simp
  then obtain d e n' l' where ev: "witness_evaluate DS_ApprovedStable = (Inr (Allowed d e), n', l')"
    by (cases "witness_evaluate DS_ApprovedStable" rule: prod_cases3)
      (auto simp: map_sum_Inr_iff elim!: outcome_decision_kind.elims)
  have cfg: "fw_policy witness_firewall = policy_engine_new default_ruleset"
    "fc_project_roots (fw_config witness_firewall) = [''/proj'']"
    by (simp_all add: witness_firewall_def firewall_new_def with_scanner_def witness_config_def)
  note facts = default_firewall_allows_only_project_reads [OF ev cfg(1), unfolded cfg(2)]
  have "FsRead \<in> set (ev_effects e)" "\<exists>p \<in> set (ev_paths_read e). under_any_root p [''/proj'']"
    using facts by (blast, metis list.set_sel(1))
  with ev show ?thesis by auto
qed

text \<open>
  The rules look for written paths, not for the effect: a catalogued write whose argument only
  names a path, such as \<open>git_add\<close>, reads that path as far as the extractors can tell, and is
  allowed without asking.
\<close>

lemma catalogued_write_is_allowed:
  "case fst (firewall_evaluate witness_externs witness_qx (\<lambda>_ _ _. DS_ApprovedStable) witness_fenv
      witness_firewall
      (witness_invocation\<lparr>ti_server_id := ''git'', ti_tool_name := ''git_add''\<rparr>) NonOauth 0 empty_db) of
     Inr (Allowed d e) \<Rightarrow> FsWrite \<in> set (ev_effects e)
   | _ \<Rightarrow> False"
  by code_simp

text \<open>
  C5. Every verdict is the policy's and is on the log before it is acted on. When the evaluation
  returns an outcome, its effects are those extracted from the call; its action and its policy ids
  are those of the policy engine on these effects, in the context of the descriptor status the
  oracle gives, of the findings the scanner reports on the long texts of the arguments, and of the
  risk score raised by what the scanner reports, which is also the score on record. The database has
  the events it had, next a \<open>decision.recorded\<close> event of the session, then whatever else the
  evaluation logged; and only a verdict that asks for approval touches the approvals table, where
  it adds one pending row bound to the server, the tool and the hash of the canonical arguments.
\<close>

theorem evaluate_records_decision:
  assumes "firewall_evaluate fx x oracle env fw call scope_ctx n l = (Inr out, n', l')"
  defines "effects \<equiv> extract_effects fx (fc_project_roots (fw_config fw)) call"
    and "descriptor \<equiv> oracle (ti_server_id call) (ti_tool_name call) (ti_descriptor_hash call)"
    and "reports \<equiv> scan_reports (fw_scanner fw)
           (extract_long_text_fields (ti_args call) (fc_long_text_threshold (fw_config fw)))"
  defines "risk \<equiv> risk_with_pii (fst (score fx (fw_scorer fw) effects descriptor)) (reported_risk reports)"
  shows "outcome_effects out = effects \<and>
    (\<exists>pdec. evaluate (fw_policy fw) effects
        (evaluation_context (fw_config fw) risk descriptor scope_ctx (reported_pii reports)) = Inr pdec \<and>
      outcome_decision_kind out = map_action (pd_action pdec) \<and>
      dr_decision (outcome_decision out) = map_action (pd_action pdec) \<and>
      dr_policy_ids (outcome_decision out) = pd_policy_ids pdec \<and>
      dr_risk_score (outcome_decision out) = risk) \<and>
    (\<exists>row rest. led_events l' = led_events l @ row # rest \<and>
      er_session_id row = ti_session_id call \<and> er_event_type row = ''decision.recorded'') \<and>
    (case out of
       ApproveOutcome d e req \<Rightarrow>
         (\<exists>arow args_hash. led_approvals l' = led_approvals l @ [arow] \<and>
            a_approval_id arow = ar_approval_id req \<and> a_status arow = ''Pending'' \<and>
            a_session_id arow = ti_session_id call \<and> a_server_id arow = Some (ti_server_id call) \<and>
            a_tool_name arow = Some (ti_tool_name call) \<and> a_args_hash arow = Some args_hash \<and>
            compute_args_hash x (ti_args call) = Inr args_hash)
     | _ \<Rightarrow> led_approvals l' = led_approvals l)"
proof -
  from assms(1) obtain pf n1 l1 pdec d where
    pf: "run_preflight x (fw_scanner fw) (fe_preflight env) n (ti_session_id call) (ti_args call)
       (fc_long_text_threshold (fw_config fw)) l = (Inr pf, n1, l1)"
    and pd: "evaluate (fw_policy fw) (call_effects fx fw call) (call_context fx oracle fw call scope_ctx pf) = Inr pdec"
    and kind: "dr_decision d = map_action (pd_action pdec)"
    and st: "settle_decision x env (fw_config fw) call (call_effects fx fw call) d (pd_action pdec)
       (degraded_status (pf_engine_status pf)) n1 l1 = (Inr out, n', l')"
    and d: "dr_policy_ids d = pd_policy_ids pdec"
      "dr_risk_score d = pc_risk_score (call_context fx oracle fw call scope_ctx pf)"
    by (rule firewall_evaluate_ok)
  have found: "pf_pii_summary pf = reported_pii reports" "pf_risk_delta pf = reported_risk reports"
    unfolding reports_def by (rule run_preflight_finds [OF pf])+
  have ctx: "call_context fx oracle fw call scope_ctx pf =
      evaluation_context (fw_config fw) risk descriptor scope_ctx (reported_pii reports)"
    unfolding found by (simp add: risk_def effects_def descriptor_def)
  have same: "led_events l1 = led_events l" "led_approvals l1 = led_approvals l"
    using run_preflight_keeps [of l x "fw_scanner fw" "fe_preflight env" n "ti_session_id call" "ti_args call"
        "fc_long_text_threshold (fw_config fw)"] pf
    by (auto simp: same_log_def intro: same_log_approvals)
  have verdict: "outcome_effects out = effects" "outcome_decision_kind out = map_action (pd_action pdec)"
    "outcome_decision out = d" "dr_risk_score d = risk"
    using settle_outcome [OF st] d(2) unfolding ctx by (simp_all add: effects_def evaluation_context_def)
  show ?thesis
    using settle_records [OF st] settle_approvals [OF st] unfolding same
    by (intro conjI exI [of _ pdec])
      (use verdict kind d(1) pd [unfolded ctx] in \<open>auto simp: effects_def\<close>)
qed

theorem evaluate_records_decision_witness:
  "\<exists>out n' l' row rest. witness_evaluate DS_FirstSeen = (Inr out, n', l') \<and>
     outcome_decision_kind out = DK_Approve \<and> led_events l' = row # rest \<and>
     er_event_type row = ''decision.recorded'' \<and> (\<exists>a. led_approvals l' = [a] \<and> a_server_id a = Some ''fs'')"
proof -
  have "map_sum id outcome_decision_kind (fst (witness_evaluate DS_FirstSeen)) = Inr DK_Approve"
    by code_simp
  then obtain d e req n' l' where ev: "witness_evaluate DS_FirstSeen = (Inr (ApproveOutcome d e req), n', l')"
    by (cases "witness_evaluate DS_FirstSeen" rule: prod_cases3)
      (auto simp: map_sum_Inr_iff elim!: outcome_decision_kind.elims)
  have empty: "led_events empty_db = []" by (simp add: empty_db_def empty_ledger_def ledger.defs)
  have srv: "ti_server_id witness_invocation = ''fs''" by (simp add: witness_invocation_def)
  from evaluate_records_decision [OF ev] show ?thesis by (auto simp: ev empty srv)
qed

lemma run_preflight_fails:
  assumes "t \<in> set (extract_long_text_fields args threshold)" "scanner t = Inl (InferenceFailed reason)"
  shows "fst (run_preflight x scanner env n sid args threshold l) = Inl ''t0_inference_failed''"
  using preflight_loop_fails [of t "extract_long_text_fields args threshold" scanner reason x env sid 0
      "\<lparr>ps_by_label = (\<lambda>_. None), ps_total_risk_delta = 0, ps_worst_status = SR_Unsupported,
        ps_audit_failures = n\<rparr>" l, OF assms]
  by (auto simp: run_preflight_def split: prod.splits sum.splits)

text \<open>
  C23. A failed scan fails closed. If the scanner cannot read some long text of the arguments, the
  evaluation returns \<open>PreflightScanFailed\<close> (or the configuration error), whatever the rules say and
  however harmless the other texts are; no verdict is recorded and no approval is created.
\<close>

theorem scan_failure_blocks:
  assumes "t \<in> set (extract_long_text_fields (ti_args call) (fc_long_text_threshold (fw_config fw)))"
    and "fw_scanner fw t = Inl (InferenceFailed reason)"
  shows "\<exists>e n' l'. firewall_evaluate fx x oracle env fw call scope_ctx n l = (Inl e, n', l') \<and>
    e \<in> {ReservedScopeKey, PreflightScanFailed ''t0_inference_failed''} \<and>
    led_events l' = led_events l \<and> led_approvals l' = led_approvals l"
proof -
  obtain n' l' where pf: "run_preflight x (fw_scanner fw) (fe_preflight env) n (ti_session_id call)
      (ti_args call) (fc_long_text_threshold (fw_config fw)) l = (Inl ''t0_inference_failed'', n', l')"
    using run_preflight_fails [of t "ti_args call" "fc_long_text_threshold (fw_config fw)" "fw_scanner fw"
        reason x "fe_preflight env" n "ti_session_id call" l, OF assms]
    by (metis fst_conv prod_cases3)
  have "same_log l l'" using run_preflight_keeps [of l x] pf by (metis snd_conv)
  then have "led_events l' = led_events l" "led_approvals l' = led_approvals l"
    by (auto simp: same_log_def intro: same_log_approvals)
  with pf show ?thesis by (simp add: firewall_evaluate_def Let_def split: prod.splits)
qed

theorem scan_failure_blocks_witness:
  defines "fw \<equiv> with_scanner (policy_engine_new default_ruleset) (witness_config\<lparr>fc_long_text_threshold := 5\<rparr>)
    (\<lambda>_. Inl (InferenceFailed ''oom''))"
  shows "extract_long_text_fields (ti_args witness_invocation) (fc_long_text_threshold (fw_config fw)) =
      [''/proj/a.txt''] \<and>
    (\<exists>e n' l'. firewall_evaluate witness_externs witness_qx (\<lambda>_ _ _. DS_ApprovedStable) witness_fenv fw
       witness_invocation NonOauth 0 empty_db = (Inl e, n', l') \<and> led_approvals l' = [])"
proof
  show texts: "extract_long_text_fields (ti_args witness_invocation) (fc_long_text_threshold (fw_config fw)) =
      [''/proj/a.txt'']"
    unfolding fw_def by code_simp
  have "fw_scanner fw ''/proj/a.txt'' = Inl (InferenceFailed ''oom'')"
    by (simp add: fw_def with_scanner_def)
  from scan_failure_blocks [OF _ this, of witness_invocation witness_externs witness_qx
      "\<lambda>_ _ _. DS_ApprovedStable" witness_fenv NonOauth 0 empty_db] texts
  show "\<exists>e n' l'. firewall_evaluate witness_externs witness_qx (\<lambda>_ _ _. DS_ApprovedStable) witness_fenv fw
       witness_invocation NonOauth 0 empty_db = (Inl e, n', l') \<and> led_approvals l' = []"
    by auto
qed

end
