(* ===== verification/Outbox.thy ===== *)
theory Outbox
  imports Approvals "HOL-Library.Sublist"
begin

text \<open>
  The outbox of outgoing messages (crate \<open>vigil-audit\<close>, \<open>outbox.rs\<close>): a message is drafted,
  submitted for approval, approved or refused, and executed. Each operation is one conditional
  \<open>UPDATE\<close>; the number of changed rows decides between success and the error. The table
  \<open>outbox_items\<close> extends the approval database.
\<close>

section \<open>Definitions\<close>

datatype outbox_kind = HttpPost | Email | BrowserSubmitItem

datatype outbox_status =
    OB_Drafted | OB_PendingApproval | OB_Approved | OB_Denied | OB_Expired | OB_Executed | OB_Failed
  | OB_Cancelled

fun kind_to_str :: "outbox_kind \<Rightarrow> string" where
  "kind_to_str HttpPost = ''http_post''"
| "kind_to_str Email = ''email''"
| "kind_to_str BrowserSubmitItem = ''browser_submit''"

definition parse_kind :: "string \<Rightarrow> outbox_kind audit_result" where
  "parse_kind s =
     (if s = ''http_post'' then Inr HttpPost
      else if s = ''email'' then Inr Email
      else if s = ''browser_submit'' then Inr BrowserSubmitItem
      else Inl (InvalidInput ''unknown outbox kind''))"

definition parse_outbox_status :: "string \<Rightarrow> outbox_status audit_result" where
  "parse_outbox_status s =
     (if s = ''Drafted'' then Inr OB_Drafted
      else if s = ''PendingApproval'' then Inr OB_PendingApproval
      else if s = ''Approved'' then Inr OB_Approved
      else if s = ''Denied'' then Inr OB_Denied
      else if s = ''Expired'' then Inr OB_Expired
      else if s = ''Executed'' then Inr OB_Executed
      else if s = ''Failed'' then Inr OB_Failed
      else if s = ''Cancelled'' then Inr OB_Cancelled
      else Inl (InvalidInput ''unknown outbox status''))"

record outbox_item =
  ob_outbox_id :: string
  ob_invocation_id :: string
  ob_session_id :: string
  ob_kind :: outbox_kind
  ob_preview_json :: json
  ob_approval_id :: "string option"
  ob_status :: outbox_status
  ob_created_at :: int
  ob_approved_at :: "int option"
  ob_executed_at :: "int option"

record outbox_row =
  o_outbox_id :: string
  o_invocation_id :: string
  o_session_id :: string
  o_kind :: string
  o_preview_json :: string
  o_approval_id :: "string option"
  o_status :: string
  o_created_at :: int
  o_approved_at :: "int option"
  o_executed_at :: "int option"

record outbox_db = approval_db +
  led_outbox :: "outbox_row list"

definition draft_outbox ::
  "ledger_externs \<Rightarrow> call_env \<Rightarrow> string \<Rightarrow> string \<Rightarrow> outbox_kind \<Rightarrow> json \<Rightarrow> 'z outbox_db_scheme
   \<Rightarrow> outbox_item audit_result \<times> 'z outbox_db_scheme" where
  "draft_outbox x env invocation_id sid kind preview l =
     (case lx_jcs x preview of None \<Rightarrow> (Inl Json, l) | Some preview_str \<Rightarrow>
      case detect_hard_secret (lx_redact x) preview_str of
        Some rule \<Rightarrow> (Inl (HardSecretDetected rule), l)
      | None \<Rightarrow>
          if ce_lock_poisoned env then (Inl LockPoisoned, l)
          else if ce_exec_fault env \<or> ce_uuid env \<in> set (map o_outbox_id (led_outbox l)) then
            (Inl Sqlite, l)
          else
            (Inr \<lparr>ob_outbox_id = ce_uuid env, ob_invocation_id = invocation_id, ob_session_id = sid,
                  ob_kind = kind, ob_preview_json = preview, ob_approval_id = None,
                  ob_status = OB_Drafted, ob_created_at = ce_now env, ob_approved_at = None,
                  ob_executed_at = None\<rparr>,
             l\<lparr>led_outbox := led_outbox l @
               [\<lparr>o_outbox_id = ce_uuid env, o_invocation_id = invocation_id, o_session_id = sid,
                 o_kind = kind_to_str kind, o_preview_json = preview_str, o_approval_id = None,
                 o_status = ''Drafted'', o_created_at = ce_now env, o_approved_at = None,
                 o_executed_at = None\<rparr>]\<rparr>))"

text \<open>One \<open>UPDATE \<dots> WHERE outbox_id = ? AND status IN (\<dots>)\<close>; no changed row is the given error.\<close>

definition outbox_update ::
  "call_env \<Rightarrow> string \<Rightarrow> string list \<Rightarrow> (outbox_row \<Rightarrow> outbox_row) \<Rightarrow> string \<Rightarrow> 'z outbox_db_scheme
   \<Rightarrow> unit audit_result \<times> 'z outbox_db_scheme" where
  "outbox_update env oid froms set_cols reason l =
     (if ce_lock_poisoned env then (Inl LockPoisoned, l)
      else if ce_exec_fault env then (Inl Sqlite, l)
      else
        let hit = (\<lambda>r. o_outbox_id r = oid \<and> o_status r \<in> set froms) in
        if \<not> list_ex hit (led_outbox l) then (Inl (InvalidInput reason), l)
        else (Inr (), l\<lparr>led_outbox := map (\<lambda>r. if hit r then set_cols r else r) (led_outbox l)\<rparr>))"

definition submit_outbox_for_approval ::
  "call_env \<Rightarrow> string \<Rightarrow> string \<Rightarrow> 'z outbox_db_scheme \<Rightarrow> unit audit_result \<times> 'z outbox_db_scheme" where
  "submit_outbox_for_approval env oid aid l =
     outbox_update env oid [''Drafted'']
       (\<lambda>r. r\<lparr>o_status := ''PendingApproval'', o_approval_id := Some aid\<rparr>)
       ''outbox not in Drafted state or not found'' l"

definition transition_outbox ::
  "call_env \<Rightarrow> string \<Rightarrow> string \<Rightarrow> string \<Rightarrow> bool \<Rightarrow> 'z outbox_db_scheme
   \<Rightarrow> unit audit_result \<times> 'z outbox_db_scheme" where
  "transition_outbox env oid from to set_approved_at l =
     outbox_update env oid [from]
       (\<lambda>r. if set_approved_at then r\<lparr>o_status := to, o_approved_at := Some (ce_now env)\<rparr>
            else r\<lparr>o_status := to\<rparr>)
       ''outbox not in expected state or not found'' l"

definition mark_outbox_approved ::
  "call_env \<Rightarrow> string \<Rightarrow> 'z outbox_db_scheme \<Rightarrow> unit audit_result \<times> 'z outbox_db_scheme" where
  "mark_outbox_approved env oid l = transition_outbox env oid ''PendingApproval'' ''Approved'' True l"

definition mark_outbox_denied ::
  "call_env \<Rightarrow> string \<Rightarrow> 'z outbox_db_scheme \<Rightarrow> unit audit_result \<times> 'z outbox_db_scheme" where
  "mark_outbox_denied env oid l = transition_outbox env oid ''PendingApproval'' ''Denied'' False l"

definition mark_outbox_expired ::
  "call_env \<Rightarrow> string \<Rightarrow> 'z outbox_db_scheme \<Rightarrow> unit audit_result \<times> 'z outbox_db_scheme" where
  "mark_outbox_expired env oid l = transition_outbox env oid ''PendingApproval'' ''Expired'' False l"

definition mark_outbox_executed ::
  "call_env \<Rightarrow> string \<Rightarrow> 'z outbox_db_scheme \<Rightarrow> unit audit_result \<times> 'z outbox_db_scheme" where
  "mark_outbox_executed env oid l =
     outbox_update env oid [''Approved'']
       (\<lambda>r. r\<lparr>o_status := ''Executed'', o_executed_at := Some (ce_now env)\<rparr>)
       ''outbox not in Approved state or not found'' l"

definition mark_outbox_failed ::
  "call_env \<Rightarrow> string \<Rightarrow> 'z outbox_db_scheme \<Rightarrow> unit audit_result \<times> 'z outbox_db_scheme" where
  "mark_outbox_failed env oid l = transition_outbox env oid ''Approved'' ''Failed'' False l"

definition cancel_outbox ::
  "call_env \<Rightarrow> string \<Rightarrow> 'z outbox_db_scheme \<Rightarrow> unit audit_result \<times> 'z outbox_db_scheme" where
  "cancel_outbox env oid l =
     outbox_update env oid [''Drafted'', ''PendingApproval''] (\<lambda>r. r\<lparr>o_status := ''Cancelled''\<rparr>)
       ''outbox not in cancellable state or not found'' l"



section \<open>The operations as one family\<close>

datatype outbox_op =
    Ob_draft call_env string string outbox_kind json
  | Ob_submit call_env string string
  | Ob_approved call_env string
  | Ob_denied call_env string
  | Ob_expired call_env string
  | Ob_executed call_env string
  | Ob_failed call_env string
  | Ob_cancel call_env string

fun run_outbox :: "ledger_externs \<Rightarrow> outbox_op \<Rightarrow> outbox_db \<Rightarrow> outbox_db" where
  "run_outbox x (Ob_draft env iid sid kind preview) l = snd (draft_outbox x env iid sid kind preview l)"
| "run_outbox x (Ob_submit env oid aid) l = snd (submit_outbox_for_approval env oid aid l)"
| "run_outbox x (Ob_approved env oid) l = snd (mark_outbox_approved env oid l)"
| "run_outbox x (Ob_denied env oid) l = snd (mark_outbox_denied env oid l)"
| "run_outbox x (Ob_expired env oid) l = snd (mark_outbox_expired env oid l)"
| "run_outbox x (Ob_executed env oid) l = snd (mark_outbox_executed env oid l)"
| "run_outbox x (Ob_failed env oid) l = snd (mark_outbox_failed env oid l)"
| "run_outbox x (Ob_cancel env oid) l = snd (cancel_outbox env oid l)"

definition run_outbox_ops :: "ledger_externs \<Rightarrow> outbox_op list \<Rightarrow> outbox_db \<Rightarrow> outbox_db" where
  "run_outbox_ops x ops l = foldl (\<lambda>l op. run_outbox x op l) l ops"

section \<open>The abstract machine\<close>

text \<open>
  The machine of one message as the code has it: what each call does to the status, \<open>None\<close> where
  the call is refused. It is not the diagram of ADR 0004 D7, which sends an expiry to \<open>Denied\<close>, a
  failure from \<open>Executed\<close> and has no cancellation after the submission.
\<close>

datatype outbox_event =
    OE_submit | OE_approve | OE_deny | OE_expire | OE_execute | OE_fail | OE_cancel

fun outbox_next :: "outbox_event \<Rightarrow> outbox_status \<Rightarrow> outbox_status option" where
  "outbox_next OE_submit OB_Drafted = Some OB_PendingApproval"
| "outbox_next OE_approve OB_PendingApproval = Some OB_Approved"
| "outbox_next OE_deny OB_PendingApproval = Some OB_Denied"
| "outbox_next OE_expire OB_PendingApproval = Some OB_Expired"
| "outbox_next OE_execute OB_Approved = Some OB_Executed"
| "outbox_next OE_fail OB_Approved = Some OB_Failed"
| "outbox_next OE_cancel OB_Drafted = Some OB_Cancelled"
| "outbox_next OE_cancel OB_PendingApproval = Some OB_Cancelled"
| "outbox_next _ _ = None"

text \<open>The statuses a call leaves.\<close>

fun event_from :: "outbox_event \<Rightarrow> outbox_status list" where
  "event_from OE_submit = [OB_Drafted]"
| "event_from OE_execute = [OB_Approved]"
| "event_from OE_fail = [OB_Approved]"
| "event_from OE_cancel = [OB_Drafted, OB_PendingApproval]"
| "event_from _ = [OB_PendingApproval]"

fun event_to :: "outbox_event \<Rightarrow> outbox_status" where
  "event_to OE_submit = OB_PendingApproval"
| "event_to OE_approve = OB_Approved"
| "event_to OE_deny = OB_Denied"
| "event_to OE_expire = OB_Expired"
| "event_to OE_execute = OB_Executed"
| "event_to OE_fail = OB_Failed"
| "event_to OE_cancel = OB_Cancelled"

lemma outbox_next_iff: "outbox_next ev s = (if s \<in> set (event_from ev) then Some (event_to ev) else None)"
  by (cases ev; cases s) simp_all


fun outbox_call ::
  "outbox_event \<Rightarrow> call_env \<Rightarrow> string \<Rightarrow> string \<Rightarrow> 'z outbox_db_scheme
   \<Rightarrow> unit audit_result \<times> 'z outbox_db_scheme" where
  "outbox_call OE_submit env oid aid l = submit_outbox_for_approval env oid aid l"
| "outbox_call OE_approve env oid aid l = mark_outbox_approved env oid l"
| "outbox_call OE_deny env oid aid l = mark_outbox_denied env oid l"
| "outbox_call OE_expire env oid aid l = mark_outbox_expired env oid l"
| "outbox_call OE_execute env oid aid l = mark_outbox_executed env oid l"
| "outbox_call OE_fail env oid aid l = mark_outbox_failed env oid l"
| "outbox_call OE_cancel env oid aid l = cancel_outbox env oid l"

fun outbox_status_str :: "outbox_status \<Rightarrow> string" where
  "outbox_status_str OB_Drafted = ''Drafted''"
| "outbox_status_str OB_PendingApproval = ''PendingApproval''"
| "outbox_status_str OB_Approved = ''Approved''"
| "outbox_status_str OB_Denied = ''Denied''"
| "outbox_status_str OB_Expired = ''Expired''"
| "outbox_status_str OB_Executed = ''Executed''"
| "outbox_status_str OB_Failed = ''Failed''"
| "outbox_status_str OB_Cancelled = ''Cancelled''"

lemma parse_outbox_status_str [simp]: "parse_outbox_status (outbox_status_str s) = Inr s"
  by (cases s) (simp_all add: parse_outbox_status_def)

lemma parse_kind_str [simp]: "parse_kind (kind_to_str k) = Inr k"
  by (cases k) (simp_all add: parse_kind_def)

lemma outbox_status_str_inject [simp]: "outbox_status_str s = outbox_status_str t \<longleftrightarrow> s = t"
  by (metis parse_outbox_status_str sum.inject(2))

lemma outbox_status_str_image [simp]:
  "outbox_status_str s \<in> outbox_status_str ` A \<longleftrightarrow> s \<in> A"
  by (auto simp: image_iff)



text \<open>The message an operation is about and the status it moves it to.\<close>

fun op_label :: "outbox_op \<Rightarrow> string \<times> outbox_status" where
  "op_label (Ob_draft env _ _ _ _) = (ce_uuid env, OB_Drafted)"
| "op_label (Ob_submit _ oid _) = (oid, OB_PendingApproval)"
| "op_label (Ob_approved _ oid) = (oid, OB_Approved)"
| "op_label (Ob_denied _ oid) = (oid, OB_Denied)"
| "op_label (Ob_expired _ oid) = (oid, OB_Expired)"
| "op_label (Ob_executed _ oid) = (oid, OB_Executed)"
| "op_label (Ob_failed _ oid) = (oid, OB_Failed)"
| "op_label (Ob_cancel _ oid) = (oid, OB_Cancelled)"

definition moves :: "string \<Rightarrow> outbox_status list \<Rightarrow> outbox_status \<Rightarrow> (outbox_row \<Rightarrow> outbox_row) \<Rightarrow> bool" where
  "moves oid froms to f \<longleftrightarrow>
     (\<exists>ev. froms = event_from ev \<and> to = event_to ev) \<and>
     (\<forall>r. o_outbox_id (f r) = o_outbox_id r \<and> o_preview_json (f r) = o_preview_json r \<and>
          o_status (f r) = outbox_status_str to)"

definition move_row ::
  "string \<Rightarrow> outbox_status list \<Rightarrow> (outbox_row \<Rightarrow> outbox_row) \<Rightarrow> outbox_row \<Rightarrow> outbox_row" where
  "move_row oid froms f r =
     (if o_outbox_id r = oid \<and> o_status r \<in> set (map outbox_status_str froms) then f r else r)"

text \<open>The operations other than drafting as calls: the environment, the event and the approval id.\<close>

fun op_call :: "outbox_op \<Rightarrow> (call_env \<times> outbox_event \<times> string) option" where
  "op_call (Ob_draft _ _ _ _ _) = None"
| "op_call (Ob_submit env _ aid) = Some (env, OE_submit, aid)"
| "op_call (Ob_approved env _) = Some (env, OE_approve, [])"
| "op_call (Ob_denied env _) = Some (env, OE_deny, [])"
| "op_call (Ob_expired env _) = Some (env, OE_expire, [])"
| "op_call (Ob_executed env _) = Some (env, OE_execute, [])"
| "op_call (Ob_failed env _) = Some (env, OE_fail, [])"
| "op_call (Ob_cancel env _) = Some (env, OE_cancel, [])"

lemmas outbox_op_defs =
  submit_outbox_for_approval_def mark_outbox_approved_def mark_outbox_denied_def
  mark_outbox_expired_def mark_outbox_executed_def mark_outbox_failed_def cancel_outbox_def
  transition_outbox_def

fun event_cols :: "outbox_event \<Rightarrow> call_env \<Rightarrow> string \<Rightarrow> outbox_row \<Rightarrow> outbox_row" where
  "event_cols OE_submit env aid = (\<lambda>r. r\<lparr>o_status := ''PendingApproval'', o_approval_id := Some aid\<rparr>)"
| "event_cols OE_approve env aid = (\<lambda>r. r\<lparr>o_status := ''Approved'', o_approved_at := Some (ce_now env)\<rparr>)"
| "event_cols OE_deny env aid = (\<lambda>r. r\<lparr>o_status := ''Denied''\<rparr>)"
| "event_cols OE_expire env aid = (\<lambda>r. r\<lparr>o_status := ''Expired''\<rparr>)"
| "event_cols OE_execute env aid = (\<lambda>r. r\<lparr>o_status := ''Executed'', o_executed_at := Some (ce_now env)\<rparr>)"
| "event_cols OE_fail env aid = (\<lambda>r. r\<lparr>o_status := ''Failed''\<rparr>)"
| "event_cols OE_cancel env aid = (\<lambda>r. r\<lparr>o_status := ''Cancelled''\<rparr>)"

lemma event_moves: "moves oid (event_from ev) (event_to ev) (event_cols ev env aid)"
proof -
  have "o_outbox_id (event_cols ev env aid r) = o_outbox_id r \<and>
      o_preview_json (event_cols ev env aid r) = o_preview_json r \<and>
      o_status (event_cols ev env aid r) = outbox_status_str (event_to ev)" for r
    by (cases ev) simp_all
  then show ?thesis by (auto simp: moves_def)
qed

lemma outbox_call_update:
  "\<exists>reason. outbox_call ev env oid aid l =
     outbox_update env oid (map outbox_status_str (event_from ev)) (event_cols ev env aid) reason l"
  by (cases ev) (auto simp: outbox_op_defs)

lemma run_outbox_call:
  assumes "op_call op = Some (env, ev, aid)"
  shows "run_outbox x op l = snd (outbox_call ev env (fst (op_label op)) aid l) \<and>
    snd (op_label op) = event_to ev"
  using assms by (cases op) auto

lemma outbox_update_rows:
  "led_outbox (snd (outbox_update env oid (map outbox_status_str froms) f reason l)) =
     (if ce_lock_poisoned env \<or> ce_exec_fault env then led_outbox l
      else map (move_row oid froms f) (led_outbox l))"
proof (cases "list_ex (\<lambda>r. o_outbox_id r = oid \<and> o_status r \<in> set (map outbox_status_str froms)) (led_outbox l)")
  case True
  then show ?thesis by (simp add: outbox_update_def Let_def move_row_def)
next
  case False
  then have "map (move_row oid froms f) (led_outbox l) = led_outbox l"
    by (intro map_idI) (auto simp: move_row_def list_ex_iff)
  then show ?thesis using False by (simp add: outbox_update_def)
qed

lemma run_outbox_cases:
  obtains (same) "led_outbox (run_outbox x op l) = led_outbox l"
  | (drafted) r where "led_outbox (run_outbox x op l) = led_outbox l @ [r]"
    "op_label op = (o_outbox_id r, OB_Drafted)" "o_outbox_id r \<notin> o_outbox_id ` set (led_outbox l)"
    "o_status r = outbox_status_str OB_Drafted"
    "detect_hard_secret (lx_redact x) (o_preview_json r) = None"
  | (moved) oid froms to f where "moves oid froms to f" "op_label op = (oid, to)"
    "led_outbox (run_outbox x op l) = map (move_row oid froms f) (led_outbox l)"
proof (cases "op_call op")
  case None
  then obtain env iid sid kind preview where op: "op = Ob_draft env iid sid kind preview"
    by (cases op) auto
  show thesis
  proof (cases "led_outbox (run_outbox x op l) = led_outbox l")
    case False
    then show ?thesis
      by (intro drafted [of "last (led_outbox (run_outbox x op l))"])
        (auto simp: op draft_outbox_def split: option.splits if_splits)
  qed (rule same)
next
  case (Some u)
  obtain env ev aid where u: "op_call op = Some (env, ev, aid)" using Some by (cases u) auto
  let ?f = "event_cols ev env aid"
  have "led_outbox (run_outbox x op l) =
     (if ce_lock_poisoned env \<or> ce_exec_fault env then led_outbox l
      else map (move_row (fst (op_label op)) (event_from ev) ?f) (led_outbox l))"
    using run_outbox_call [OF u, of x l] outbox_call_update [of ev env "fst (op_label op)" aid l]
    by (auto simp: outbox_update_rows)
  then show thesis
    using same moved [OF event_moves [of _ ev env aid]] run_outbox_call [OF u, of x l]
    by (cases "ce_lock_poisoned env \<or> ce_exec_fault env") (auto simp: prod_eq_iff)
qed

section \<open>Refinement and protocol\<close>

lemma move_row_simps:
  assumes "moves oid froms to f"
  shows "o_outbox_id (move_row oid froms f r) = o_outbox_id r"
    "o_preview_json (move_row oid froms f r) = o_preview_json r"
  using assms by (simp_all add: moves_def move_row_def)

lemma move_row_status:
  assumes "moves oid froms to f" "o_status r = outbox_status_str s"
  obtains "move_row oid froms f r = r" "o_outbox_id r \<noteq> oid \<or> s \<notin> set froms"
  | ev where "o_outbox_id r = oid" "s \<in> set froms" "outbox_next ev s = Some to"
    "o_status (move_row oid froms f r) = outbox_status_str to"
proof (cases "o_outbox_id r = oid \<and> s \<in> set froms")
  case True
  obtain ev where "froms = event_from ev" "to = event_to ev" using assms(1) by (auto simp: moves_def)
  then show thesis using that(2) [of ev] True assms by (simp add: moves_def move_row_def outbox_next_iff)
next
  case False
  then show thesis using that(1) assms(2) by (auto simp: move_row_def)
qed









text \<open>The statuses a message has gone through, except that a cancellation may also come after a submission.\<close>

fun outbox_path :: "outbox_status \<Rightarrow> outbox_status list" where
  "outbox_path OB_Drafted = [OB_Drafted]"
| "outbox_path OB_PendingApproval = [OB_Drafted, OB_PendingApproval]"
| "outbox_path OB_Approved = [OB_Drafted, OB_PendingApproval, OB_Approved]"
| "outbox_path OB_Denied = [OB_Drafted, OB_PendingApproval, OB_Denied]"
| "outbox_path OB_Expired = [OB_Drafted, OB_PendingApproval, OB_Expired]"
| "outbox_path OB_Executed = [OB_Drafted, OB_PendingApproval, OB_Approved, OB_Executed]"
| "outbox_path OB_Failed = [OB_Drafted, OB_PendingApproval, OB_Approved, OB_Failed]"
| "outbox_path OB_Cancelled = [OB_Drafted, OB_Cancelled]"

lemma outbox_path_step: "outbox_next ev s = Some t \<Longrightarrow> subseq (outbox_path t) (outbox_path s @ [t])"
  by (cases ev; cases s) auto

definition row_follows :: "ledger_externs \<Rightarrow> outbox_op list \<Rightarrow> outbox_row \<Rightarrow> bool" where
  "row_follows x ops r \<longleftrightarrow>
     detect_hard_secret (lx_redact x) (o_preview_json r) = None \<and>
     (\<exists>s. o_status r = outbox_status_str s \<and>
          subseq (map (Pair (o_outbox_id r)) (outbox_path s)) (map op_label ops))"

lemma row_follows_later: "row_follows x ops r \<Longrightarrow> row_follows x (ops @ [op]) r"
  by (auto simp: row_follows_def intro: list_emb_append2)

lemma row_follows_move:
  assumes "row_follows x ops r" "moves oid froms to f" "op_label op = (oid, to)"
  shows "row_follows x (ops @ [op]) (move_row oid froms f r)"
proof -
  obtain s where s: "o_status r = outbox_status_str s"
    "subseq (map (Pair (o_outbox_id r)) (outbox_path s)) (map op_label ops)"
    using assms(1) by (auto simp: row_follows_def)
  from assms(2) s(1) show ?thesis
  proof (cases rule: move_row_status)
    case 1
    then show ?thesis using row_follows_later [OF assms(1)] by simp
  next
    case 2
    have "subseq (map (Pair oid) (outbox_path to)) (map (Pair oid) (outbox_path s @ [to]))"
      by (rule subseq_map [OF outbox_path_step [OF 2(3)]])
    also have "subseq \<dots> (map op_label (ops @ [op]))"
      using s(2) 2(1) assms(3) by (simp add: list_emb_append_mono)
    finally show ?thesis
      using assms(1) 2 move_row_simps [OF assms(2)] by (auto simp: row_follows_def)
  qed
qed

lemma run_outbox_follows:
  assumes "list_all (row_follows x ops) (led_outbox l)"
  shows "list_all (row_follows x (ops @ [op])) (led_outbox (run_outbox x op l))"
proof (cases x op l rule: run_outbox_cases)
  case same
  then show ?thesis using assms row_follows_later by (auto simp: list_all_iff)
next
  case (drafted r)
  have "row_follows x (ops @ [op]) r"
    unfolding row_follows_def using drafted by (auto intro!: exI [of _ OB_Drafted] list_emb_append2)
  then show ?thesis using assms row_follows_later by (auto simp: list_all_iff drafted(1))
next
  case (moved oid froms to f)
  then show ?thesis using assms row_follows_move by (auto simp: list_all_iff)
qed

lemma run_outbox_ops_snoc: "run_outbox_ops x (ops @ [op]) l = run_outbox x op (run_outbox_ops x ops l)"
  by (simp add: run_outbox_ops_def)

section \<open>Properties\<close>

definition empty_outbox_db :: outbox_db where
  "empty_outbox_db = approval_db.extend empty_db \<lparr>led_outbox = []\<rparr>"

lemma empty_outbox_db_rows [simp]: "led_outbox empty_outbox_db = []"
  by (simp add: empty_outbox_db_def approval_db.defs)



text \<open>
  C22. Nothing leaves the outbox unapproved: after any sequence of operations on an empty outbox,
  a message is in a status only if its drafting, its submission, its approval and its execution
  (as far as the status requires) were called for its id in this order, and its stored
  preview shows no hard secret.
\<close>

theorem executed_only_after_approval:
  assumes "r \<in> set (led_outbox (run_outbox_ops x ops empty_outbox_db))"
  shows "detect_hard_secret (lx_redact x) (o_preview_json r) = None \<and>
    (\<exists>s. o_status r = outbox_status_str s \<and>
         subseq (map (Pair (o_outbox_id r)) (outbox_path s)) (map op_label ops))"
proof -
  have "list_all (row_follows x ops) (led_outbox (run_outbox_ops x ops empty_outbox_db))"
  proof (induction ops rule: rev_induct)
    case (snoc op ops)
    then show ?case unfolding run_outbox_ops_snoc by (rule run_outbox_follows)
  qed (simp add: run_outbox_ops_def)
  then show ?thesis using assms by (simp add: list_all_iff row_follows_def)
qed

definition witness_outbox_ops :: "outbox_op list" where
  "witness_outbox_ops =
     [Ob_draft witness_env ''i'' ''s'' HttpPost JNull, Ob_submit witness_env ''u-1'' ''a'',
      Ob_approved witness_env ''u-1'', Ob_executed witness_env ''u-1'']"

theorem executed_only_after_approval_witness:
  "subseq (map (Pair ''u-1'') [OB_Drafted, OB_PendingApproval, OB_Approved, OB_Executed])
     (map op_label witness_outbox_ops)"
proof -
  let ?rows = "led_outbox (run_outbox_ops witness_qx witness_outbox_ops empty_outbox_db)"
  have "map (\<lambda>r. (o_outbox_id r, o_status r)) ?rows = [(''u-1'', ''Executed'')]" by code_simp
  then obtain r where "r \<in> set ?rows" "o_outbox_id r = ''u-1''" "o_status r = outbox_status_str OB_Executed"
    by (cases ?rows) auto
  with executed_only_after_approval [OF this(1)] show ?thesis
    by (auto simp del: outbox_status_str.simps)
qed

end
