(* ===== verification/Span.thy ===== *)
theory Span
  imports Outbox
begin

text \<open>
  The span of one tool call (crate \<open>vigil-audit\<close>, \<open>span.rs\<close>): opened, decided, executed or failed,
  with an automatic \<open>tool_call.abandoned\<close> event when it is dropped early. The two type states are
  two datatypes, so that, as in the code, \<open>executed\<close> accepts only a span whose decision was recorded.
  An operation consumes its span; one that fails drops it, in the second of its environments.
\<close>

section \<open>Definitions\<close>

record tool_call_span =
  sp_invocation_id :: string
  sp_session_id :: string
  sp_finalized :: bool

datatype opened_span = Opened tool_call_span

datatype decided_span = Decided tool_call_span

text \<open>The counter of \<open>abandoned\<close> events that could not be written.\<close>

record span_db = outbox_db +
  led_drop_failure_count :: u64

text \<open>A database with the rows of an approval table and no message, no lost event.\<close>

definition new_span_db :: "approval_db \<Rightarrow> span_db" where
  "new_span_db a = outbox_db.extend (approval_db.extend a \<lparr>led_outbox = []\<rparr>) \<lparr>led_drop_failure_count = 0\<rparr>"

definition drop_span ::
  "ledger_externs \<Rightarrow> call_env \<Rightarrow> tool_call_span \<Rightarrow> 'z span_db_scheme \<Rightarrow> 'z span_db_scheme" where
  "drop_span x env sp l =
     (if sp_finalized sp then l
      else
        case append_event_internal x env (sp_session_id sp) ''tool_call.abandoned''
               (JObject [(''invocation_id'', JString (sp_invocation_id sp))])
               (Some (''invocation_id:'' @ sp_invocation_id sp)) l of
          (Inl _, l') \<Rightarrow> l'\<lparr>led_drop_failure_count := led_drop_failure_count l' + 1\<rparr>
        | (Inr _, l') \<Rightarrow> l')"

definition open_span ::
  "ledger_externs \<Rightarrow> call_env \<Rightarrow> string \<Rightarrow> string \<Rightarrow> 'z span_db_scheme
   \<Rightarrow> opened_span audit_result \<times> 'z span_db_scheme" where
  "open_span x env invocation_id sid l =
     (case append_event_internal x env sid ''tool_call.opened''
             (JObject [(''invocation_id'', JString invocation_id)])
             (Some (''invocation_id:'' @ invocation_id)) l of
        (Inl e, l') \<Rightarrow> (Inl e, l')
      | (Inr _, l') \<Rightarrow> (Inr (Opened \<lparr>sp_invocation_id = invocation_id, sp_session_id = sid,
                                     sp_finalized = False\<rparr>), l'))"

definition ledger_tool_call_span ::
  "ledger_externs \<Rightarrow> call_env \<Rightarrow> string \<Rightarrow> string \<Rightarrow> 'z span_db_scheme
   \<Rightarrow> opened_span audit_result \<times> 'z span_db_scheme" where
  "ledger_tool_call_span x env invocation_id sid l = open_span x env invocation_id sid l"

fun decision_recorded ::
  "ledger_externs \<Rightarrow> call_env \<Rightarrow> call_env \<Rightarrow> opened_span \<Rightarrow> decision_record \<Rightarrow> 'z span_db_scheme
   \<Rightarrow> decided_span audit_result \<times> 'z span_db_scheme" where
  "decision_recorded x env env2 (Opened sp) d l =
     (let payload = JObject
            [(''invocation_id'', JString (sp_invocation_id sp)),
             (''decision_id'', JString (dr_decision_id d)),
             (''decision'', JString (decision_kind_str (dr_decision d))),
             (''risk_score'', JNumber (show_nat (unat (dr_risk_score d)))),
             (''reasons'', j_strs (dr_reasons d)),
             (''policy_ids'', j_strs (dr_policy_ids d))]
      in case append_event_internal x env (sp_session_id sp) ''tool_call.decided'' payload
                (Some (''invocation_id:'' @ sp_invocation_id sp @ '' decision_id:'' @ dr_decision_id d)) l of
           (Inl e, l') \<Rightarrow> (Inl e, drop_span x env2 sp l')
         | (Inr _, l') \<Rightarrow>
             (Inr (Decided \<lparr>sp_invocation_id = sp_invocation_id sp, sp_session_id = sp_session_id sp,
                            sp_finalized = False\<rparr>),
              drop_span x env2 (sp\<lparr>sp_finalized := True\<rparr>) l'))"

fun executed ::
  "ledger_externs \<Rightarrow> call_env \<Rightarrow> call_env \<Rightarrow> decided_span \<Rightarrow> string \<Rightarrow> 'z span_db_scheme
   \<Rightarrow> unit audit_result \<times> 'z span_db_scheme" where
  "executed x env env2 (Decided sp) summary l =
     (case append_event_internal x env (sp_session_id sp) ''tool_call.executed''
             (JObject [(''invocation_id'', JString (sp_invocation_id sp)), (''summary'', JString summary)])
             (Some (''invocation_id:'' @ sp_invocation_id sp @ '' '' @ summary)) l of
        (Inl e, l') \<Rightarrow> (Inl e, drop_span x env2 sp l')
      | (Inr _, l') \<Rightarrow> (Inr (), drop_span x env2 (sp\<lparr>sp_finalized := True\<rparr>) l'))"

fun execute_failed ::
  "ledger_externs \<Rightarrow> call_env \<Rightarrow> call_env \<Rightarrow> decided_span \<Rightarrow> string \<Rightarrow> 'z span_db_scheme
   \<Rightarrow> unit audit_result \<times> 'z span_db_scheme" where
  "execute_failed x env env2 (Decided sp) reason l =
     (case append_event_internal x env (sp_session_id sp) ''tool_call.execute_failed''
             (JObject [(''invocation_id'', JString (sp_invocation_id sp)), (''reason'', JString reason)])
             (Some (''invocation_id:'' @ sp_invocation_id sp @ '' '' @ reason)) l of
        (Inl e, l') \<Rightarrow> (Inl e, drop_span x env2 sp l')
      | (Inr _, l') \<Rightarrow> (Inr (), drop_span x env2 (sp\<lparr>sp_finalized := True\<rparr>) l'))"

section \<open>Every use a client can make of a span\<close>

text \<open>What the types allow: each span is used once, by one of its methods or by dropping it.\<close>

datatype decided_use =
    Use_executed call_env call_env string
  | Use_failed call_env call_env string
  | Use_drop_decided call_env

datatype opened_use =
    Use_decision call_env call_env decision_record decided_use
  | Use_drop_opened call_env

fun use_decided :: "ledger_externs \<Rightarrow> decided_use \<Rightarrow> decided_span \<Rightarrow> 'z span_db_scheme \<Rightarrow> 'z span_db_scheme"
  where
  "use_decided x (Use_executed env env2 summary) sp l = snd (executed x env env2 sp summary l)"
| "use_decided x (Use_failed env env2 reason) sp l = snd (execute_failed x env env2 sp reason l)"
| "use_decided x (Use_drop_decided env) (Decided sp) l = drop_span x env sp l"

fun use_opened :: "ledger_externs \<Rightarrow> opened_use \<Rightarrow> opened_span \<Rightarrow> 'z span_db_scheme \<Rightarrow> 'z span_db_scheme"
  where
  "use_opened x (Use_decision env env2 d use) sp l =
     (case decision_recorded x env env2 sp d l of
        (Inl _, l') \<Rightarrow> l'
      | (Inr sp', l') \<Rightarrow> use_decided x use sp' l')"
| "use_opened x (Use_drop_opened env) (Opened sp) l = drop_span x env sp l"

definition run_span ::
  "ledger_externs \<Rightarrow> call_env \<Rightarrow> string \<Rightarrow> string \<Rightarrow> opened_use \<Rightarrow> 'z span_db_scheme \<Rightarrow> 'z span_db_scheme"
  where
  "run_span x env invocation_id sid use l =
     (case ledger_tool_call_span x env invocation_id sid l of
        (Inl _, l') \<Rightarrow> l'
      | (Inr sp, l') \<Rightarrow> use_opened x use sp l')"

section \<open>The events of a span\<close>

text \<open>\<open>extends_by sid types n l l'\<close>: events of these types, all of the session, and \<open>n\<close> lost ones.\<close>

definition extends_by :: "string \<Rightarrow> string list \<Rightarrow> u64 \<Rightarrow> 'z span_db_scheme \<Rightarrow> 'z span_db_scheme \<Rightarrow> bool" where
  "extends_by sid types n l l' \<longleftrightarrow>
     (\<exists>new. led_events l' = led_events l @ new \<and> map er_event_type new = types \<and>
            list_all (\<lambda>r. er_session_id r = sid) new) \<and>
     led_drop_failure_count l' = led_drop_failure_count l + n"

lemma extends_by_refl [simp]: "extends_by sid [] 0 l l"
  by (simp add: extends_by_def)

lemma extends_by_trans:
  assumes "extends_by sid ts n l l1" "extends_by sid ts' n' l1 l2"
  shows "extends_by sid (ts @ ts') (n + n') l l2"
  using assms by (auto simp: extends_by_def add.assoc)

lemma append_extends_by:
  obtains (err) e where "append_event_internal x env sid ty p rt l = (Inl e, l)"
  | (ok) a l' where "append_event_internal x env sid ty p rt l = (Inr a, l')" "extends_by sid [ty] 0 l l'"
proof (cases x env sid ty p rt l rule: append_cases)
  case (ok row)
  have "led_drop_failure_count (insert_event row l) = led_drop_failure_count l"
    by (simp add: insert_event_def)
  moreover have "er_event_type row = ty" "er_session_id row = sid"
    using ok(2) by (auto elim!: new_event_row_Inr)
  ultimately show thesis using that(2) [OF ok(1)] by (simp add: extends_by_def)
qed (rule that(1))

lemma drop_extends:
  "if sp_finalized sp then drop_span x env sp l = l
   else extends_by (sp_session_id sp) [''tool_call.abandoned''] 0 l (drop_span x env sp l) \<or>
        extends_by (sp_session_id sp) [] 1 l (drop_span x env sp l)"
  by (cases x env "sp_session_id sp" "''tool_call.abandoned''"
      "JObject [(''invocation_id'', JString (sp_invocation_id sp))]"
      "Some (''invocation_id:'' @ sp_invocation_id sp)" l rule: append_extends_by)
    (auto simp: drop_span_def extends_by_def)

text \<open>The event types of a complete span and of one whose last event was lost.\<close>

definition decided_words :: "(string list \<times> u64) list" where
  "decided_words =
     [([''tool_call.executed''], 0), ([''tool_call.execute_failed''], 0),
      ([''tool_call.abandoned''], 0), ([], 1)]"

definition opened_words :: "(string list \<times> u64) list" where
  "opened_words =
     [([''tool_call.abandoned''], 0), ([], 1)] @
     map (\<lambda>(ts, n). (''tool_call.decided'' # ts, n)) decided_words"

definition span_words :: "(string list \<times> u64) list" where
  "span_words = ([], 0) # map (\<lambda>(ts, n). (''tool_call.opened'' # ts, n)) opened_words"

definition follows_words ::
  "string \<Rightarrow> (string list \<times> u64) list \<Rightarrow> 'z span_db_scheme \<Rightarrow> 'z span_db_scheme \<Rightarrow> bool" where
  "follows_words sid ws l l' \<longleftrightarrow> (\<exists>(ts, n) \<in> set ws. extends_by sid ts n l l')"

lemma follows_wordsI: "(ts, n) \<in> set ws \<Longrightarrow> extends_by sid ts n l l' \<Longrightarrow> follows_words sid ws l l'"
  by (auto simp: follows_words_def)

lemma follows_words_prefix:
  assumes "extends_by sid [t] 0 l l1" "follows_words sid ws l1 l2"
  shows "follows_words sid (map (\<lambda>(ts, n). (t # ts, n)) ws) l l2"
proof -
  obtain ts n where "(ts, n) \<in> set ws" "extends_by sid ts n l1 l2"
    using assms(2) by (auto simp: follows_words_def)
  then show ?thesis
    using extends_by_trans [OF assms(1), of ts n l2] by (intro follows_wordsI [of "t # ts" n]) force+
qed

lemma drop_words:
  "\<not> sp_finalized sp \<Longrightarrow> sp_session_id sp = sid \<Longrightarrow> ([''tool_call.abandoned''], 0) \<in> set ws \<Longrightarrow>
   ([], 1) \<in> set ws \<Longrightarrow> follows_words sid ws l (drop_span x env sp l)"
  using drop_extends [of sp x env l] by (auto intro: follows_wordsI)

lemma drop_finalized [simp]: "drop_span x env (sp\<lparr>sp_finalized := True\<rparr>) l = l"
  by (simp add: drop_span_def)

text \<open>The one step the three consuming methods share: append, or drop the span on an error.\<close>

lemma append_or_drop_words:
  assumes "\<not> sp_finalized sp" "sp_session_id sp = sid" "([''tool_call.abandoned''], 0) \<in> set ws"
    "([], 1) \<in> set ws" "\<And>a l'. extends_by sid [ty] 0 l l' \<Longrightarrow> follows_words sid ws l (f a l')"
  shows "follows_words sid ws l
    (case append_event_internal x env sid ty p rt l of
       (Inl e, l') \<Rightarrow> drop_span x env2 sp l'
     | (Inr a, l') \<Rightarrow> f a l')"
  by (cases x env sid ty p rt l rule: append_extends_by) (simp_all add: assms drop_words)

lemma snd_append_case:
  "snd (case p of (Inl e, l') \<Rightarrow> (Inl e, f l') | (Inr a, l') \<Rightarrow> (Inr b, h l')) =
     (case p of (Inl e, l') \<Rightarrow> f l' | (Inr a, l') \<Rightarrow> h l')"
  by (cases p; cases "fst p") auto

lemma append_case_case:
  "(case (case p of (Inl e, l') \<Rightarrow> (Inl e, f l') | (Inr a, l') \<Rightarrow> (Inr b, h l')) of
      (Inl _, l') \<Rightarrow> l' | (Inr b, l') \<Rightarrow> k b l') =
     (case p of (Inl e, l') \<Rightarrow> f l' | (Inr a, l') \<Rightarrow> k b (h l'))"
  by (cases p; cases "fst p") auto

lemma use_decided_words:
  assumes "\<not> sp_finalized sp" "sp_session_id sp = sid"
  shows "follows_words sid decided_words l (use_decided x use (Decided sp) l)"
proof (cases use)
  case (Use_executed env env2 summary)
  show ?thesis unfolding Use_executed use_decided.simps executed.simps snd_append_case assms(2)
    by (rule append_or_drop_words [OF assms])
      (auto simp: decided_words_def intro: follows_wordsI [of "[''tool_call.executed'']" 0])
next
  case (Use_failed env env2 reason)
  show ?thesis unfolding Use_failed use_decided.simps execute_failed.simps snd_append_case assms(2)
    by (rule append_or_drop_words [OF assms])
      (auto simp: decided_words_def intro: follows_wordsI [of "[''tool_call.execute_failed'']" 0])
next
  case (Use_drop_decided env)
  then show ?thesis by (simp add: drop_words assms decided_words_def)
qed

lemma follows_words_mono: "follows_words sid ws l l' \<Longrightarrow> set ws \<subseteq> set ws' \<Longrightarrow> follows_words sid ws' l l'"
  by (auto simp: follows_words_def)

lemma use_opened_words:
  assumes "\<not> sp_finalized sp" "sp_session_id sp = sid"
  shows "follows_words sid opened_words l (use_opened x use (Opened sp) l)"
proof (cases use)
  case (Use_decision env env2 d use2)
  show ?thesis
    unfolding Use_decision use_opened.simps decision_recorded.simps Let_def append_case_case assms(2)
  proof (rule append_or_drop_words [OF assms])
    fix a l'
    let ?sp' = "\<lparr>sp_invocation_id = sp_invocation_id sp, sp_session_id = sid, sp_finalized = False\<rparr>"
    assume "extends_by sid [''tool_call.decided''] 0 l l'"
    then have "follows_words sid (map (\<lambda>(ts, n). (''tool_call.decided'' # ts, n)) decided_words) l
        (use_decided x use2 (Decided ?sp') l')"
      by (rule follows_words_prefix) (simp add: use_decided_words)
    then have "follows_words sid opened_words l (use_decided x use2 (Decided ?sp') l')"
      by (rule follows_words_mono) (auto simp: opened_words_def)
    then show "follows_words sid opened_words l
        (use_decided x use2 (Decided ?sp') (drop_span x env2 (sp\<lparr>sp_finalized := True\<rparr>) l'))"
      by simp
  qed (simp_all add: opened_words_def)
next
  case (Use_drop_opened env)
  then show ?thesis by (simp add: drop_words assms opened_words_def)
qed

section \<open>Properties\<close>

text \<open>
  C33. Whatever a client does with a span and whichever writes fail, the events the span leaves in
  the ledger spell one of seven words: nothing (it could not be opened), or \<open>opened\<close> followed by
  \<open>abandoned\<close> or nothing, or \<open>opened\<close>, \<open>decided\<close> and then exactly one of \<open>executed\<close>,
  \<open>execute_failed\<close>, \<open>abandoned\<close> or nothing. So no execution is recorded without the decision
  before it, and the failure counter grows by one exactly when the closing event was lost.
\<close>

theorem span_events_in_order:
  "\<exists>(types, lost) \<in> set span_words. extends_by sid types lost l (run_span x env invocation_id sid use l)"
proof (cases x env sid "''tool_call.opened''" "JObject [(''invocation_id'', JString invocation_id)]"
    "Some (''invocation_id:'' @ invocation_id)" l rule: append_extends_by)
  case (err e)
  then have "run_span x env invocation_id sid use l = l"
    by (simp add: run_span_def ledger_tool_call_span_def open_span_def)
  then show ?thesis by (simp add: span_words_def)
next
  case (ok a l')
  define sp where "sp = \<lparr>sp_invocation_id = invocation_id, sp_session_id = sid, sp_finalized = False\<rparr>"
  have "run_span x env invocation_id sid use l = use_opened x use (Opened sp) l'"
    using ok(1) by (simp add: run_span_def ledger_tool_call_span_def open_span_def sp_def)
  then have "follows_words sid (map (\<lambda>(ts, n). (''tool_call.opened'' # ts, n)) opened_words) l
      (run_span x env invocation_id sid use l)"
    using follows_words_prefix [OF ok(2) use_opened_words [of sp sid l' x use]] by (simp add: sp_def)
  then have "follows_words sid span_words l (run_span x env invocation_id sid use l)"
    by (rule follows_words_mono) (auto simp: span_words_def)
  then show ?thesis by (simp add: follows_words_def)
qed

end
