(* ===== verification/Registry.thy ===== *)
theory Registry
  imports Firewall Span
begin

text \<open>
  The server registry (crate \<open>vigil-audit\<close>: \<open>registry.rs\<close>) and the descriptor oracle that reads it
  (crate \<open>vigil-mcp\<close>: \<open>oracle.rs\<close>): server profiles, tool descriptors with their approval and
  drift states, command and resolved-program drift, secret aliases and bindings, sandbox profiles
  and OAuth token metadata.

  The tables extend the database record of the approvals. Every operation takes one \<open>call_env\<close> for
  each time it takes the connection lock. The reader and writer of a list of strings as JSON are
  the fields of \<open>strs_codec\<close>.
\<close>

section \<open>Rows and results\<close>

record strs_codec =
  sc_to_string :: "string list \<Rightarrow> string option"
  sc_from_str :: "string \<Rightarrow> string list option"

datatype pin_outcome = PO_FirstSeen | PO_Unchanged | PO_Drifted string string

record command_drift =
  cd_old :: string
  cd_new :: string

record resolved_program_drift =
  rpd_old :: string
  rpd_new :: string

datatype resolved_program_outcome =
    RP_Unchanged
  | RP_Pinned string
  | RP_Drifted resolved_program_drift

record stored_server_profile =
  ssp_server_id :: string
  ssp_transport :: transport_kind
  ssp_command :: "string list option"
  ssp_url :: "string option"
  ssp_first_seen_at :: int
  ssp_command_hash :: "string option"
  ssp_descriptor_hash :: "string option"
  ssp_trust_level :: trust_level
  ssp_sandbox_profile_id :: "string option"
  ssp_pending_command_hash :: "string option"
  ssp_last_drift_at :: "int option"

record server_onboarding_data =
  so_server_id :: string
  so_transport :: transport_kind
  so_command :: "string list option"
  so_url :: "string option"
  so_command_hash :: "string option"
  so_pending_command_hash :: "string option"
  so_requested_env_keys :: "string list option"
  so_sandbox_profile_id :: "string option"
  so_first_seen_at :: int
  so_trust_level :: trust_level

record tool_approval_card =
  tac_server_id :: string
  tac_tool_name :: string
  tac_current_hash :: string
  tac_proposed_hash :: "string option"
  tac_first_seen_at :: int
  tac_approved_at :: "int option"
  tac_last_drift_at :: "int option"

record server_row =
  sv_server_id :: string
  sv_transport :: string
  sv_command_json :: "string option"
  sv_url :: "string option"
  sv_first_seen_at :: int
  sv_command_hash :: "string option"
  sv_descriptor_hash :: "string option"
  sv_trust_level :: string
  sv_sandbox_profile_id :: "string option"
  sv_pending_command_hash :: "string option"
  sv_last_drift_at :: "int option"
  sv_pending_command_json :: "string option"
  sv_resolved_program_path :: "string option"
  sv_pending_resolved_program_path :: "string option"

record tool_row =
  td_server_id :: string
  td_tool_name :: string
  td_descriptor_hash :: string
  td_first_seen_at :: int
  td_approved_at :: "int option"
  td_pending_hash :: "string option"
  td_last_seen_hash :: string
  td_last_seen_at :: int
  td_last_drift_at :: "int option"

record secret_ref_entry =
  sr_secret_ref :: string
  sr_display_name :: string
  sr_provider :: string
  sr_fingerprint :: string
  sr_created_at :: int
  sr_last_used_at :: "int option"

record tool_secret_binding =
  tb_server_id :: string
  tb_tool_name :: string
  tb_secret_ref :: string
  tb_injection_method :: string
  tb_env_var_name :: "string option"

record sandbox_profile_row =
  sb_profile_id :: string
  sb_profile_json :: string
  sb_profile_hash :: string
  sb_created_at :: int
  sb_updated_at :: int

record oauth_token_metadata_row =
  om_token_ref :: string
  om_resource :: string
  om_authorization_server :: string
  om_scope_set :: "string list"
  om_token_kind :: string
  om_expires_at :: "int option"
  om_created_at :: int
  om_issuer :: "string option"

record oauth_row =
  ot_token_ref :: string
  ot_resource :: string
  ot_authorization_server :: string
  ot_scope_set_json :: string
  ot_token_kind :: string
  ot_expires_at :: "int option"
  ot_created_at :: int
  ot_issuer :: "string option"
  ot_binding_event_id :: "int option"

record registry_db = span_db +
  reg_servers :: "server_row list"
  reg_tools :: "tool_row list"
  reg_secret_refs :: "secret_ref_entry list"
  reg_bindings :: "tool_secret_binding list"
  reg_sandbox :: "sandbox_profile_row list"
  reg_oauth :: "oauth_row list"

text \<open>A query or a statement on the locked connection.\<close>

definition db_step :: "call_env \<Rightarrow> 'a audit_result \<Rightarrow> 'a audit_result" where
  "db_step env r =
     (if ce_lock_poisoned env then Inl LockPoisoned else if ce_exec_fault env then Inl Sqlite else r)"

definition db_write :: "call_env \<Rightarrow> 'a audit_result \<times> 'l \<Rightarrow> 'l \<Rightarrow> 'a audit_result \<times> 'l" where
  "db_write env r l =
     (if ce_lock_poisoned env then (Inl LockPoisoned, l) else if ce_exec_fault env then (Inl Sqlite, l) else r)"

text \<open>\<open>UPDATE ... WHERE\<close> that must touch a row.\<close>

definition update_rows ::
  "call_env \<Rightarrow> ('r \<Rightarrow> bool) \<Rightarrow> ('r \<Rightarrow> 'r) \<Rightarrow> string \<Rightarrow> 'r list \<Rightarrow> unit audit_result \<times> 'r list" where
  "update_rows env p f reason rows =
     db_write env
       (if list_ex p rows then (Inr (), map (\<lambda>r. if p r then f r else r) rows)
        else (Inl (InvalidInput reason), rows)) rows"

fun transport_to_str :: "transport_kind \<Rightarrow> string" where
  "transport_to_str Stdio = ''Stdio''"
| "transport_to_str Http = ''Http''"

definition parse_transport :: "string \<Rightarrow> transport_kind audit_result" where
  "parse_transport s =
     (if s = ''Stdio'' then Inr Stdio else if s = ''Http'' then Inr Http
      else Inl (InvalidInput ''unknown transport kind''))"

fun trust_to_str :: "trust_level \<Rightarrow> string" where
  "trust_to_str Untrusted = ''Untrusted''"
| "trust_to_str Limited = ''Limited''"
| "trust_to_str Trusted = ''Trusted''"

definition parse_trust :: "string \<Rightarrow> trust_level audit_result" where
  "parse_trust s =
     (if s = ''Untrusted'' then Inr Untrusted else if s = ''Limited'' then Inr Limited
      else if s = ''Trusted'' then Inr Trusted else Inl (InvalidInput ''unknown trust level''))"

definition secret_in_argv_reason :: "string \<Rightarrow> string" where
  "secret_in_argv_reason rule' =
     (if rule' \<in> {''github_token'', ''anthropic_key'', ''openai_key'', ''slack_token'',
                 ''aws_access_key'', ''google_api_key'', ''pem_private_key''}
      then ''argv_contains_secret:'' @ rule' else ''argv_contains_secret:other'')"

text \<open>The hard-fingerprint lint of an argument vector: the first element that has one decides.\<close>

definition argv_secret :: "ledger_externs \<Rightarrow> string list \<Rightarrow> string option" where
  "argv_secret x argv = list_head (List.map_filter (detect_hard_secret (lx_redact x)) argv)"

definition argv_hash :: "ledger_externs \<Rightarrow> string list \<Rightarrow> string" where
  "argv_hash x argv =
     lx_hex_encode x (lx_sha256 x (case lx_jcs x (j_strs argv) of None \<Rightarrow> [] | Some b \<Rightarrow> b))"

definition secret_ref_fingerprint :: "ledger_externs \<Rightarrow> string \<Rightarrow> string" where
  "secret_ref_fingerprint x secret_ref =
     lx_hex_encode x (lx_sha256 x (''vigil.secret_ref.fp.v1'' @ [CHR 0x00] @ secret_ref))"

definition RESERVED_ENV_KEYS :: "string list" where
  "RESERVED_ENV_KEYS =
     [''SystemRoot'', ''SYSTEMROOT'', ''windir'', ''WINDIR'', ''SystemDrive'', ''SYSTEMDRIVE'']"

definition is_reserved_env_key_name :: "string \<Rightarrow> bool" where
  "is_reserved_env_key_name key = list_ex (\<lambda>k. eq_ignore_ascii_case k key) RESERVED_ENV_KEYS"

text \<open>\<open>for r in rows { out.push(f(r)?) }\<close>.\<close>

fun try_map :: "('a \<Rightarrow> 'e + 'b) \<Rightarrow> 'a list \<Rightarrow> 'e + 'b list" where
  "try_map f [] = Inr []"
| "try_map f (a # as) =
     (case f a of
        Inl e \<Rightarrow> Inl e
      | Inr b \<Rightarrow> (case try_map f as of Inl e \<Rightarrow> Inl e | Inr bs \<Rightarrow> Inr (b # bs)))"

definition system_event ::
  "ledger_externs \<Rightarrow> call_env \<Rightarrow> string \<Rightarrow> (string \<times> json) list \<Rightarrow> string \<Rightarrow> 'z ledger_scheme
   \<Rightarrow> 'z ledger_scheme" where
  "system_event x env ty members fts l =
     snd (append_event_internal x env ''system'' ty (JObject members) (Some fts) l)"

section \<open>Servers\<close>

definition find_server :: "string \<Rightarrow> 'z registry_db_scheme \<Rightarrow> server_row option" where
  "find_server sid l = find (\<lambda>r. sv_server_id r = sid) (reg_servers l)"

definition decode_command :: "strs_codec \<Rightarrow> string option \<Rightarrow> string list option audit_result" where
  "decode_command codec j =
     (case j of
        None \<Rightarrow> Inr None
      | Some s \<Rightarrow> (case sc_from_str codec s of None \<Rightarrow> Inl Json | Some argv \<Rightarrow> Inr (Some argv)))"

definition stored_of_row :: "strs_codec \<Rightarrow> server_row \<Rightarrow> stored_server_profile audit_result" where
  "stored_of_row codec r =
     (case decode_command codec (sv_command_json r) of Inl e \<Rightarrow> Inl e | Inr command \<Rightarrow>
      case parse_transport (sv_transport r) of Inl e \<Rightarrow> Inl e | Inr transport \<Rightarrow>
      case parse_trust (sv_trust_level r) of Inl e \<Rightarrow> Inl e | Inr trust \<Rightarrow>
        Inr \<lparr>ssp_server_id = sv_server_id r, ssp_transport = transport, ssp_command = command,
             ssp_url = sv_url r, ssp_first_seen_at = sv_first_seen_at r,
             ssp_command_hash = sv_command_hash r, ssp_descriptor_hash = sv_descriptor_hash r,
             ssp_trust_level = trust, ssp_sandbox_profile_id = sv_sandbox_profile_id r,
             ssp_pending_command_hash = sv_pending_command_hash r,
             ssp_last_drift_at = sv_last_drift_at r\<rparr>)"

definition get_server ::
  "strs_codec \<Rightarrow> call_env \<Rightarrow> string \<Rightarrow> 'z registry_db_scheme \<Rightarrow> stored_server_profile option audit_result" where
  "get_server codec env sid l =
     db_step env
       (case find_server sid l of
          None \<Rightarrow> Inr None
        | Some r \<Rightarrow> (case stored_of_row codec r of Inl e \<Rightarrow> Inl e | Inr p \<Rightarrow> Inr (Some p)))"

definition new_server_row :: "server_profile \<Rightarrow> string option \<Rightarrow> server_row" where
  "new_server_row p command_json =
     \<lparr>sv_server_id = sp_server_id p, sv_transport = transport_to_str (sp_transport p),
      sv_command_json = command_json, sv_url = sp_url p, sv_first_seen_at = sp_first_seen_at p,
      sv_command_hash = sp_command_hash p, sv_descriptor_hash = sp_descriptor_hash p,
      sv_trust_level = trust_to_str (sp_trust_level p), sv_sandbox_profile_id = sp_sandbox_profile_id p,
      sv_pending_command_hash = None, sv_last_drift_at = None, sv_pending_command_json = None,
      sv_resolved_program_path = None, sv_pending_resolved_program_path = None\<rparr>"

definition register_server ::
  "ledger_externs \<Rightarrow> strs_codec \<Rightarrow> call_env \<Rightarrow> call_env \<Rightarrow> server_profile \<Rightarrow> 'z registry_db_scheme
   \<Rightarrow> bool audit_result \<times> 'z registry_db_scheme" where
  "register_server x codec env env2 p l =
     (if sp_transport p = Stdio \<and> (sp_command p = None \<or> sp_command_hash p = None) then
        (Inl (InvalidInput ''stdio server profile requires both command and command_hash''), l)
      else
        (case Option.bind (sp_command p) (argv_secret x) of
           Some rule' \<Rightarrow> (Inl (InvalidInput (secret_in_argv_reason rule')), l)
         | None \<Rightarrow>
             (case get_server codec env (sp_server_id p) l of
                Inl e \<Rightarrow> (Inl e, l)
              | Inr (Some ex) \<Rightarrow>
                  if ssp_command_hash ex = sp_command_hash p then (Inr False, l)
                  else (Inl (RegistryConflict (sp_server_id p)), l)
              | Inr None \<Rightarrow>
                  (case map_option (sc_to_string codec) (sp_command p) of
                     Some None \<Rightarrow> (Inl Json, l)
                   | cj \<Rightarrow>
                       db_write env2
                         (Inr True, l\<lparr>reg_servers := reg_servers l @ [new_server_row p (Option.bind cj id)]\<rparr>)
                         l))))"

text \<open>A statement on the server table that must find a row.\<close>

definition update_servers ::
  "call_env \<Rightarrow> (server_row \<Rightarrow> bool) \<Rightarrow> (server_row \<Rightarrow> server_row) \<Rightarrow> string \<Rightarrow> 'z registry_db_scheme
   \<Rightarrow> unit audit_result \<times> 'z registry_db_scheme" where
  "update_servers env p f reason l =
     (case update_rows env p f reason (reg_servers l) of (res, rows) \<Rightarrow> (res, l\<lparr>reg_servers := rows\<rparr>))"

definition approve_server ::
  "call_env \<Rightarrow> string \<Rightarrow> trust_level \<Rightarrow> 'z registry_db_scheme \<Rightarrow> unit audit_result \<times> 'z registry_db_scheme" where
  "approve_server env sid level =
     update_servers env (\<lambda>r. sv_server_id r = sid) (\<lambda>r. r\<lparr>sv_trust_level := trust_to_str level\<rparr>)
       ''server_id not found''"

definition list_approved_servers ::
  "strs_codec \<Rightarrow> call_env \<Rightarrow> 'z registry_db_scheme \<Rightarrow> stored_server_profile list audit_result" where
  "list_approved_servers codec env l =
     db_step env
       (try_map (\<lambda>r. stored_of_row codec (r\<lparr>sv_pending_command_hash := None, sv_last_drift_at := None\<rparr>))
         (sort_key sv_first_seen_at
           (filter (\<lambda>r. sv_trust_level r = ''Limited'' \<or> sv_trust_level r = ''Trusted'') (reg_servers l))))"

definition set_descriptor_hash ::
  "call_env \<Rightarrow> string \<Rightarrow> string \<Rightarrow> 'z registry_db_scheme \<Rightarrow> unit audit_result \<times> 'z registry_db_scheme" where
  "set_descriptor_hash env sid hash =
     update_servers env (\<lambda>r. sv_server_id r = sid) (\<lambda>r. r\<lparr>sv_descriptor_hash := Some hash\<rparr>)
       ''server_id not found''"

section \<open>Tool descriptors\<close>

definition is_tool :: "string \<Rightarrow> string \<Rightarrow> tool_row \<Rightarrow> bool" where
  "is_tool sid tool r \<longleftrightarrow> td_server_id r = sid \<and> td_tool_name r = tool"

definition find_tool :: "string \<Rightarrow> string \<Rightarrow> 'z registry_db_scheme \<Rightarrow> tool_row option" where
  "find_tool sid tool l = find (is_tool sid tool) (reg_tools l)"

text \<open>The statement that \<open>pin_tool_descriptor\<close> runs on the row of a known tool, and its outcome.\<close>

definition pin_known :: "string \<Rightarrow> int \<Rightarrow> tool_row \<Rightarrow> pin_outcome \<times> tool_row" where
  "pin_known hash now r =
     (let seen = r\<lparr>td_last_seen_hash := hash, td_last_seen_at := now\<rparr> in
      if td_descriptor_hash r = hash then
        (PO_Unchanged,
         if td_pending_hash r \<noteq> None then seen\<lparr>td_pending_hash := None, td_last_drift_at := None\<rparr> else seen)
      else
        (case td_approved_at r of
           None \<Rightarrow>
             (PO_FirstSeen,
              seen\<lparr>td_descriptor_hash := hash, td_pending_hash := None, td_last_drift_at := None\<rparr>)
         | Some _ \<Rightarrow>
             (PO_Drifted (td_descriptor_hash r) hash,
              if td_pending_hash r = None then seen\<lparr>td_pending_hash := Some hash, td_last_drift_at := Some now\<rparr>
              else seen\<lparr>td_pending_hash := Some hash\<rparr>)))"

definition pin_tool_descriptor ::
  "call_env \<Rightarrow> string \<Rightarrow> string \<Rightarrow> string \<Rightarrow> 'z registry_db_scheme
   \<Rightarrow> pin_outcome audit_result \<times> 'z registry_db_scheme" where
  "pin_tool_descriptor env sid tool hash l =
     (if hash = [] then (Inl (InvalidInput ''descriptor_hash must not be empty''), l)
      else
        db_write env
          (case find_tool sid tool l of
             None \<Rightarrow>
               (Inr PO_FirstSeen,
                l\<lparr>reg_tools := reg_tools l @
                  [\<lparr>td_server_id = sid, td_tool_name = tool, td_descriptor_hash = hash,
                    td_first_seen_at = ce_now env, td_approved_at = None, td_pending_hash = None,
                    td_last_seen_hash = hash, td_last_seen_at = ce_now env, td_last_drift_at = None\<rparr>]\<rparr>)
           | Some r \<Rightarrow>
               (Inr (fst (pin_known hash (ce_now env) r)),
                l\<lparr>reg_tools := map (\<lambda>r. if is_tool sid tool r then snd (pin_known hash (ce_now env) r) else r)
                  (reg_tools l)\<rparr>)) l)"

definition update_tools ::
  "call_env \<Rightarrow> (tool_row \<Rightarrow> bool) \<Rightarrow> (tool_row \<Rightarrow> tool_row) \<Rightarrow> string \<Rightarrow> 'z registry_db_scheme
   \<Rightarrow> unit audit_result \<times> 'z registry_db_scheme" where
  "update_tools env p f reason l =
     (case update_rows env p f reason (reg_tools l) of (res, rows) \<Rightarrow> (res, l\<lparr>reg_tools := rows\<rparr>))"

text \<open>The event that follows a successful statement; its own failure is dropped.\<close>

definition then_event ::
  "ledger_externs \<Rightarrow> call_env \<Rightarrow> string \<Rightarrow> (string \<times> json) list \<Rightarrow> string
   \<Rightarrow> unit audit_result \<times> 'z ledger_scheme \<Rightarrow> unit audit_result \<times> 'z ledger_scheme" where
  "then_event x env ty members fts p =
     (case p of (Inl e, l) \<Rightarrow> (Inl e, l) | (Inr _, l) \<Rightarrow> (Inr (), system_event x env ty members fts l))"

definition approve_tool_descriptor ::
  "ledger_externs \<Rightarrow> call_env \<Rightarrow> call_env \<Rightarrow> string \<Rightarrow> string \<Rightarrow> 'z registry_db_scheme
   \<Rightarrow> unit audit_result \<times> 'z registry_db_scheme" where
  "approve_tool_descriptor x env env2 sid tool l =
     then_event x env2 ''tool_approval.first_approved''
       [(''server_id'', JString sid), (''tool_name'', JString tool)]
       (''tool_approval server:'' @ sid @ '' tool:'' @ tool)
       (update_tools env (\<lambda>r. is_tool sid tool r \<and> td_approved_at r = None)
         (\<lambda>r. r\<lparr>td_approved_at := Some (ce_now env)\<rparr>)
         ''tool descriptor not found or already approved'' l)"

definition approve_tool_descriptor_to ::
  "ledger_externs \<Rightarrow> call_env \<Rightarrow> call_env \<Rightarrow> string \<Rightarrow> string \<Rightarrow> string \<Rightarrow> 'z registry_db_scheme
   \<Rightarrow> unit audit_result \<times> 'z registry_db_scheme" where
  "approve_tool_descriptor_to x env env2 sid tool new_hash l =
     then_event x env2 ''tool_approval.re_approved''
       [(''server_id'', JString sid), (''tool_name'', JString tool), (''new_hash'', JString new_hash)]
       (''tool_approval re_approved server:'' @ sid @ '' tool:'' @ tool)
       (update_tools env
         (\<lambda>r. is_tool sid tool r \<and> td_pending_hash r = Some new_hash \<and> td_approved_at r \<noteq> None)
         (\<lambda>r. r\<lparr>td_descriptor_hash := new_hash, td_approved_at := Some (ce_now env),
                td_pending_hash := None, td_last_drift_at := None\<rparr>)
         ''no matching drifted descriptor to re-approve (caller must first approve_tool_descriptor for FirstSeen)'' l)"

definition reject_tool_descriptor_drift ::
  "ledger_externs \<Rightarrow> call_env \<Rightarrow> call_env \<Rightarrow> string \<Rightarrow> string \<Rightarrow> 'z registry_db_scheme
   \<Rightarrow> unit audit_result \<times> 'z registry_db_scheme" where
  "reject_tool_descriptor_drift x env env2 sid tool l =
     then_event x env2 ''tool_approval.drift_rejected''
       [(''server_id'', JString sid), (''tool_name'', JString tool)]
       (''tool_approval drift_rejected server:'' @ sid @ '' tool:'' @ tool)
       (update_tools env (\<lambda>r. is_tool sid tool r \<and> td_pending_hash r \<noteq> None)
         (\<lambda>r. r\<lparr>td_pending_hash := None, td_last_drift_at := None\<rparr>)
         ''no drift pending on this descriptor'' l)"

definition get_pinned_tool_hash ::
  "call_env \<Rightarrow> string \<Rightarrow> string \<Rightarrow> 'z registry_db_scheme \<Rightarrow> string option audit_result" where
  "get_pinned_tool_hash env sid tool l =
     db_step env (Inr (map_option td_descriptor_hash
       (find (\<lambda>r. is_tool sid tool r \<and> td_approved_at r \<noteq> None) (reg_tools l))))"

definition card_of_row :: "tool_row \<Rightarrow> tool_approval_card" where
  "card_of_row r =
     \<lparr>tac_server_id = td_server_id r, tac_tool_name = td_tool_name r,
      tac_current_hash = td_descriptor_hash r, tac_proposed_hash = td_pending_hash r,
      tac_first_seen_at = td_first_seen_at r, tac_approved_at = td_approved_at r,
      tac_last_drift_at = td_last_drift_at r\<rparr>"

definition list_tool_cards_where ::
  "call_env \<Rightarrow> (tool_row \<Rightarrow> bool) \<Rightarrow> 'z registry_db_scheme \<Rightarrow> tool_approval_card list audit_result" where
  "list_tool_cards_where env p l =
     db_step env (Inr (map card_of_row (sort_key td_first_seen_at (filter p (reg_tools l)))))"

definition list_pending_tool_approvals ::
  "call_env \<Rightarrow> 'z registry_db_scheme \<Rightarrow> tool_approval_card list audit_result" where
  "list_pending_tool_approvals env = list_tool_cards_where env (\<lambda>r. td_approved_at r = None)"

definition list_drifted_tools ::
  "call_env \<Rightarrow> 'z registry_db_scheme \<Rightarrow> tool_approval_card list audit_result" where
  "list_drifted_tools env = list_tool_cards_where env (\<lambda>r. td_pending_hash r \<noteq> None)"

section \<open>Command and program drift\<close>

definition check_server_command_drift ::
  "ledger_externs \<Rightarrow> strs_codec \<Rightarrow> call_env \<Rightarrow> string \<Rightarrow> string list \<Rightarrow> string \<Rightarrow> 'z registry_db_scheme
   \<Rightarrow> command_drift option audit_result \<times> 'z registry_db_scheme" where
  "check_server_command_drift x codec env sid new_argv new_argv_hash l =
     (if argv_hash x new_argv \<noteq> new_argv_hash then
        (Inl (InvalidInput ''new_argv_hash does not match sha256(JCS(new_argv))''), l)
      else
        (case argv_secret x new_argv of
           Some rule' \<Rightarrow> (Inl (InvalidInput (secret_in_argv_reason rule')), l)
         | None \<Rightarrow>
             (case sc_to_string codec new_argv of
                None \<Rightarrow> (Inl Json, l)
              | Some argv_json \<Rightarrow>
                  let set_row = \<lambda>f. l\<lparr>reg_servers :=
                        map (\<lambda>r. if sv_server_id r = sid then f r else r) (reg_servers l)\<rparr>
                  in db_write env
                    (case find_server sid l of
                       None \<Rightarrow> (Inr None, l)
                     | Some row \<Rightarrow>
                         (case sv_command_hash row of
                            None \<Rightarrow> (Inr None, l)
                          | Some c \<Rightarrow>
                              if c = new_argv_hash then
                                (Inr None,
                                 if sv_pending_command_hash row \<noteq> None then
                                   set_row (\<lambda>r. r\<lparr>sv_pending_command_hash := None,
                                     sv_pending_command_json := None, sv_last_drift_at := None\<rparr>)
                                 else l)
                              else
                                (Inr (Some \<lparr>cd_old = c, cd_new = new_argv_hash\<rparr>),
                                 if sv_pending_command_hash row = None then
                                   set_row (\<lambda>r. r\<lparr>sv_pending_command_hash := Some new_argv_hash,
                                     sv_pending_command_json := Some argv_json,
                                     sv_last_drift_at := Some (ce_now env)\<rparr>)
                                 else
                                   set_row (\<lambda>r. r\<lparr>sv_pending_command_hash := Some new_argv_hash,
                                     sv_pending_command_json := Some argv_json\<rparr>)))) l)))"

definition approve_server_command_drift ::
  "ledger_externs \<Rightarrow> call_env \<Rightarrow> call_env \<Rightarrow> string \<Rightarrow> 'z registry_db_scheme
   \<Rightarrow> unit audit_result \<times> 'z registry_db_scheme" where
  "approve_server_command_drift x env env2 sid l =
     then_event x env2 ''server.command_re_approved'' [(''server_id'', JString sid)]
       (''server command_re_approved '' @ sid)
       (update_servers env (\<lambda>r. sv_server_id r = sid \<and> sv_pending_command_hash r \<noteq> None)
         (\<lambda>r. r\<lparr>sv_command_hash := sv_pending_command_hash r,
                sv_command_json := (case sv_pending_command_json r of None \<Rightarrow> sv_command_json r | Some j \<Rightarrow> Some j),
                sv_pending_command_hash := None, sv_pending_command_json := None, sv_last_drift_at := None\<rparr>)
         ''server has no pending command drift'' l)"

definition reject_server_command_drift ::
  "ledger_externs \<Rightarrow> call_env \<Rightarrow> call_env \<Rightarrow> string \<Rightarrow> 'z registry_db_scheme
   \<Rightarrow> unit audit_result \<times> 'z registry_db_scheme" where
  "reject_server_command_drift x env env2 sid l =
     then_event x env2 ''server.command_drift_rejected'' [(''server_id'', JString sid)]
       (''server command_drift_rejected '' @ sid)
       (update_servers env (\<lambda>r. sv_server_id r = sid \<and> sv_pending_command_hash r \<noteq> None)
         (\<lambda>r. r\<lparr>sv_pending_command_hash := None, sv_pending_command_json := None, sv_last_drift_at := None\<rparr>)
         ''server has no pending command drift'' l)"

definition check_server_resolved_program_drift ::
  "call_env \<Rightarrow> string \<Rightarrow> string \<Rightarrow> 'z registry_db_scheme
   \<Rightarrow> resolved_program_outcome audit_result \<times> 'z registry_db_scheme" where
  "check_server_resolved_program_drift env sid resolved_path l =
     (let set_row = \<lambda>f. l\<lparr>reg_servers :=
            map (\<lambda>r. if sv_server_id r = sid then f r else r) (reg_servers l)\<rparr>
      in db_write env
        (case find_server sid l of
           None \<Rightarrow> (Inr RP_Unchanged, l)
         | Some row \<Rightarrow>
             if sv_command_hash row = None then (Inr RP_Unchanged, l)
             else
               (case sv_resolved_program_path row of
                  None \<Rightarrow>
                    (Inr (RP_Pinned resolved_path),
                     set_row (\<lambda>r. r\<lparr>sv_resolved_program_path := Some resolved_path\<rparr>))
                | Some p \<Rightarrow>
                    if p = resolved_path then
                      (Inr RP_Unchanged,
                       if sv_pending_resolved_program_path row \<noteq> None then
                         set_row (\<lambda>r. r\<lparr>sv_pending_resolved_program_path := None\<rparr>)
                       else l)
                    else
                      (Inr (RP_Drifted \<lparr>rpd_old = p, rpd_new = resolved_path\<rparr>),
                       set_row (\<lambda>r. r\<lparr>sv_pending_resolved_program_path := Some resolved_path\<rparr>)))) l)"

definition approve_server_resolved_program_drift ::
  "ledger_externs \<Rightarrow> call_env \<Rightarrow> call_env \<Rightarrow> string \<Rightarrow> 'z registry_db_scheme
   \<Rightarrow> unit audit_result \<times> 'z registry_db_scheme" where
  "approve_server_resolved_program_drift x env env2 sid l =
     then_event x env2 ''server.resolved_program_re_approved'' [(''server_id'', JString sid)]
       (''server resolved_program_re_approved '' @ sid)
       (update_servers env (\<lambda>r. sv_server_id r = sid \<and> sv_pending_resolved_program_path r \<noteq> None)
         (\<lambda>r. r\<lparr>sv_resolved_program_path := sv_pending_resolved_program_path r,
                sv_pending_resolved_program_path := None\<rparr>)
         ''server has no pending resolved-program drift'' l)"

definition reject_server_resolved_program_drift ::
  "ledger_externs \<Rightarrow> call_env \<Rightarrow> call_env \<Rightarrow> string \<Rightarrow> 'z registry_db_scheme
   \<Rightarrow> unit audit_result \<times> 'z registry_db_scheme" where
  "reject_server_resolved_program_drift x env env2 sid l =
     then_event x env2 ''server.resolved_program_drift_rejected'' [(''server_id'', JString sid)]
       (''server resolved_program_drift_rejected '' @ sid)
       (update_servers env (\<lambda>r. sv_server_id r = sid \<and> sv_pending_resolved_program_path r \<noteq> None)
         (\<lambda>r. r\<lparr>sv_pending_resolved_program_path := None\<rparr>)
         ''server has no pending resolved-program drift'' l)"

section \<open>Onboarding cards\<close>

definition server_requested_env_keys :: "string \<Rightarrow> 'z registry_db_scheme \<Rightarrow> string list option" where
  "server_requested_env_keys sid l =
     (let bs = filter (\<lambda>b. tb_server_id b = sid) (reg_bindings l) in
      if bs = [] then None
      else Some (vec_dedup (sort (List.map_filter tb_env_var_name
        (filter (\<lambda>b. tb_injection_method b = ''ChildEnv'') bs)))))"

definition onboarding_of_row ::
  "strs_codec \<Rightarrow> 'z registry_db_scheme \<Rightarrow> server_row \<Rightarrow> server_onboarding_data audit_result" where
  "onboarding_of_row codec l r =
     (case decode_command codec (sv_command_json r) of Inl e \<Rightarrow> Inl e | Inr command \<Rightarrow>
      case parse_transport (sv_transport r) of Inl e \<Rightarrow> Inl e | Inr transport \<Rightarrow>
      case parse_trust (sv_trust_level r) of Inl e \<Rightarrow> Inl e | Inr trust \<Rightarrow>
        Inr \<lparr>so_server_id = sv_server_id r, so_transport = transport, so_command = command,
             so_url = sv_url r, so_command_hash = sv_command_hash r,
             so_pending_command_hash = sv_pending_command_hash r,
             so_requested_env_keys = server_requested_env_keys (sv_server_id r) l,
             so_sandbox_profile_id = sv_sandbox_profile_id r,
             so_first_seen_at = sv_first_seen_at r, so_trust_level = trust\<rparr>)"

definition list_servers_where ::
  "strs_codec \<Rightarrow> call_env \<Rightarrow> (server_row \<Rightarrow> bool) \<Rightarrow> 'z registry_db_scheme
   \<Rightarrow> server_onboarding_data list audit_result" where
  "list_servers_where codec env p l =
     db_step env
       (try_map (onboarding_of_row codec l) (sort_key sv_first_seen_at (filter p (reg_servers l))))"

definition list_pending_server_onboardings ::
  "strs_codec \<Rightarrow> call_env \<Rightarrow> 'z registry_db_scheme \<Rightarrow> server_onboarding_data list audit_result" where
  "list_pending_server_onboardings codec env =
     list_servers_where codec env (\<lambda>r. sv_trust_level r = trust_to_str Untrusted)"

definition list_drifted_servers ::
  "strs_codec \<Rightarrow> call_env \<Rightarrow> 'z registry_db_scheme \<Rightarrow> server_onboarding_data list audit_result" where
  "list_drifted_servers codec env = list_servers_where codec env (\<lambda>r. sv_pending_command_hash r \<noteq> None)"

definition get_onboarding_data ::
  "strs_codec \<Rightarrow> call_env \<Rightarrow> string \<Rightarrow> 'z registry_db_scheme \<Rightarrow> server_onboarding_data option audit_result" where
  "get_onboarding_data codec env sid l =
     db_step env
       (case find_server sid l of
          None \<Rightarrow> Inr None
        | Some r \<Rightarrow> (case onboarding_of_row codec l r of Inl e \<Rightarrow> Inl e | Inr d \<Rightarrow> Inr (Some d)))"

section \<open>Secret aliases and bindings\<close>

definition quoted :: "string \<Rightarrow> string" where
  "quoted s = [CHR 0x27] @ s @ [CHR 0x27]"

definition register_secret_ref ::
  "ledger_externs \<Rightarrow> call_env \<Rightarrow> string \<Rightarrow> string \<Rightarrow> string \<Rightarrow> 'z registry_db_scheme
   \<Rightarrow> bool audit_result \<times> 'z registry_db_scheme" where
  "register_secret_ref x env secret_ref display_name provider l =
     (if \<not> str_starts_with secret_ref ''secret://'' then
        (Inl (InvalidInput (''secret_ref must start with '' @ quoted ''secret://'')), l)
      else
        db_write env
          (if secret_ref \<in> set (map sr_secret_ref (reg_secret_refs l)) then (Inr False, l)
           else (Inr True, l\<lparr>reg_secret_refs := reg_secret_refs l @
             [\<lparr>sr_secret_ref = secret_ref, sr_display_name = display_name, sr_provider = provider,
               sr_fingerprint = secret_ref_fingerprint x secret_ref, sr_created_at = ce_now env,
               sr_last_used_at = None\<rparr>]\<rparr>)) l)"

definition list_secret_refs ::
  "call_env \<Rightarrow> 'z registry_db_scheme \<Rightarrow> secret_ref_entry list audit_result" where
  "list_secret_refs env l = db_step env (Inr (sort_key sr_created_at (reg_secret_refs l)))"

definition touch_secret_ref ::
  "call_env \<Rightarrow> string \<Rightarrow> 'z registry_db_scheme \<Rightarrow> unit audit_result \<times> 'z registry_db_scheme" where
  "touch_secret_ref env secret_ref l =
     db_write env
       (Inr (), l\<lparr>reg_secret_refs := map (\<lambda>r. if sr_secret_ref r = secret_ref
          then r\<lparr>sr_last_used_at := Some (ce_now env)\<rparr> else r) (reg_secret_refs l)\<rparr>) l"

text \<open>
  The primary key of a binding is its server, tool, alias and method; the alias references the
  table of aliases, with foreign keys enforced.
\<close>

definition same_binding :: "tool_secret_binding \<Rightarrow> tool_secret_binding \<Rightarrow> bool" where
  "same_binding a b \<longleftrightarrow>
     tb_server_id a = tb_server_id b \<and> tb_tool_name a = tb_tool_name b \<and>
     tb_secret_ref a = tb_secret_ref b \<and> tb_injection_method a = tb_injection_method b"

definition bind_tool_secret ::
  "call_env \<Rightarrow> tool_secret_binding \<Rightarrow> 'z registry_db_scheme \<Rightarrow> unit audit_result \<times> 'z registry_db_scheme" where
  "bind_tool_secret env b l =
     (if \<not> str_starts_with (tb_secret_ref b) ''secret://'' then
        (Inl (InvalidInput (''binding.secret_ref must start with '' @ quoted ''secret://'')), l)
      else if tb_injection_method b \<noteq> ''ChildEnv'' then
        (Inl (InvalidInput (''I06 only supports injection_method='' @ quoted ''ChildEnv'' @
          ''; other methods delayed to I07+'')), l)
      else
        (case tb_env_var_name b of
           None \<Rightarrow> (Inl (InvalidInput ''ChildEnv binding requires env_var_name''), l)
         | Some env_key \<Rightarrow>
             if is_reserved_env_key_name env_key then
               (Inl (InvalidInput ''env_var_name collides with reserved system env key''), l)
             else
               db_write env
                 (if tb_secret_ref b \<notin> set (map sr_secret_ref (reg_secret_refs l)) then (Inl Sqlite, l)
                  else (Inr (), l\<lparr>reg_bindings := filter (\<lambda>c. \<not> same_binding c b) (reg_bindings l) @ [b]\<rparr>)) l))"

definition binding_order :: "tool_secret_binding list \<Rightarrow> tool_secret_binding list" where
  "binding_order bs = sort_key tb_tool_name (sort_key tb_secret_ref bs)"

definition list_tool_secret_bindings ::
  "call_env \<Rightarrow> string \<Rightarrow> 'z registry_db_scheme \<Rightarrow> tool_secret_binding list audit_result" where
  "list_tool_secret_bindings env sid l =
     db_step env (Inr (binding_order (filter (\<lambda>b. tb_server_id b = sid) (reg_bindings l))))"

definition resolve_child_env_bindings ::
  "call_env \<Rightarrow> string \<Rightarrow> string \<Rightarrow> 'z registry_db_scheme \<Rightarrow> tool_secret_binding list audit_result" where
  "resolve_child_env_bindings env sid tool l =
     db_step env (Inr (binding_order (filter (\<lambda>b. tb_server_id b = sid \<and>
       tb_injection_method b = ''ChildEnv'' \<and> (tb_tool_name b = tool \<or> tb_tool_name b = ''*''))
       (reg_bindings l))))"

section \<open>Sandbox profiles\<close>

definition upsert_sandbox_profile ::
  "ledger_externs \<Rightarrow> call_env \<Rightarrow> string \<Rightarrow> string \<Rightarrow> 'z registry_db_scheme
   \<Rightarrow> (bool \<times> string) audit_result \<times> 'z registry_db_scheme" where
  "upsert_sandbox_profile x env profile_id profile_json l =
     (if profile_id = [] then (Inl (InvalidInput ''profile_id must not be empty''), l)
      else
        (case lx_json_from_str x profile_json of
           None \<Rightarrow> (Inl (InvalidInput ''sandbox_profile_json_parse_failed''), l)
         | Some v \<Rightarrow>
             (case json_get v ''env_inherit'' of
                Some (JBool env_inherit) \<Rightarrow>
                  if env_inherit then
                    (Inl (InvalidInput ''sandbox_profile_env_inherit_must_be_false''), l)
                  else
                    (case lx_jcs x v of
                       None \<Rightarrow> (Inl (InvalidInput ''sandbox_profile_jcs_failed''), l)
                     | Some canonical \<Rightarrow>
                         let profile_hash = lx_hex_encode x (lx_sha256 x canonical) in
                         db_write env
                           (if profile_id \<in> set (map sb_profile_id (reg_sandbox l)) then
                              (Inr (False, profile_hash),
                               l\<lparr>reg_sandbox := map (\<lambda>r. if sb_profile_id r = profile_id
                                  then r\<lparr>sb_profile_json := canonical, sb_profile_hash := profile_hash,
                                         sb_updated_at := ce_now env\<rparr>
                                  else r) (reg_sandbox l)\<rparr>)
                            else
                              (Inr (True, profile_hash),
                               l\<lparr>reg_sandbox := reg_sandbox l @
                                 [\<lparr>sb_profile_id = profile_id, sb_profile_json = canonical,
                                   sb_profile_hash = profile_hash, sb_created_at = ce_now env,
                                   sb_updated_at = ce_now env\<rparr>]\<rparr>)) l)
              | _ \<Rightarrow> (Inl (InvalidInput ''sandbox_profile_missing_env_inherit''), l))))"

definition get_sandbox_profile ::
  "call_env \<Rightarrow> string \<Rightarrow> 'z registry_db_scheme \<Rightarrow> sandbox_profile_row option audit_result" where
  "get_sandbox_profile env profile_id l =
     db_step env (Inr (find (\<lambda>r. sb_profile_id r = profile_id) (reg_sandbox l)))"

definition list_sandbox_profiles ::
  "call_env \<Rightarrow> 'z registry_db_scheme \<Rightarrow> sandbox_profile_row list audit_result" where
  "list_sandbox_profiles env l = db_step env (Inr (sort_key sb_created_at (reg_sandbox l)))"

definition bind_server_sandbox_profile ::
  "call_env \<Rightarrow> string \<Rightarrow> string option \<Rightarrow> 'z registry_db_scheme
   \<Rightarrow> unit audit_result \<times> 'z registry_db_scheme" where
  "bind_server_sandbox_profile env sid profile_id l =
     (if \<not> ce_lock_poisoned env \<and> \<not> ce_exec_fault env \<and>
         (case profile_id of None \<Rightarrow> False | Some pid \<Rightarrow> pid \<notin> set (map sb_profile_id (reg_sandbox l)))
      then (Inl (InvalidInput ''sandbox profile_id does not exist''), l)
      else update_servers env (\<lambda>r. sv_server_id r = sid) (\<lambda>r. r\<lparr>sv_sandbox_profile_id := profile_id\<rparr>)
        ''server_id not found'' l)"

section \<open>OAuth token metadata\<close>

definition EVENT_TYPE_OAUTH_METADATA_BOUND :: string where
  "EVENT_TYPE_OAUTH_METADATA_BOUND = ''oauth.token_metadata_bound''"

definition oauth_binding_payload ::
  "string \<Rightarrow> string \<Rightarrow> string \<Rightarrow> string option \<Rightarrow> string list \<Rightarrow> string \<Rightarrow> json" where
  "oauth_binding_payload token_ref resource authorization_server issuer scope_set token_kind =
     JObject
       [(''token_ref'', JString token_ref), (''resource'', JString resource),
        (''authorization_server'', JString authorization_server), (''issuer'', j_opt JString issuer),
        (''scope_set'', j_strs scope_set), (''token_kind'', JString token_kind)]"

text \<open>\<open>ON CONFLICT(token_ref) DO UPDATE\<close> keeps the creation time of the row.\<close>

definition upsert_oauth :: "oauth_row \<Rightarrow> oauth_row list \<Rightarrow> oauth_row list" where
  "upsert_oauth row rows =
     (if ot_token_ref row \<in> set (map ot_token_ref rows) then
        map (\<lambda>r. if ot_token_ref r = ot_token_ref row then row\<lparr>ot_created_at := ot_created_at r\<rparr> else r) rows
      else rows @ [row])"

definition register_oauth_token_metadata ::
  "ledger_externs \<Rightarrow> strs_codec \<Rightarrow> call_env \<Rightarrow> call_env \<Rightarrow> string \<Rightarrow> string \<Rightarrow> string \<Rightarrow> string list \<Rightarrow> string
   \<Rightarrow> int option \<Rightarrow> string \<Rightarrow> 'z registry_db_scheme \<Rightarrow> unit audit_result \<times> 'z registry_db_scheme" where
  "register_oauth_token_metadata x codec env env2 token_ref resource authorization_server scope_set
     token_kind expires_at issuer l =
     (if token_ref = [] then (Inl (InvalidInput ''token_ref_empty''), l)
      else if token_kind \<noteq> ''access'' \<and> token_kind \<noteq> ''refresh'' then
        (Inl (InvalidInput ''unknown_token_kind''), l)
      else if issuer = [] then (Inl (InvalidInput ''issuer_empty''), l)
      else
        (case sc_to_string codec scope_set of
           None \<Rightarrow> (Inl Json, l)
         | Some scope_json \<Rightarrow>
             (case append_event_internal x env ''system'' EVENT_TYPE_OAUTH_METADATA_BOUND
                     (oauth_binding_payload token_ref resource authorization_server (Some issuer)
                       scope_set token_kind) None l of
                (Inl e, l1) \<Rightarrow> (Inl e, l1)
              | (Inr bound, l1) \<Rightarrow>
                  db_write env2
                    (Inr (), l1\<lparr>reg_oauth := upsert_oauth
                      \<lparr>ot_token_ref = token_ref, ot_resource = resource,
                       ot_authorization_server = authorization_server, ot_scope_set_json = scope_json,
                       ot_token_kind = token_kind, ot_expires_at = expires_at,
                       ot_created_at = ce_now env2, ot_issuer = Some issuer,
                       ot_binding_event_id = Some (ap_event_id bound)\<rparr> (reg_oauth l1)\<rparr>) l1)))"

definition metadata_of_row :: "oauth_row \<Rightarrow> string list \<Rightarrow> oauth_token_metadata_row" where
  "metadata_of_row r scope_set =
     \<lparr>om_token_ref = ot_token_ref r, om_resource = ot_resource r,
      om_authorization_server = ot_authorization_server r, om_scope_set = scope_set,
      om_token_kind = ot_token_kind r, om_expires_at = ot_expires_at r,
      om_created_at = ot_created_at r, om_issuer = ot_issuer r\<rparr>"

definition list_oauth_token_metadata ::
  "strs_codec \<Rightarrow> call_env \<Rightarrow> 'z registry_db_scheme \<Rightarrow> oauth_token_metadata_row list audit_result" where
  "list_oauth_token_metadata codec env l =
     db_step env
       (try_map (\<lambda>r. case sc_from_str codec (ot_scope_set_json r) of
            None \<Rightarrow> Inl Json | Some scope_set \<Rightarrow> Inr (metadata_of_row r scope_set))
         (sort_key ot_created_at (reg_oauth l)))"

definition event_payload_by_id ::
  "ledger_externs \<Rightarrow> call_env \<Rightarrow> int \<Rightarrow> 'z ledger_scheme \<Rightarrow> json option audit_result" where
  "event_payload_by_id x env eid l =
     db_step env
       (case find (\<lambda>r. er_event_id r = eid \<and> er_event_type r = EVENT_TYPE_OAUTH_METADATA_BOUND) (led_events l) of
          None \<Rightarrow> Inr None
        | Some r \<Rightarrow>
            (case lx_json_from_str x (er_payload_json r) of None \<Rightarrow> Inl Json | Some v \<Rightarrow> Inr (Some v)))"

text \<open>The check of a bound row against the log.\<close>

definition check_oauth_binding ::
  "ledger_externs \<Rightarrow> call_env \<Rightarrow> oauth_row \<Rightarrow> string list \<Rightarrow> int \<Rightarrow> 'z ledger_scheme \<Rightarrow> unit audit_result" where
  "check_oauth_binding x env r scope_set eid l =
     (case verify_chain x l of Inl e \<Rightarrow> Inl e | Inr _ \<Rightarrow>
      case event_payload_by_id x env eid l of
        Inl e \<Rightarrow> Inl e
      | Inr None \<Rightarrow> Inl (InvalidInput ''oauth_binding_event_missing'')
      | Inr (Some bound) \<Rightarrow>
          (case (lx_jcs x bound,
                 lx_jcs x (oauth_binding_payload (ot_token_ref r) (ot_resource r)
                   (ot_authorization_server r) (ot_issuer r) scope_set (ot_token_kind r))) of
             (Some a, Some b) \<Rightarrow>
               if a \<noteq> b then Inl (InvalidInput ''oauth_metadata_integrity_mismatch'') else Inr ()
           | _ \<Rightarrow> Inl Json))"

definition get_oauth_token_metadata ::
  "ledger_externs \<Rightarrow> strs_codec \<Rightarrow> call_env \<Rightarrow> call_env \<Rightarrow> string \<Rightarrow> 'z registry_db_scheme
   \<Rightarrow> oauth_token_metadata_row option audit_result" where
  "get_oauth_token_metadata x codec env env2 token_ref l =
     db_step env
       (case find (\<lambda>r. ot_token_ref r = token_ref) (reg_oauth l) of
          None \<Rightarrow> Inr None
        | Some r \<Rightarrow>
            (case sc_from_str codec (ot_scope_set_json r) of
               None \<Rightarrow> Inl Json
             | Some scope_set \<Rightarrow>
                 (case ot_binding_event_id r of
                    None \<Rightarrow> Inr (Some (metadata_of_row r scope_set))
                  | Some eid \<Rightarrow>
                      (case check_oauth_binding x env2 r scope_set eid l of
                         Inl e \<Rightarrow> Inl e
                       | Inr _ \<Rightarrow> Inr (Some (metadata_of_row r scope_set))))))"

section \<open>The descriptor oracle\<close>

definition is_valid_descriptor_hash :: "string \<Rightarrow> bool" where
  "is_valid_descriptor_hash h \<longleftrightarrow> length h = 64 \<and>
     list_all (\<lambda>c. is_ascii_digit c \<or> ascii_lower c \<in> {CHR ''a'', CHR ''b'', CHR ''c'', CHR ''d'', CHR ''e'', CHR ''f''}) h"

definition registry_oracle ::
  "strs_codec \<Rightarrow> call_env \<Rightarrow> call_env \<Rightarrow> 'z registry_db_scheme \<Rightarrow> string \<Rightarrow> string \<Rightarrow> string \<Rightarrow> descriptor_status" where
  "registry_oracle codec env env2 l sid tool descriptor_hash =
     (if \<not> is_valid_descriptor_hash descriptor_hash then DS_FirstSeen
      else
        (case get_server codec env sid l of
           Inr (Some profile) \<Rightarrow>
             if ssp_trust_level profile = Limited \<or> ssp_trust_level profile = Trusted then
               (case get_pinned_tool_hash env2 sid tool l of
                  Inr (Some h) \<Rightarrow> if h = descriptor_hash then DS_ApprovedStable else DS_Drifted
                | _ \<Rightarrow> DS_FirstSeen)
             else DS_FirstSeen
         | _ \<Rightarrow> DS_FirstSeen))"

section \<open>Histories\<close>

text \<open>Every operation that changes the registry, with its arguments.\<close>

datatype registry_op =
    RO_register call_env call_env server_profile
  | RO_approve_server call_env string trust_level
  | RO_set_descriptor_hash call_env string string
  | RO_pin call_env string string string
  | RO_approve_tool call_env call_env string string
  | RO_approve_tool_to call_env call_env string string string
  | RO_reject_tool call_env call_env string string
  | RO_check_command call_env string "string list" string
  | RO_approve_command call_env call_env string
  | RO_reject_command call_env call_env string
  | RO_check_program call_env string string
  | RO_approve_program call_env call_env string
  | RO_reject_program call_env call_env string
  | RO_register_secret call_env string string string
  | RO_touch_secret call_env string
  | RO_bind_secret call_env tool_secret_binding
  | RO_upsert_sandbox call_env string string
  | RO_bind_sandbox call_env string "string option"
  | RO_register_oauth call_env call_env string string string "string list" string "int option" string

fun run_reg :: "ledger_externs \<Rightarrow> strs_codec \<Rightarrow> registry_op \<Rightarrow> registry_db \<Rightarrow> registry_db" where
  "run_reg x c (RO_register env env2 p) l = snd (register_server x c env env2 p l)"
| "run_reg x c (RO_approve_server env sid level) l = snd (approve_server env sid level l)"
| "run_reg x c (RO_set_descriptor_hash env sid h) l = snd (set_descriptor_hash env sid h l)"
| "run_reg x c (RO_pin env sid tool h) l = snd (pin_tool_descriptor env sid tool h l)"
| "run_reg x c (RO_approve_tool env env2 sid tool) l = snd (approve_tool_descriptor x env env2 sid tool l)"
| "run_reg x c (RO_approve_tool_to env env2 sid tool h) l =
     snd (approve_tool_descriptor_to x env env2 sid tool h l)"
| "run_reg x c (RO_reject_tool env env2 sid tool) l = snd (reject_tool_descriptor_drift x env env2 sid tool l)"
| "run_reg x c (RO_check_command env sid argv h) l = snd (check_server_command_drift x c env sid argv h l)"
| "run_reg x c (RO_approve_command env env2 sid) l = snd (approve_server_command_drift x env env2 sid l)"
| "run_reg x c (RO_reject_command env env2 sid) l = snd (reject_server_command_drift x env env2 sid l)"
| "run_reg x c (RO_check_program env sid p) l = snd (check_server_resolved_program_drift env sid p l)"
| "run_reg x c (RO_approve_program env env2 sid) l = snd (approve_server_resolved_program_drift x env env2 sid l)"
| "run_reg x c (RO_reject_program env env2 sid) l = snd (reject_server_resolved_program_drift x env env2 sid l)"
| "run_reg x c (RO_register_secret env r d p) l = snd (register_secret_ref x env r d p l)"
| "run_reg x c (RO_touch_secret env r) l = snd (touch_secret_ref env r l)"
| "run_reg x c (RO_bind_secret env b) l = snd (bind_tool_secret env b l)"
| "run_reg x c (RO_upsert_sandbox env pid j) l = snd (upsert_sandbox_profile x env pid j l)"
| "run_reg x c (RO_bind_sandbox env sid pid) l = snd (bind_server_sandbox_profile env sid pid l)"
| "run_reg x c (RO_register_oauth env env2 t r a s k e i) l =
     snd (register_oauth_token_metadata x c env env2 t r a s k e i l)"

definition run_regs :: "ledger_externs \<Rightarrow> strs_codec \<Rightarrow> registry_op list \<Rightarrow> registry_db \<Rightarrow> registry_db" where
  "run_regs x c ops l = foldl (\<lambda>l op. run_reg x c op l) l ops"

lemma run_regs_simps [simp]:
  "run_regs x c [] l = l"
  "run_regs x c (ops @ [op]) l = run_reg x c op (run_regs x c ops l)"
  by (simp_all add: run_regs_def)

text \<open>What an operation does to the row of a tool that is already there, and the row it adds.\<close>

abbreviation env_ok :: "call_env \<Rightarrow> bool" where
  "env_ok env \<equiv> \<not> ce_lock_poisoned env \<and> \<not> ce_exec_fault env"

fun tool_change :: "registry_op \<Rightarrow> tool_row \<Rightarrow> tool_row" where
  "tool_change (RO_pin env sid tool h) r =
     (if env_ok env \<and> h \<noteq> [] \<and> is_tool sid tool r then snd (pin_known h (ce_now env) r) else r)"
| "tool_change (RO_approve_tool env _ sid tool) r =
     (if env_ok env \<and> is_tool sid tool r \<and> td_approved_at r = None
      then r\<lparr>td_approved_at := Some (ce_now env)\<rparr> else r)"
| "tool_change (RO_approve_tool_to env _ sid tool h) r =
     (if env_ok env \<and> is_tool sid tool r \<and> td_pending_hash r = Some h \<and> td_approved_at r \<noteq> None
      then r\<lparr>td_descriptor_hash := h, td_approved_at := Some (ce_now env), td_pending_hash := None,
             td_last_drift_at := None\<rparr> else r)"
| "tool_change (RO_reject_tool env _ sid tool) r =
     (if env_ok env \<and> is_tool sid tool r \<and> td_pending_hash r \<noteq> None
      then r\<lparr>td_pending_hash := None, td_last_drift_at := None\<rparr> else r)"
| "tool_change _ r = r"

fun tool_added :: "registry_op \<Rightarrow> registry_db \<Rightarrow> tool_row list" where
  "tool_added (RO_pin env sid tool h) l =
     (if env_ok env \<and> h \<noteq> [] \<and> find_tool sid tool l = None then
        [\<lparr>td_server_id = sid, td_tool_name = tool, td_descriptor_hash = h,
          td_first_seen_at = ce_now env, td_approved_at = None, td_pending_hash = None,
          td_last_seen_hash = h, td_last_seen_at = ce_now env, td_last_drift_at = None\<rparr>]
      else [])"
| "tool_added _ l = []"

lemma append_registry [simp]:
  "reg_tools (snd (append_event_internal x env sid ty p rt l)) = reg_tools l"
  "reg_servers (snd (append_event_internal x env sid ty p rt l)) = reg_servers l"
  "reg_oauth (snd (append_event_internal x env sid ty p rt l)) = reg_oauth l"
  by (cases x env sid ty p rt l rule: append_cases; simp add: insert_event_def)+

lemma then_event_registry [simp]:
  "reg_tools (snd (then_event x env ty ms fts p)) = reg_tools (snd p)"
  "reg_servers (snd (then_event x env ty ms fts p)) = reg_servers (snd p)"
  by (auto simp: then_event_def system_event_def split: prod.splits sum.splits)

lemma update_rows_snd:
  "snd (update_rows env p f reason rows) = (if env_ok env then map (\<lambda>r. if p r then f r else r) rows else rows)"
  by (auto simp: update_rows_def db_write_def list_ex_iff intro: map_idI [symmetric])

lemma update_tables [simp]:
  "reg_tools (snd (update_tools env p f reason l)) = snd (update_rows env p f reason (reg_tools l))"
  "reg_servers (snd (update_tools env p f reason l)) = reg_servers l"
  "reg_servers (snd (update_servers env q g reason l)) = snd (update_rows env q g reason (reg_servers l))"
  "reg_tools (snd (update_servers env q g reason l)) = reg_tools l"
  by (simp_all add: update_tools_def update_servers_def split: prod.splits)

lemmas registry_op_defs =
  register_server_def approve_server_def set_descriptor_hash_def check_server_command_drift_def
  approve_server_command_drift_def reject_server_command_drift_def
  check_server_resolved_program_drift_def approve_server_resolved_program_drift_def
  reject_server_resolved_program_drift_def register_secret_ref_def touch_secret_ref_def
  bind_tool_secret_def upsert_sandbox_profile_def bind_server_sandbox_profile_def

lemma find_None_map:
  "find p xs = None \<Longrightarrow> (\<And>a. \<not> p a \<Longrightarrow> f a = a) \<Longrightarrow> map f xs = xs"
  by (auto simp: find_None_iff intro: map_idI)

lemma append_registry_eq:
  "append_event_internal x env sid ty p rt l = (res, l1) \<Longrightarrow>
     reg_tools l1 = reg_tools l \<and> reg_servers l1 = reg_servers l \<and> reg_oauth l1 = reg_oauth l"
  by (metis append_registry snd_conv)

lemma register_oauth_tables [simp]:
  "reg_tools (snd (register_oauth_token_metadata x c env env2 t r a s k e i l)) = reg_tools l"
  "reg_servers (snd (register_oauth_token_metadata x c env env2 t r a s k e i l)) = reg_servers l"
  by (auto simp: register_oauth_token_metadata_def db_write_def dest!: append_registry_eq
      split: option.splits sum.splits prod.splits)

lemma pin_tools:
  "reg_tools (snd (pin_tool_descriptor env sid tool h l)) =
     map (tool_change (RO_pin env sid tool h)) (reg_tools l) @ tool_added (RO_pin env sid tool h) l"
proof (cases "find_tool sid tool l")
  case None
  then have "map (tool_change (RO_pin env sid tool h)) (reg_tools l) = reg_tools l"
    unfolding find_tool_def by (rule find_None_map) simp
  with None show ?thesis by (simp add: pin_tool_descriptor_def db_write_def)
next
  case (Some r)
  then show ?thesis by (auto simp: pin_tool_descriptor_def db_write_def intro: map_cong map_idI [symmetric])
qed

fun tool_op :: "registry_op \<Rightarrow> bool" where
  "tool_op (RO_pin _ _ _ _) = True"
| "tool_op (RO_approve_tool _ _ _ _) = True"
| "tool_op (RO_approve_tool_to _ _ _ _ _) = True"
| "tool_op (RO_reject_tool _ _ _ _) = True"
| "tool_op _ = False"

lemma other_op_tools:
  "\<not> tool_op op \<Longrightarrow> tool_change op r = r \<and> tool_added op l = [] \<and> reg_tools (run_reg x c op l) = reg_tools l"
  by (cases op)
    (auto simp: registry_op_defs db_write_def Let_def split: option.splits sum.splits json.splits)

lemma run_reg_tools:
  "reg_tools (run_reg x c op l) = map (tool_change op) (reg_tools l) @ tool_added op l"
proof (cases "tool_op op")
  case False
  from other_op_tools [OF False] show ?thesis by (simp add: map_idI)
next
  case True
  then show ?thesis
    by (cases op)
      (auto simp: pin_tools approve_tool_descriptor_def approve_tool_descriptor_to_def
        reject_tool_descriptor_drift_def update_rows_snd simp del: tool_added.simps(1)
        intro!: map_cong map_idI [symmetric])
qed

text \<open>\<open>P\<close> held of some operation of the history in the state it was run in.\<close>

definition happened ::
  "ledger_externs \<Rightarrow> strs_codec \<Rightarrow> registry_db \<Rightarrow> registry_op list \<Rightarrow> (registry_op \<Rightarrow> registry_db \<Rightarrow> bool) \<Rightarrow> bool" where
  "happened x c l0 ops P \<longleftrightarrow> (\<exists>pre op post. ops = pre @ op # post \<and> P op (run_regs x c pre l0))"

lemma happened_snoc:
  "happened x c l0 (ops @ [op]) P \<longleftrightarrow> happened x c l0 ops P \<or> P op (run_regs x c ops l0)"
proof
  assume "happened x c l0 (ops @ [op]) P"
  then obtain pre o' post where *: "ops @ [op] = pre @ o' # post" "P o' (run_regs x c pre l0)"
    by (auto simp: happened_def)
  then show "happened x c l0 ops P \<or> P op (run_regs x c ops l0)"
    by (cases post rule: rev_cases) (auto simp: happened_def simp flip: append_Cons)
next
  assume "happened x c l0 ops P \<or> P op (run_regs x c ops l0)"
  then show "happened x c l0 (ops @ [op]) P"
    by (auto simp: happened_def) (metis append.assoc append_Cons)+
qed

lemma happened_Nil [simp]: "\<not> happened x c l0 [] P"
  by (simp add: happened_def)

text \<open>An explicit approval of a hash of a tool, and of a server.\<close>

fun approves :: "string \<Rightarrow> string \<Rightarrow> string \<Rightarrow> registry_op \<Rightarrow> registry_db \<Rightarrow> bool" where
  "approves sid tool h (RO_approve_tool _ _ sid' tool') l \<longleftrightarrow>
     sid' = sid \<and> tool' = tool \<and> map_option td_descriptor_hash (find_tool sid tool l) = Some h"
| "approves sid tool h (RO_approve_tool_to _ _ sid' tool' h') l \<longleftrightarrow> sid' = sid \<and> tool' = tool \<and> h' = h"
| "approves sid tool h _ l \<longleftrightarrow> False"

fun trusts :: "string \<Rightarrow> registry_op \<Rightarrow> registry_db \<Rightarrow> bool" where
  "trusts sid (RO_approve_server _ sid' level) l \<longleftrightarrow> sid' = sid \<and> level \<noteq> Untrusted"
| "trusts sid (RO_register _ _ p) l \<longleftrightarrow> sp_server_id p = sid \<and> sp_trust_level p \<noteq> Untrusted"
| "trusts sid _ l \<longleftrightarrow> False"

definition tool_key :: "tool_row \<Rightarrow> string \<times> string" where
  "tool_key r = (td_server_id r, td_tool_name r)"

definition tools_wf :: "'z registry_db_scheme \<Rightarrow> bool" where
  "tools_wf l \<longleftrightarrow> distinct (map tool_key (reg_tools l))"

lemma is_tool_key: "is_tool sid tool r \<longleftrightarrow> tool_key r = (sid, tool)"
  by (auto simp: is_tool_def tool_key_def)

lemma pin_known_fields:
  "tool_key (snd (pin_known h now r)) = tool_key r"
  "td_approved_at (snd (pin_known h now r)) = td_approved_at r"
  "td_approved_at r \<noteq> None \<Longrightarrow> td_descriptor_hash (snd (pin_known h now r)) = td_descriptor_hash r"
  by (auto simp: pin_known_def Let_def tool_key_def split: option.splits)

lemma tool_change_key [simp]: "tool_key (tool_change op r) = tool_key r"
  by (cases op) (auto simp: pin_known_fields(1), simp_all add: tool_key_def)

lemma tool_added_key: "r \<in> set (tool_added op l) \<Longrightarrow> td_approved_at r = None \<and> tool_key r \<notin> tool_key ` set (reg_tools l)"
  by (cases op) (auto simp: find_tool_def find_None_iff is_tool_key tool_key_def split: if_splits)

lemma tool_added_distinct: "distinct (map tool_key (tool_added op l))"
  by (cases op) auto

lemma run_reg_wf: "tools_wf l \<Longrightarrow> tools_wf (run_reg x c op l)"
  using tool_added_key [of _ op l] tool_added_distinct [of op l]
  by (auto simp: tools_wf_def run_reg_tools o_def) (metis image_eqI)

lemma run_regs_wf: "tools_wf l \<Longrightarrow> tools_wf (run_regs x c ops l)"
  by (induction ops rule: rev_induct) (auto intro: run_reg_wf)

lemma find_row_by_key:
  "distinct (map tool_key rs) \<Longrightarrow> r \<in> set rs \<Longrightarrow> find (is_tool (td_server_id r) (td_tool_name r)) rs = Some r"
  by (induction rs) (auto simp: is_tool_key tool_key_def)

lemma find_tool_row:
  "tools_wf l \<Longrightarrow> r \<in> set (reg_tools l) \<Longrightarrow> find_tool (td_server_id r) (td_tool_name r) l = Some r"
  unfolding tools_wf_def find_tool_def by (rule find_row_by_key)

text \<open>An approved row either was approved with its hash before the operation or is approved by it.\<close>

lemma approved_row_step:
  assumes "tools_wf l" "r \<in> set (reg_tools l)" "td_approved_at (tool_change op r) \<noteq> None"
  shows "td_approved_at r \<noteq> None \<and> td_descriptor_hash (tool_change op r) = td_descriptor_hash r \<or>
    approves (td_server_id r) (td_tool_name r) (td_descriptor_hash (tool_change op r)) op l"
  using assms find_tool_row [OF assms(1,2)]
  by (cases op) (auto simp: pin_known_fields is_tool_def split: if_splits)

lemma vetted_rows:
  assumes "reg_tools l0 = []"
  shows "r \<in> set (reg_tools (run_regs x c ops l0)) \<Longrightarrow> td_approved_at r \<noteq> None \<Longrightarrow>
    happened x c l0 ops (approves (td_server_id r) (td_tool_name r) (td_descriptor_hash r))"
proof (induction ops arbitrary: r rule: rev_induct)
  case Nil
  then show ?case using assms by simp
next
  case (snoc op ops)
  let ?l = "run_regs x c ops l0"
  have wf: "tools_wf ?l" using assms by (intro run_regs_wf) (simp add: tools_wf_def)
  from snoc.prems obtain r0 where r0: "r0 \<in> set (reg_tools ?l)" "r = tool_change op r0"
    using tool_added_key [of r op ?l] by (auto simp: run_reg_tools)
  have key: "td_server_id r = td_server_id r0" "td_tool_name r = td_tool_name r0"
    using tool_change_key [of op r0] r0(2) by (auto simp: tool_key_def)
  from approved_row_step [OF wf r0(1)] snoc.prems(2) snoc.IH [OF r0(1)] show ?case
    unfolding happened_snoc key unfolding r0(2) by metis
qed

lemma server_row_step:
  assumes "r \<in> set (reg_servers (run_reg x c op l))"
  shows "(\<exists>r0 \<in> set (reg_servers l). sv_server_id r = sv_server_id r0 \<and> sv_trust_level r = sv_trust_level r0) \<or>
    sv_trust_level r = ''Untrusted'' \<or> trusts (sv_server_id r) op l"
proof (cases "tool_op op")
  case True
  then have "reg_servers (run_reg x c op l) = reg_servers l"
    by (cases op) (auto simp: pin_tool_descriptor_def approve_tool_descriptor_def approve_tool_descriptor_to_def
        reject_tool_descriptor_drift_def db_write_def split: option.splits)
  then show ?thesis using assms by auto
next
  case False
  show ?thesis
  proof (cases op)
    case (RO_approve_server env sid level)
    with assms show ?thesis
      by (cases level) (auto simp: approve_server_def update_rows_snd split: if_splits)
  next
    case (RO_register env env2 p)
    with assms show ?thesis
      by (cases "sp_trust_level p") (auto simp: register_server_def db_write_def new_server_row_def
        split: if_splits option.splits sum.splits)
  qed (use assms False in \<open>auto simp: registry_op_defs db_write_def Let_def update_rows_snd
    split: if_splits option.splits sum.splits json.splits\<close>)
qed

lemma vetted_servers:
  assumes "reg_servers l0 = []"
  shows "r \<in> set (reg_servers (run_regs x c ops l0)) \<Longrightarrow> sv_trust_level r \<noteq> ''Untrusted'' \<Longrightarrow>
    happened x c l0 ops (trusts (sv_server_id r))"
proof (induction ops arbitrary: r rule: rev_induct)
  case (snoc op ops)
  from server_row_step [of r x c op "run_regs x c ops l0"] snoc.prems snoc.IH show ?case
    by (auto simp: happened_snoc)
qed (use assms in simp)

section \<open>The oracle's contract\<close>

definition new_registry :: "span_db \<Rightarrow> registry_db" where
  "new_registry a = span_db.extend a
     \<lparr>reg_servers = [], reg_tools = [], reg_secret_refs = [], reg_bindings = [], reg_sandbox = [], reg_oauth = []\<rparr>"

lemma new_registry_simps [simp]: "reg_tools (new_registry a) = []" "reg_servers (new_registry a) = []"
  by (simp_all add: new_registry_def span_db.defs)

definition registry_approved ::
  "ledger_externs \<Rightarrow> strs_codec \<Rightarrow> registry_db \<Rightarrow> registry_op list \<Rightarrow> string \<Rightarrow> string \<Rightarrow> string \<Rightarrow> bool" where
  "registry_approved x c l0 ops sid tool h \<longleftrightarrow>
     happened x c l0 ops (approves sid tool h) \<and> happened x c l0 ops (trusts sid)"

lemma find_Some_set: "find P xs = Some a \<Longrightarrow> a \<in> set xs \<and> P a"
  by (metis find_Some_iff nth_mem)

lemma registry_oracle_stable:
  assumes "registry_oracle codec env env2 l sid tool h = DS_ApprovedStable"
  obtains r s where "r \<in> set (reg_tools l)" "is_tool sid tool r" "td_approved_at r \<noteq> None"
    "td_descriptor_hash r = h" "s \<in> set (reg_servers l)" "sv_server_id s = sid"
    "sv_trust_level s \<noteq> ''Untrusted''"
proof -
  from assms obtain p where p: "get_server codec env sid l = Inr (Some p)" "ssp_trust_level p \<noteq> Untrusted"
    and pin: "get_pinned_tool_hash env2 sid tool l = Inr (Some h)"
    by (auto simp: registry_oracle_def split: if_splits sum.splits option.splits)
  from p obtain s where s: "find_server sid l = Some s" "stored_of_row codec s = Inr p"
    by (auto simp: get_server_def db_step_def split: if_splits sum.splits option.splits)
  have "sv_trust_level s \<noteq> ''Untrusted''"
    using s(2) p(2) by (auto simp: stored_of_row_def parse_trust_def split: sum.splits if_splits)
  moreover obtain r where "find (\<lambda>r. is_tool sid tool r \<and> td_approved_at r \<noteq> None) (reg_tools l) = Some r"
    "td_descriptor_hash r = h"
    using pin by (auto simp: get_pinned_tool_hash_def db_step_def split: if_splits)
  ultimately show thesis
    using s(1) that [of r s] by (auto simp: find_server_def dest!: find_Some_set)
qed

interpretation registry: descriptor_oracle
  "registry_oracle codec env env2 (run_regs x codec ops (new_registry a))"
  "registry_approved x codec (new_registry a) ops"
  for codec env env2 x ops a
proof
  fix sid tool h
  assume "registry_oracle codec env env2 (run_regs x codec ops (new_registry a)) sid tool h = DS_ApprovedStable"
  then show "registry_approved x codec (new_registry a) ops sid tool h"
  proof (rule registry_oracle_stable)
    fix r s
    assume "r \<in> set (reg_tools (run_regs x codec ops (new_registry a)))" "is_tool sid tool r"
      "td_approved_at r \<noteq> None" "td_descriptor_hash r = h"
      "s \<in> set (reg_servers (run_regs x codec ops (new_registry a)))" "sv_server_id s = sid"
      "sv_trust_level s \<noteq> ''Untrusted''"
    then show ?thesis
      using vetted_rows [of "new_registry a" r x codec ops] vetted_servers [of "new_registry a" s x codec ops]
      by (auto simp: registry_approved_def is_tool_def)
  qed
qed

lemma blocked_row_step:
  assumes "is_tool sid tool r" "td_approved_at r \<noteq> None" "td_descriptor_hash r \<noteq> h"
    and "\<And>env env2. op \<noteq> RO_approve_tool_to env env2 sid tool h"
  shows "is_tool sid tool (tool_change op r) \<and> td_approved_at (tool_change op r) \<noteq> None \<and>
    td_descriptor_hash (tool_change op r) \<noteq> h"
  using assms by (cases op) (auto simp: pin_known_fields is_tool_key, auto simp: is_tool_def tool_key_def)

lemma blocked_rows:
  assumes "\<forall>op \<in> set ops. \<forall>env env2. op \<noteq> RO_approve_tool_to env env2 sid tool h"
    and "r \<in> set (reg_tools l)" "is_tool sid tool r" "td_approved_at r \<noteq> None" "td_descriptor_hash r \<noteq> h"
  shows "\<exists>r \<in> set (reg_tools (run_regs x c ops l)). is_tool sid tool r \<and> td_approved_at r \<noteq> None \<and>
    td_descriptor_hash r \<noteq> h"
  using assms(1)
proof (induction ops rule: rev_induct)
  case (snoc op ops)
  then obtain r where "r \<in> set (reg_tools (run_regs x c ops l))" "is_tool sid tool r"
    "td_approved_at r \<noteq> None" "td_descriptor_hash r \<noteq> h" by auto
  with snoc.prems show ?case
    using blocked_row_step [of sid tool r h op] by (auto simp: run_reg_tools)
qed (use assms in auto)

lemma key_unique: "tools_wf l \<Longrightarrow> r \<in> set (reg_tools l) \<Longrightarrow> s \<in> set (reg_tools l) \<Longrightarrow> tool_key r = tool_key s \<Longrightarrow> r = s"
  by (auto simp: tools_wf_def distinct_map dest: inj_onD)

section \<open>Properties\<close>

text \<open>
  C28. A drifted descriptor stays blocked until it is re-approved. Once pinning has reported that
  an approved tool drifted to a new hash, no sequence of registry operations that lacks an explicit
  re-approval of exactly that tool and hash (new pins, first approvals, rejections, server
  approvals, repeated registrations) makes the oracle report the new hash as stable.
\<close>

theorem drift_blocks_until_reapproved:
  assumes "tools_wf l" "pin_tool_descriptor env sid tool h l = (Inr (PO_Drifted old new), l')"
    and "\<forall>op \<in> set ops. \<forall>env env2. op \<noteq> RO_approve_tool_to env env2 sid tool h"
  shows "new = h \<and> old \<noteq> h \<and>
    registry_oracle codec env1 env2 (run_regs x codec ops l') sid tool h \<noteq> DS_ApprovedStable"
proof -
  from assms(2) obtain r where r: "find_tool sid tool l = Some r" "env_ok env" "h \<noteq> []"
    and pk: "PO_Drifted old new = fst (pin_known h (ce_now env) r)"
    by (auto simp: pin_tool_descriptor_def db_write_def split: if_splits option.splits)
  from pk have drift: "td_approved_at r \<noteq> None" "td_descriptor_hash r \<noteq> h" "new = h" "old \<noteq> h"
    by (auto simp: pin_known_def Let_def split: if_splits option.splits)
  have mem: "r \<in> set (reg_tools l)" "is_tool sid tool r"
    using r(1) by (auto simp: find_tool_def dest!: find_Some_set)
  let ?r = "tool_change (RO_pin env sid tool h) r"
  have l': "l' = run_reg x codec (RO_pin env sid tool h) l" using assms(2) by simp
  have "?r \<in> set (reg_tools l')" using mem(1) by (simp add: l' run_reg_tools del: run_reg.simps)
  moreover have "is_tool sid tool ?r \<and> td_approved_at ?r \<noteq> None \<and> td_descriptor_hash ?r \<noteq> h"
    using blocked_row_step [of sid tool r h "RO_pin env sid tool h"] mem drift by simp
  ultimately obtain q where q: "q \<in> set (reg_tools (run_regs x codec ops l'))" "is_tool sid tool q"
    "td_descriptor_hash q \<noteq> h"
    using blocked_rows [OF assms(3), of ?r l' x codec] by auto
  have "tools_wf (run_regs x codec ops l')"
    unfolding l' by (intro run_regs_wf run_reg_wf assms(1))
  note unique = key_unique [OF this q(1)]
  have "registry_oracle codec env1 env2 (run_regs x codec ops l') sid tool h \<noteq> DS_ApprovedStable"
    using q(2,3) by (auto simp: is_tool_key dest!: unique elim!: registry_oracle_stable)
  then show ?thesis using drift by simp
qed

text \<open>The canonical form of a binding payload determines the fields it was built from.\<close>

definition jcs_tells_apart :: "ledger_externs \<Rightarrow> bool" where
  "jcs_tells_apart x \<longleftrightarrow>
     (\<forall>t r a i s k t' r' a' i' s' k' j.
        lx_jcs x (oauth_binding_payload t r a i s k) = Some j \<longrightarrow>
        lx_jcs x (oauth_binding_payload t' r' a' i' s' k') = Some j \<longrightarrow>
        t' = t \<and> r' = r \<and> a' = a \<and> i' = i \<and> s' = s \<and> k' = k)"

lemma jcs_apart:
  assumes "jcs_tells_apart x" "lx_jcs x (oauth_binding_payload t r a i s k) = Some j"
  shows "lx_jcs x (oauth_binding_payload t r' a' i' s' k') = Some j \<longleftrightarrow>
    r' = r \<and> a' = a \<and> i' = i \<and> s' = s \<and> k' = k"
proof
  assume "lx_jcs x (oauth_binding_payload t r' a' i' s' k') = Some j"
  from assms(1) [unfolded jcs_tells_apart_def, rule_format, OF assms(2) this]
  show "r' = r \<and> a' = a \<and> i' = i \<and> s' = s \<and> k' = k" by simp
qed (use assms(2) in simp)

lemma verify_chain_more [simp]: "verify_chain x (l\<lparr>reg_oauth := rows\<rparr>) = verify_chain x l"
  by (simp add: verify_chain_def)

lemma register_oauth_ok:
  assumes "register_oauth_token_metadata x c env env2 t r a s k e i l = (Inr (), l')"
  obtains row where "new_event_row x env ''system'' EVENT_TYPE_OAUTH_METADATA_BOUND
      (oauth_binding_payload t r a (Some i) s k) None l = Inr row" "led_events l' = led_events l @ [row]"
    "verify_chain x l' = verify_chain x (insert_event row l)"
proof (cases x env "''system''" EVENT_TYPE_OAUTH_METADATA_BOUND "oauth_binding_payload t r a (Some i) s k"
    "None :: string option" l rule: append_cases)
  case (err e)
  then show thesis using assms
    by (auto simp: register_oauth_token_metadata_def split: if_splits option.splits)
next
  case (ok row)
  then have "\<exists>rows. l' = (insert_event row l)\<lparr>reg_oauth := rows\<rparr>"
    using assms
    by (auto simp: register_oauth_token_metadata_def db_write_def split: if_splits option.splits)
  then show thesis using that [OF ok(2)] by auto
qed

lemma find_snoc_new: "find P xs = None \<Longrightarrow> P a \<Longrightarrow> find P (xs @ [a]) = Some a"
  by (induction xs) (auto split: if_splits)

lemma binding_event_found:
  assumes "new_event_row x env ''system'' EVENT_TYPE_OAUTH_METADATA_BOUND p None l = Inr row"
    and "\<forall>ev \<in> set (led_events l). er_event_id ev \<le> led_seq l" "jcs_canonical x" "env_ok env2"
    and "led_events m = led_events l @ [row]"
  shows "\<exists>q j. event_payload_by_id x env2 (led_seq l + 1) m = Inr (Some q) \<and> lx_jcs x q = Some j \<and>
    lx_jcs x p = Some j"
proof -
  obtain js h where r: "lx_jcs x p = Some js"
    "row = \<lparr>er_event_id = led_seq l + 1, er_session_id = ''system'',
            er_event_type = EVENT_TYPE_OAUTH_METADATA_BOUND, er_payload_json = js, er_redacted_text = None,
            er_prev_hash = head_hash env l, er_event_hash = h, er_created_at = ce_now env,
            er_chain_version = 2\<rparr>"
    using assms(1) by (rule new_event_row_Inr)
  obtain q where "lx_json_from_str x js = Some q" "lx_jcs x q = Some js"
    using assms(3) r(1) unfolding jcs_canonical_def by blast
  moreover have "find (\<lambda>r. er_event_id r = led_seq l + 1 \<and> er_event_type r = EVENT_TYPE_OAUTH_METADATA_BOUND)
      (led_events m) = Some row"
    unfolding assms(5) using assms(2) by (intro find_snoc_new) (auto simp: r(2) find_None_iff)
  ultimately show ?thesis using r assms(4) by (auto simp: event_payload_by_id_def db_step_def)
qed

lemma other_binding_event:
  assumes "event_payload_by_id x env eid m = Inr (Some q)"
    and "led_events m = led_events l @ [ev]" "er_event_id ev \<noteq> eid"
  shows "\<exists>b \<in> set (led_events l). er_event_id b = eid \<and>
    er_event_type b = EVENT_TYPE_OAUTH_METADATA_BOUND \<and> lx_json_from_str x (er_payload_json b) = Some q"
proof -
  from assms(1,2) obtain b where b: "find (\<lambda>r. er_event_id r = eid \<and> er_event_type r = EVENT_TYPE_OAUTH_METADATA_BOUND)
      (led_events l @ [ev]) = Some b" "lx_json_from_str x (er_payload_json b) = Some q"
    by (auto simp: event_payload_by_id_def db_step_def split: if_splits option.splits)
  then show ?thesis using find_Some_set [OF b(1)] assms(3) by auto
qed

text \<open>
  C38. OAuth token metadata is bound to the log by the event its row names. After a successful
  registration on an intact chain, whatever is written over the table: a row that still names the
  event of its registration is returned when token, resource, authorization server, issuer, scopes
  and kind are the registered ones, and refused otherwise; a row that names another event is
  returned only if the log holds a binding event with this id for exactly the content of the row;
  and a row that names no event is returned unchecked, as a row from before the feature. Expiry and
  creation time are not bound.
\<close>

theorem oauth_tampering_detected:
  assumes "register_oauth_token_metadata x c env env2 t r a s k e i l = (Inr (), l')"
    and "verify_chain x l = Inr ()" "\<not> ce_head_read_fault env"
    and "\<forall>ev \<in> set (led_events l). er_event_id ev \<le> led_seq l"
    and "jcs_canonical x" "jcs_tells_apart x"
    and "find (\<lambda>q. ot_token_ref q = t) rows = Some row"
    and "sc_from_str c (ot_scope_set_json row) = Some s'" "env_ok env3" "env_ok env4"
  defines "read \<equiv> get_oauth_token_metadata x c env3 env4 t (l'\<lparr>reg_oauth := rows\<rparr>)"
  shows "case ot_binding_event_id row of
      None \<Rightarrow> read = Inr (Some (metadata_of_row row s'))
    | Some eid \<Rightarrow>
        (isl read \<or> read = Inr (Some (metadata_of_row row s'))) \<and>
        (eid = led_seq l + 1 \<longrightarrow>
          (isl read \<longleftrightarrow> \<not> (ot_resource row = r \<and> ot_authorization_server row = a \<and>
             ot_issuer row = Some i \<and> s' = s \<and> ot_token_kind row = k))) \<and>
        (eid \<noteq> led_seq l + 1 \<longrightarrow> \<not> isl read \<longrightarrow>
          (\<exists>ev \<in> set (led_events l). \<exists>p j. er_event_id ev = eid \<and>
             er_event_type ev = EVENT_TYPE_OAUTH_METADATA_BOUND \<and>
             lx_json_from_str x (er_payload_json ev) = Some p \<and> lx_jcs x p = Some j \<and>
             lx_jcs x (oauth_binding_payload t (ot_resource row) (ot_authorization_server row)
               (ot_issuer row) s' (ot_token_kind row)) = Some j))"
proof (cases "ot_binding_event_id row")
  case None
  then show ?thesis
    using assms(7-9) by (simp add: read_def get_oauth_token_metadata_def db_step_def)
next
  case (Some eid)
  let ?m = "l'\<lparr>reg_oauth := rows\<rparr>"
  let ?p = "oauth_binding_payload t (ot_resource row) (ot_authorization_server row) (ot_issuer row) s'
              (ot_token_kind row)"
  obtain ev where ev: "new_event_row x env ''system'' EVENT_TYPE_OAUTH_METADATA_BOUND
      (oauth_binding_payload t r a (Some i) s k) None l = Inr ev" "led_events l' = led_events l @ [ev]"
    "verify_chain x l' = verify_chain x (insert_event ev l)"
    using assms(1) by (rule register_oauth_ok)
  have chain: "verify_chain x ?m = Inr ()"
    using append_verified [OF assms(2,5) _ ev(1)] assms(3) ev(3) by simp
  have tok: "ot_token_ref row = t" using find_Some_set [OF assms(7)] by simp
  have read: "read = map_sum id (\<lambda>_. Some (metadata_of_row row s')) (check_oauth_binding x env4 row s' eid ?m)"
    using assms(7-9) Some
    by (simp add: read_def get_oauth_token_metadata_def db_step_def split: sum.split)
  have accepted: "\<not> isl read \<longleftrightarrow> (\<exists>q j. event_payload_by_id x env4 eid ?m = Inr (Some q) \<and>
      lx_jcs x q = Some j \<and> lx_jcs x ?p = Some j)"
    using chain tok unfolding read by (auto simp: check_oauth_binding_def split: sum.split option.splits)
  have same: "\<not> isl read \<longleftrightarrow> ot_resource row = r \<and> ot_authorization_server row = a \<and> ot_issuer row = Some i \<and>
      s' = s \<and> ot_token_kind row = k" if "eid = led_seq l + 1"
  proof -
    obtain q j where "event_payload_by_id x env4 eid ?m = Inr (Some q)" "lx_jcs x q = Some j"
      "lx_jcs x (oauth_binding_payload t r a (Some i) s k) = Some j"
      using binding_event_found [OF ev(1) assms(4,5,10), of ?m] ev(2) \<open>eid = led_seq l + 1\<close> by auto
    then show ?thesis using jcs_apart [OF assms(6)] unfolding accepted by auto
  qed
  have other: "\<exists>ev \<in> set (led_events l). \<exists>p j. er_event_id ev = eid \<and>
      er_event_type ev = EVENT_TYPE_OAUTH_METADATA_BOUND \<and>
      lx_json_from_str x (er_payload_json ev) = Some p \<and> lx_jcs x p = Some j \<and> lx_jcs x ?p = Some j"
    if eid: "eid \<noteq> led_seq l + 1" and ok: "\<not> isl read"
  proof -
    have new: "er_event_id ev = led_seq l + 1" using ev(1) by (rule new_event_row_Inr) simp
    obtain q j where q: "event_payload_by_id x env4 eid ?m = Inr (Some q)" "lx_jcs x q = Some j" "lx_jcs x ?p = Some j"
      using ok unfolding accepted by blast
    then show ?thesis using other_binding_event [OF q(1), of l ev] ev(2) new eid by fastforce
  qed
  have "isl read \<or> read = Inr (Some (metadata_of_row row s'))"
    unfolding read by (cases "check_oauth_binding x env4 row s' eid ?m") simp_all
  then show ?thesis unfolding Some option.case using same other by blast
qed

text \<open>Concrete inputs: a codec that knows one list, and a canonical form that knows one payload.\<close>

definition witness_codec :: strs_codec where
  "witness_codec = \<lparr>sc_to_string = (\<lambda>_. Some ''[]''), sc_from_str = (\<lambda>_. Some [])\<rparr>"

definition witness_registry :: registry_db where
  "witness_registry = run_regs witness_qx witness_codec
     [RO_pin witness_env ''s'' ''t'' ''aa'', RO_approve_tool witness_env witness_env ''s'' ''t'']
     (new_registry (new_span_db empty_db))"

definition witness_ox :: ledger_externs where
  "witness_ox =
     (let p = oauth_binding_payload ''tok'' ''res'' ''as'' (Some ''iss'') [] ''access'' in
      witness_lx\<lparr>lx_jcs := (\<lambda>j. if j = p then Some ''{}'' else None),
                 lx_json_from_str := (\<lambda>s. if s = ''{}'' then Some p else None)\<rparr>)"

definition witness_token :: "string \<Rightarrow> oauth_row" where
  "witness_token issuer =
     \<lparr>ot_token_ref = ''tok'', ot_resource = ''res'', ot_authorization_server = ''as'',
      ot_scope_set_json = ''[]'', ot_token_kind = ''access'', ot_expires_at = None, ot_created_at = 7,
      ot_issuer = Some issuer, ot_binding_event_id = Some 1\<rparr>"

lemma witness_ox_canonical: "jcs_canonical witness_ox"
  by (simp add: jcs_canonical_def witness_ox_def Let_def)

lemma witness_ox_apart: "jcs_tells_apart witness_ox"
proof -
  have "map JString s = map JString s' \<longleftrightarrow> s = s'" for s s'
    by (rule inj_map_eq_map) (simp add: inj_def)
  moreover have "j_opt JString i = j_opt JString i' \<longleftrightarrow> i = i'" for i i'
    by (cases i; cases i') (simp_all add: j_opt_def)
  ultimately show ?thesis
    unfolding jcs_tells_apart_def witness_ox_def
    by (simp add: Let_def oauth_binding_payload_def j_strs_def)
qed

theorem drift_blocks_until_reapproved_witness:
  "\<exists>l'. pin_tool_descriptor witness_env ''s'' ''t'' ''bb'' witness_registry = (Inr (PO_Drifted ''aa'' ''bb''), l') \<and>
     registry_oracle witness_codec witness_env witness_env
       (run_regs witness_qx witness_codec
         [RO_reject_tool witness_env witness_env ''s'' ''t'', RO_pin witness_env ''s'' ''t'' ''bb''] l')
       ''s'' ''t'' ''bb'' \<noteq> DS_ApprovedStable"
proof -
  have "fst (pin_tool_descriptor witness_env ''s'' ''t'' ''bb'' witness_registry) = Inr (PO_Drifted ''aa'' ''bb'')"
    by code_simp
  then obtain l' where pin: "pin_tool_descriptor witness_env ''s'' ''t'' ''bb'' witness_registry =
      (Inr (PO_Drifted ''aa'' ''bb''), l')"
    by (metis prod.collapse)
  have "tools_wf witness_registry"
    unfolding witness_registry_def by (rule run_regs_wf) (simp add: tools_wf_def)
  from drift_blocks_until_reapproved [OF this pin, of "[RO_reject_tool witness_env witness_env ''s'' ''t'',
      RO_pin witness_env ''s'' ''t'' ''bb'']" witness_codec witness_env witness_env witness_qx] pin
  show ?thesis by simp
qed

theorem oauth_tampering_detected_witness:
  "\<exists>l'. register_oauth_token_metadata witness_ox witness_codec witness_env witness_env ''tok'' ''res'' ''as'' []
       ''access'' None ''iss'' (new_registry (new_span_db empty_db)) = (Inr (), l') \<and>
     get_oauth_token_metadata witness_ox witness_codec witness_env witness_env ''tok''
       (l'\<lparr>reg_oauth := [witness_token ''iss'']\<rparr>) = Inr (Some (metadata_of_row (witness_token ''iss'') [])) \<and>
     isl (get_oauth_token_metadata witness_ox witness_codec witness_env witness_env ''tok''
       (l'\<lparr>reg_oauth := [witness_token ''evil'']\<rparr>)) \<and>
     isl (get_oauth_token_metadata witness_ox witness_codec witness_env witness_env ''tok''
       (l'\<lparr>reg_oauth := [(witness_token ''evil'')\<lparr>ot_binding_event_id := Some 9\<rparr>]\<rparr>)) \<and>
     get_oauth_token_metadata witness_ox witness_codec witness_env witness_env ''tok''
       (l'\<lparr>reg_oauth := [(witness_token ''evil'')\<lparr>ot_binding_event_id := None\<rparr>]\<rparr>)
       = Inr (Some (metadata_of_row ((witness_token ''evil'')\<lparr>ot_binding_event_id := None\<rparr>) []))"
proof -
  let ?l = "new_registry (new_span_db empty_db)"
  have "fst (register_oauth_token_metadata witness_ox witness_codec witness_env witness_env ''tok'' ''res''
      ''as'' [] ''access'' None ''iss'' ?l) = Inr ()"
    by code_simp
  then obtain l' where reg: "register_oauth_token_metadata witness_ox witness_codec witness_env witness_env
      ''tok'' ''res'' ''as'' [] ''access'' None ''iss'' ?l = (Inr (), l')"
    by (metis prod.collapse)
  have log: "led_events ?l = []" "led_seq ?l = 0"
    by (simp_all add: new_registry_def new_span_db_def empty_db_def empty_ledger_def span_db.defs outbox_db.defs approval_db.defs ledger.defs)
  then have chain: "verify_chain witness_ox ?l = Inr ()" by (simp add: verify_chain_def)
  have ids: "\<forall>ev \<in> set (led_events ?l). er_event_id ev \<le> led_seq ?l" by (simp add: log)
  have env: "\<not> ce_head_read_fault witness_env" "env_ok witness_env" by (simp_all add: witness_env_def)
  have row: "find (\<lambda>q. ot_token_ref q = ''tok'') [(witness_token i)\<lparr>ot_binding_event_id := b\<rparr>]
       = Some ((witness_token i)\<lparr>ot_binding_event_id := b\<rparr>)"
    "sc_from_str witness_codec (ot_scope_set_json ((witness_token i)\<lparr>ot_binding_event_id := b\<rparr>)) = Some []" for i b
    by (simp_all add: witness_token_def witness_codec_def)
  note get = oauth_tampering_detected [OF reg chain env(1) ids witness_ox_canonical witness_ox_apart]
  have same: "(witness_token i)\<lparr>ot_binding_event_id := Some 1\<rparr> = witness_token i" for i
    by (simp add: witness_token_def)
  show ?thesis
    using reg get [OF row [of "Some 1" "''iss''"] env(2,2)] get [OF row [of "Some 1" "''evil''"] env(2,2)]
      get [OF row [of "Some 9" "''evil''"] env(2,2)] get [OF row [of None "''evil''"] env(2,2)]
    unfolding same by (auto simp: log witness_token_def)
qed

end
