(* ===== verification/Lease.thy ===== *)
theory Lease
  imports Registry
begin

text \<open>
  Secret leases (crate \<open>vigil-lease\<close>: \<open>error.rs\<close>, \<open>store.rs\<close>, \<open>broker.rs\<close>): the store of real
  values, the broker that caches a value for one session, server and tool until it expires or is
  revoked, and the environment of a child process with its revocation on drop.

  A store is what the broker calls of it: \<open>get\<close>, with the name of the backend. The in-memory store
  is modelled in full; the keychain store is the parameter. The cache is an association list, the
  broker state is the cache and the database. \<open>lease_env\<close> holds what one operation reads from
  outside: whether the cache lock is poisoned, the clock, the new lease id and the environments of
  the two database calls. Sums of \<open>i64\<close> wrap as in a release build.
\<close>

section \<open>Errors and stores\<close>

datatype secret_store_error =
    SSE_NotFound | SSE_LockPoisoned | SSE_BackendUnavailable | SSE_BackendDenied | SSE_BackendOther

fun reason_code :: "secret_store_error \<Rightarrow> string" where
  "reason_code SSE_NotFound = ''secret_not_found''"
| "reason_code SSE_LockPoisoned = ''lock_poisoned''"
| "reason_code SSE_BackendUnavailable = ''backend_unavailable''"
| "reason_code SSE_BackendDenied = ''backend_denied''"
| "reason_code SSE_BackendOther = ''backend_other''"

datatype mismatch_field = MF_Session | MF_Server | MF_Tool

fun mismatch_as_str :: "mismatch_field \<Rightarrow> string" where
  "mismatch_as_str MF_Session = ''session''"
| "mismatch_as_str MF_Server = ''server''"
| "mismatch_as_str MF_Tool = ''tool''"

datatype lease_error =
    LE_NotFound string
  | LE_Expired string
  | LE_Revoked string
  | LE_ContextMismatch string mismatch_field
  | LE_StoreError secret_store_error
  | LE_UnsupportedInjectionMethod injection_method
  | LE_Internal string

record secret_store =
  st_get :: "string \<Rightarrow> secret_store_error + string"
  st_backend_kind :: string

text \<open>\<open>InMemorySecretStore\<close>: the map behind its mutex.\<close>

type_synonym memory_store = "string \<Rightarrow> string option"

definition mem_put :: "bool \<Rightarrow> string \<Rightarrow> string \<Rightarrow> memory_store \<Rightarrow> (secret_store_error + unit) \<times> memory_store" where
  "mem_put poisoned secret_ref v m =
     (if poisoned then (Inl SSE_LockPoisoned, m) else (Inr (), m(secret_ref \<mapsto> v)))"

definition mem_get :: "bool \<Rightarrow> memory_store \<Rightarrow> string \<Rightarrow> secret_store_error + string" where
  "mem_get poisoned m secret_ref =
     (if poisoned then Inl SSE_LockPoisoned
      else (case m secret_ref of None \<Rightarrow> Inl SSE_NotFound | Some v \<Rightarrow> Inr v))"

definition mem_delete :: "bool \<Rightarrow> string \<Rightarrow> memory_store \<Rightarrow> (secret_store_error + unit) \<times> memory_store" where
  "mem_delete poisoned secret_ref m =
     (if poisoned then (Inl SSE_LockPoisoned, m)
      else (case m secret_ref of None \<Rightarrow> (Inl SSE_NotFound, m) | Some _ \<Rightarrow> (Inr (), m(secret_ref := None))))"

definition memory_secret_store :: "bool \<Rightarrow> memory_store \<Rightarrow> secret_store" where
  "memory_secret_store poisoned m = \<lparr>st_get = mem_get poisoned m, st_backend_kind = ''memory''\<rparr>"

section \<open>The broker\<close>

record mint_request =
  mr_secret_ref :: string
  mr_session_id :: string
  mr_server_id :: string
  mr_tool_name :: string
  mr_approval_id :: "string option"
  mr_injection_method :: injection_method
  mr_ttl_secs :: int

record resolve_context =
  rc_session_id :: string
  rc_server_id :: string
  rc_tool_name :: string

record cached_secret =
  cs_lease :: secret_lease
  cs_value :: string

record lease_state =
  ls_cache :: "(string \<times> cached_secret) list"
  ls_db :: registry_db

record lease_env =
  le_cache_poisoned :: bool
  le_now :: int
  le_lease_id :: string
  le_touch :: call_env
  le_event :: call_env

definition i64_add :: "int \<Rightarrow> int \<Rightarrow> int" where
  "i64_add a b = (a + b + 2 ^ 63) mod 2 ^ 64 - 2 ^ 63"

fun injection_method_str :: "injection_method \<Rightarrow> string" where
  "injection_method_str HttpHeader = ''HttpHeader''"
| "injection_method_str ChildEnv = ''ChildEnv''"
| "injection_method_str Pipe = ''Pipe''"
| "injection_method_str TempFile = ''TempFile''"
| "injection_method_str HookCommand = ''HookCommand''"

text \<open>\<open>let _ = self.ledger.append_event(...)\<close>.\<close>

definition log_event ::
  "ledger_externs \<Rightarrow> call_env \<Rightarrow> string \<Rightarrow> string \<Rightarrow> (string \<times> json) list \<Rightarrow> string \<Rightarrow> lease_state \<Rightarrow> lease_state" where
  "log_event x env sid ty members fts st =
     st\<lparr>ls_db := snd (append_event x env sid ty (JObject members) (Some fts) (ls_db st))\<rparr>"

definition new_lease :: "lease_env \<Rightarrow> mint_request \<Rightarrow> secret_lease" where
  "new_lease env req =
     \<lparr>sl_lease_id = le_lease_id env, sl_secret_ref = mr_secret_ref req,
      sl_bound_session_id = mr_session_id req, sl_bound_server_id = mr_server_id req,
      sl_bound_tool_name = mr_tool_name req, sl_approval_id = mr_approval_id req,
      sl_injection_method = mr_injection_method req,
      sl_expires_at = i64_add (le_now env) (mr_ttl_secs req)\<rparr>"

definition log_mint_failed ::
  "ledger_externs \<Rightarrow> lease_env \<Rightarrow> mint_request \<Rightarrow> string \<Rightarrow> secret_store_error \<Rightarrow> lease_state \<Rightarrow> lease_state" where
  "log_mint_failed x env req backend err =
     log_event x (le_event env) (mr_session_id req) ''secret.lease_mint_failed''
       [(''secret_ref'', JString (mr_secret_ref req)), (''backend'', JString backend),
        (''reason_code'', JString (reason_code err))]
       (''lease_mint_failed '' @ mr_secret_ref req @ '' '' @ backend @ '' '' @ reason_code err)"

definition log_minted :: "ledger_externs \<Rightarrow> lease_env \<Rightarrow> secret_lease \<Rightarrow> lease_state \<Rightarrow> lease_state" where
  "log_minted x env lease =
     log_event x (le_event env) (sl_bound_session_id lease) ''secret.lease_minted''
       [(''lease_id'', JString (sl_lease_id lease)), (''secret_ref'', JString (sl_secret_ref lease)),
        (''bound_session_id'', JString (sl_bound_session_id lease)),
        (''bound_server_id'', JString (sl_bound_server_id lease)),
        (''bound_tool_name'', JString (sl_bound_tool_name lease)),
        (''approval_id'', j_opt JString (sl_approval_id lease)),
        (''injection_method'', JString (injection_method_str (sl_injection_method lease))),
        (''expires_at'', JNumber (show_int (sl_expires_at lease)))]
       (''lease_minted '' @ sl_lease_id lease @ '' '' @ sl_secret_ref lease @ '' '' @
        sl_bound_server_id lease @ '' '' @ sl_bound_tool_name lease)"

definition mint_lease ::
  "ledger_externs \<Rightarrow> secret_store \<Rightarrow> lease_env \<Rightarrow> mint_request \<Rightarrow> lease_state
   \<Rightarrow> (lease_error + secret_lease) \<times> lease_state" where
  "mint_lease x store env req st =
     (case st_get store (mr_secret_ref req) of
        Inl err \<Rightarrow> (Inl (LE_StoreError err), log_mint_failed x env req (st_backend_kind store) err st)
      | Inr v \<Rightarrow>
          if le_cache_poisoned env then (Inl (LE_Internal ''cache lock poisoned''), st)
          else
            let lease = new_lease env req;
                st1 = st\<lparr>ls_cache := AList.update (sl_lease_id lease) \<lparr>cs_lease = lease, cs_value = v\<rparr> (ls_cache st)\<rparr>;
                st2 = st1\<lparr>ls_db := snd (touch_secret_ref (le_touch env) (mr_secret_ref req) (ls_db st1))\<rparr>
            in (Inr lease, log_minted x env lease st2))"

definition log_misuse ::
  "ledger_externs \<Rightarrow> lease_env \<Rightarrow> string \<Rightarrow> string \<Rightarrow> mismatch_field \<Rightarrow> lease_state \<Rightarrow> lease_state" where
  "log_misuse x env sid lease_id field =
     log_event x (le_event env) sid ''secret.lease_misuse_attempt''
       [(''lease_id'', JString lease_id), (''mismatch_field'', JString (mismatch_as_str field))]
       (''lease_misuse_attempt lease_id '' @ lease_id @ '' field '' @ mismatch_as_str field)"

text \<open>The first of session, server and tool that differs from the lease.\<close>

definition mismatch_of :: "secret_lease \<Rightarrow> resolve_context \<Rightarrow> mismatch_field option" where
  "mismatch_of lease ctx =
     (if sl_bound_session_id lease \<noteq> rc_session_id ctx then Some MF_Session
      else if sl_bound_server_id lease \<noteq> rc_server_id ctx then Some MF_Server
      else if sl_bound_tool_name lease \<noteq> rc_tool_name ctx then Some MF_Tool
      else None)"

definition resolve_value ::
  "ledger_externs \<Rightarrow> lease_env \<Rightarrow> string \<Rightarrow> resolve_context \<Rightarrow> lease_state
   \<Rightarrow> (lease_error + string) \<times> lease_state" where
  "resolve_value x env lease_id ctx st =
     (if le_cache_poisoned env then (Inl (LE_Internal ''cache lock poisoned''), st)
      else
        (case map_of (ls_cache st) lease_id of
           None \<Rightarrow> (Inl (LE_NotFound lease_id), st)
         | Some entry \<Rightarrow>
             if le_now env \<ge> sl_expires_at (cs_lease entry) then
               (Inl (LE_Expired lease_id), st\<lparr>ls_cache := AList.delete lease_id (ls_cache st)\<rparr>)
             else
               (case mismatch_of (cs_lease entry) ctx of
                  Some field \<Rightarrow>
                    (Inl (LE_ContextMismatch lease_id field), log_misuse x env (rc_session_id ctx) lease_id field st)
                | None \<Rightarrow> (Inr (cs_value entry), st))))"

definition log_revoked ::
  "ledger_externs \<Rightarrow> lease_env \<Rightarrow> string \<Rightarrow> string \<Rightarrow> string \<Rightarrow> lease_state \<Rightarrow> lease_state" where
  "log_revoked x env sid lease_id reason =
     log_event x (le_event env) sid ''secret.lease_revoked''
       [(''lease_id'', JString lease_id), (''reason'', JString reason)]
       (''lease_revoked '' @ lease_id @ '' '' @ reason)"

definition revoke_lease ::
  "ledger_externs \<Rightarrow> lease_env \<Rightarrow> string \<Rightarrow> lease_state \<Rightarrow> (lease_error + unit) \<times> lease_state" where
  "revoke_lease x env lease_id st =
     (if le_cache_poisoned env then (Inl (LE_Internal ''cache lock poisoned''), st)
      else
        (case map_of (ls_cache st) lease_id of
           None \<Rightarrow> (Inr (), st)
         | Some entry \<Rightarrow>
             (Inr (), log_revoked x env (sl_bound_session_id (cs_lease entry)) lease_id ''explicit''
                (st\<lparr>ls_cache := AList.delete lease_id (ls_cache st)\<rparr>))))"

fun log_expired ::
  "ledger_externs \<Rightarrow> (nat \<Rightarrow> lease_env) \<Rightarrow> nat \<Rightarrow> (string \<times> string) list \<Rightarrow> lease_state \<Rightarrow> lease_state" where
  "log_expired x envs i [] st = st"
| "log_expired x envs i (p # ps) st =
     log_expired x envs (i + 1) ps (log_revoked x (envs i) (snd p) (fst p) ''expired'' st)"

definition lease_expired :: "int \<Rightarrow> string \<times> cached_secret \<Rightarrow> bool" where
  "lease_expired now e \<longleftrightarrow> now \<ge> sl_expires_at (cs_lease (snd e))"

definition lease_sweep_expired ::
  "ledger_externs \<Rightarrow> lease_env \<Rightarrow> (nat \<Rightarrow> lease_env) \<Rightarrow> lease_state \<Rightarrow> (lease_error + nat) \<times> lease_state" where
  "lease_sweep_expired x env envs st =
     (if le_cache_poisoned env then (Inl (LE_Internal ''cache lock poisoned''), st)
      else
        let expired = filter (lease_expired (le_now env)) (ls_cache st);
            removed = map (\<lambda>e. (fst e, sl_bound_session_id (cs_lease (snd e)))) expired
        in (Inr (length removed),
            log_expired x envs 0 removed
              (st\<lparr>ls_cache := filter (\<lambda>e. fst e \<notin> fst ` set expired) (ls_cache st)\<rparr>)))"

definition shutdown :: "lease_env \<Rightarrow> lease_state \<Rightarrow> lease_state" where
  "shutdown env st = (if le_cache_poisoned env then st else st\<lparr>ls_cache := []\<rparr>)"

definition cache_len :: "lease_env \<Rightarrow> lease_state \<Rightarrow> nat" where
  "cache_len env st = (if le_cache_poisoned env then 0 else length (ls_cache st))"

definition assert_injection_supported :: "injection_method \<Rightarrow> lease_error + unit" where
  "assert_injection_supported m =
     (if m = ChildEnv then Inr () else Inl (LE_UnsupportedInjectionMethod m))"

fun revoke_many ::
  "ledger_externs \<Rightarrow> (nat \<Rightarrow> lease_env) \<Rightarrow> nat \<Rightarrow> string list \<Rightarrow> lease_state \<Rightarrow> lease_state" where
  "revoke_many x envs i [] st = st"
| "revoke_many x envs i (lease_id # ids) st =
     revoke_many x envs (i + 1) ids (snd (revoke_lease x (envs i) lease_id st))"

section \<open>The environment of a child process\<close>

record prepared_child_env =
  pe_env :: "(string \<times> string) list option"
  pe_lease_ids :: "string list"

definition env_keys :: "prepared_child_env \<Rightarrow> string list" where
  "env_keys p = (case pe_env p of None \<Rightarrow> [] | Some m \<Rightarrow> sort (map fst m))"

definition take_env :: "prepared_child_env \<Rightarrow> (string \<times> string) list option \<times> prepared_child_env" where
  "take_env p = (pe_env p, p\<lparr>pe_env := None\<rparr>)"

definition lease_count :: "prepared_child_env \<Rightarrow> nat" where
  "lease_count p = length (pe_lease_ids p)"

definition drop_prepared :: "ledger_externs \<Rightarrow> (nat \<Rightarrow> lease_env) \<Rightarrow> prepared_child_env \<Rightarrow> lease_state \<Rightarrow> lease_state" where
  "drop_prepared x envs p st = revoke_many x envs 0 (pe_lease_ids p) st"

record prepare_env =
  pv_query :: call_env
  pv_mint :: "nat \<Rightarrow> lease_env"
  pv_resolve :: "nat \<Rightarrow> lease_env"
  pv_revoke :: "nat \<Rightarrow> lease_env"

fun prepare_bindings ::
  "ledger_externs \<Rightarrow> secret_store \<Rightarrow> prepare_env \<Rightarrow> resolve_context \<Rightarrow> string option \<Rightarrow> int \<Rightarrow> nat
   \<Rightarrow> tool_secret_binding list \<Rightarrow> (string \<times> string) list \<Rightarrow> string list \<Rightarrow> lease_state
   \<Rightarrow> (lease_error + prepared_child_env) \<times> lease_state" where
  "prepare_bindings x store pv ctx approval_id ttl i [] env ids st =
     (Inr \<lparr>pe_env = Some env, pe_lease_ids = ids\<rparr>, st)"
| "prepare_bindings x store pv ctx approval_id ttl i (b # bs) env ids st =
     (case tb_env_var_name b of
        None \<Rightarrow> (Inl (LE_Internal ''ChildEnv binding missing env_var_name''), revoke_many x (pv_revoke pv) 0 ids st)
      | Some env_key \<Rightarrow>
          (case mint_lease x store (pv_mint pv i)
                  \<lparr>mr_secret_ref = tb_secret_ref b, mr_session_id = rc_session_id ctx,
                   mr_server_id = rc_server_id ctx, mr_tool_name = rc_tool_name ctx,
                   mr_approval_id = approval_id, mr_injection_method = ChildEnv, mr_ttl_secs = ttl\<rparr> st of
             (Inl e, st1) \<Rightarrow> (Inl e, revoke_many x (pv_revoke pv) 0 ids st1)
           | (Inr lease, st1) \<Rightarrow>
               let ids' = ids @ [sl_lease_id lease] in
               (case resolve_value x (pv_resolve pv i) (sl_lease_id lease) ctx st1 of
                  (Inl e, st2) \<Rightarrow> (Inl e, revoke_many x (pv_revoke pv) 0 ids' st2)
                | (Inr v, st2) \<Rightarrow>
                    prepare_bindings x store pv ctx approval_id ttl (i + 1) bs (AList.update env_key v env) ids' st2)))"

definition prepare_child_env ::
  "ledger_externs \<Rightarrow> secret_store \<Rightarrow> prepare_env \<Rightarrow> resolve_context \<Rightarrow> string option \<Rightarrow> int \<Rightarrow> lease_state
   \<Rightarrow> (lease_error + prepared_child_env) \<times> lease_state" where
  "prepare_child_env x store pv ctx approval_id ttl st =
     (case resolve_child_env_bindings (pv_query pv) (rc_server_id ctx) (rc_tool_name ctx) (ls_db st) of
        Inl _ \<Rightarrow> (Inl (LE_StoreError SSE_BackendUnavailable), st)
      | Inr bindings \<Rightarrow> prepare_bindings x store pv ctx approval_id ttl 0 bindings [] [] st)"

section \<open>Histories\<close>

datatype lease_op =
    LO_mint secret_store lease_env mint_request
  | LO_resolve lease_env string resolve_context
  | LO_revoke lease_env string
  | LO_sweep lease_env "nat \<Rightarrow> lease_env"
  | LO_shutdown lease_env

fun run_lease :: "ledger_externs \<Rightarrow> lease_op \<Rightarrow> lease_state \<Rightarrow> lease_state" where
  "run_lease x (LO_mint store env req) st = snd (mint_lease x store env req st)"
| "run_lease x (LO_resolve env lid ctx) st = snd (resolve_value x env lid ctx st)"
| "run_lease x (LO_revoke env lid) st = snd (revoke_lease x env lid st)"
| "run_lease x (LO_sweep env envs) st = snd (lease_sweep_expired x env envs st)"
| "run_lease x (LO_shutdown env) st = shutdown env st"

definition run_leases :: "ledger_externs \<Rightarrow> lease_op list \<Rightarrow> lease_state \<Rightarrow> lease_state" where
  "run_leases x ops st = foldl (\<lambda>st op. run_lease x op st) st ops"

lemma run_leases_simps [simp]:
  "run_leases x [] st = st"
  "run_leases x (op # ops) st = run_leases x ops (run_lease x op st)"
  "run_leases x (ops @ ops') st = run_leases x ops' (run_leases x ops st)"
  by (simp_all add: run_leases_def)

lemma log_cache [simp]:
  "ls_cache (log_event x env sid ty ms fts st) = ls_cache st"
  "ls_cache (log_mint_failed x e req b err st) = ls_cache st"
  "ls_cache (log_minted x e lease st) = ls_cache st"
  "ls_cache (log_misuse x e sid lid f st) = ls_cache st"
  "ls_cache (log_revoked x e sid lid r st) = ls_cache st"
  by (simp_all add: log_event_def log_mint_failed_def log_minted_def log_misuse_def log_revoked_def)

lemma log_expired_cache [simp]: "ls_cache (log_expired x envs i ps st) = ls_cache st"
  by (induction x envs i ps st rule: log_expired.induct) simp_all

text \<open>The entry an operation caches under an id, and the operations after which it is gone.\<close>

fun mints :: "string \<Rightarrow> cached_secret \<Rightarrow> lease_op \<Rightarrow> bool" where
  "mints lid c (LO_mint store env req) \<longleftrightarrow>
     le_lease_id env = lid \<and> cs_lease c = new_lease env req \<and> st_get store (mr_secret_ref req) = Inr (cs_value c)"
| "mints lid c _ \<longleftrightarrow> False"

fun discards :: "string \<Rightarrow> int \<Rightarrow> lease_op \<Rightarrow> bool" where
  "discards lid expiry (LO_revoke env lid') \<longleftrightarrow> \<not> le_cache_poisoned env \<and> lid' = lid"
| "discards lid expiry (LO_shutdown env) \<longleftrightarrow> \<not> le_cache_poisoned env"
| "discards lid expiry (LO_sweep env _) \<longleftrightarrow> \<not> le_cache_poisoned env \<and> expiry \<le> le_now env"
| "discards lid expiry (LO_resolve env lid' _) \<longleftrightarrow> \<not> le_cache_poisoned env \<and> lid' = lid \<and> expiry \<le> le_now env"
| "discards lid expiry (LO_mint _ _ _) \<longleftrightarrow> False"

lemma map_of_filter_fst: "map_of (filter (\<lambda>e. fst e \<notin> S) xs) k = (if k \<in> S then None else map_of xs k)"
  by (induction xs) auto

lemma cache_step:
  assumes "map_of (ls_cache (run_lease x op st)) lid = Some c"
  shows "mints lid c op \<or>
    map_of (ls_cache st) lid = Some c \<and> \<not> discards lid (sl_expires_at (cs_lease c)) op"
proof (cases op)
  case (LO_mint store env req)
  with assms show ?thesis
    by (auto simp: mint_lease_def Let_def AList.update_conv' new_lease_def split: sum.splits if_splits)
next
  case (LO_resolve env lid' ctx)
  with assms show ?thesis
    by (auto simp: resolve_value_def AList.delete_conv' split: option.splits if_splits)
next
  case (LO_revoke env lid')
  with assms show ?thesis
    by (auto simp: revoke_lease_def AList.delete_conv' split: option.splits if_splits)
next
  case (LO_sweep env envs)
  let ?expired = "fst ` set (filter (lease_expired (le_now env)) (ls_cache st))"
  from assms LO_sweep have entry: "map_of (ls_cache st) lid = Some c"
    and kept: "\<not> le_cache_poisoned env \<Longrightarrow> lid \<notin> ?expired"
    by (auto simp: lease_sweep_expired_def Let_def map_of_filter_fst split: if_splits)
  from map_of_SomeD [OF entry] have "lease_expired (le_now env) (lid, c) \<Longrightarrow> lid \<in> ?expired" by force
  with LO_sweep entry kept show ?thesis by (auto simp: lease_expired_def)
next
  case (LO_shutdown env)
  with assms show ?thesis by (auto simp: shutdown_def split: if_splits)
qed

lemma cache_origin:
  assumes "ls_cache st0 = []"
  shows "map_of (ls_cache (run_leases x ops st0)) lid = Some c \<Longrightarrow>
    \<exists>pre op post. ops = pre @ op # post \<and> mints lid c op \<and>
      list_all (\<lambda>op. \<not> discards lid (sl_expires_at (cs_lease c)) op) post"
proof (induction ops rule: rev_induct)
  case Nil
  then show ?case using assms by simp
next
  case (snoc op ops)
  from snoc.prems have "map_of (ls_cache (run_lease x op (run_leases x ops st0))) lid = Some c" by simp
  then consider "mints lid c op"
    | "map_of (ls_cache (run_leases x ops st0)) lid = Some c" "\<not> discards lid (sl_expires_at (cs_lease c)) op"
    using cache_step by blast
  then show ?case
  proof cases
    case 1
    then have "ops @ [op] = ops @ op # [] \<and> mints lid c op \<and>
      list_all (\<lambda>op. \<not> discards lid (sl_expires_at (cs_lease c)) op) []" by simp
    then show ?thesis by blast
  next
    case 2
    with snoc.IH obtain pre o' post where "ops = pre @ o' # post" "mints lid c o'"
      "list_all (\<lambda>op. \<not> discards lid (sl_expires_at (cs_lease c)) op) post" by blast
    with 2 have "ops @ [op] = pre @ o' # (post @ [op]) \<and> mints lid c o' \<and>
      list_all (\<lambda>op. \<not> discards lid (sl_expires_at (cs_lease c)) op) (post @ [op])" by simp
    then show ?thesis by blast
  qed
qed

lemma resolve_value_Inr:
  assumes "resolve_value x env lid ctx st = (Inr v, st')"
  obtains c where "map_of (ls_cache st) lid = Some c" "cs_value c = v" "le_now env < sl_expires_at (cs_lease c)"
    "sl_bound_session_id (cs_lease c) = rc_session_id ctx"
    "sl_bound_server_id (cs_lease c) = rc_server_id ctx"
    "sl_bound_tool_name (cs_lease c) = rc_tool_name ctx"
  using assms
  by (auto simp: resolve_value_def mismatch_of_def split: if_splits option.splits)

text \<open>Preparing an environment and dropping it are sequences of these operations.\<close>

lemma revoke_many_steps: "\<exists>ops. revoke_many x envs i ids st = run_leases x ops st"
proof (induction x envs i ids st rule: revoke_many.induct)
  case (1 x envs i st)
  then show ?case by (auto intro: exI [of _ "[]"])
next
  case (2 x envs i lid ids st)
  then obtain ops where "revoke_many x envs (i + 1) ids (snd (revoke_lease x (envs i) lid st)) =
    run_leases x ops (snd (revoke_lease x (envs i) lid st))" by blast
  then show ?case by (auto intro: exI [of _ "LO_revoke (envs i) lid # ops"])
qed

lemma prepare_bindings_steps:
  "\<exists>ops. snd (prepare_bindings x store pv ctx aid ttl i bs env ids st) = run_leases x ops st"
proof (induction x store pv ctx aid ttl i bs env ids st rule: prepare_bindings.induct)
  case (1 x store pv ctx aid ttl i env ids st)
  then show ?case by (auto intro: exI [of _ "[]"])
next
  case (2 x store pv ctx aid ttl i b bs env ids st)
  show ?case
  proof (cases "tb_env_var_name b")
    case None
    then show ?thesis using revoke_many_steps by simp
  next
    case (Some env_key)
    define req where "req = \<lparr>mr_secret_ref = tb_secret_ref b, mr_session_id = rc_session_id ctx,
      mr_server_id = rc_server_id ctx, mr_tool_name = rc_tool_name ctx, mr_approval_id = aid,
      mr_injection_method = ChildEnv, mr_ttl_secs = ttl\<rparr>"
    obtain r1 st1 where m: "mint_lease x store (pv_mint pv i) req st = (r1, st1)" by fastforce
    then have st1: "st1 = run_leases x [LO_mint store (pv_mint pv i) req] st" by simp
    show ?thesis
    proof (cases r1)
      case (Inl e)
      then have "snd (prepare_bindings x store pv ctx aid ttl i (b # bs) env ids st) =
          revoke_many x (pv_revoke pv) 0 ids st1" using Some m by (simp add: req_def)
      then show ?thesis using revoke_many_steps unfolding st1 by (metis run_leases_simps(3))
    next
      case (Inr lease)
      obtain r2 st2 where r: "resolve_value x (pv_resolve pv i) (sl_lease_id lease) ctx st1 = (r2, st2)" by fastforce
      then have st2: "st2 = run_leases x [LO_mint store (pv_mint pv i) req,
          LO_resolve (pv_resolve pv i) (sl_lease_id lease) ctx] st" by (simp add: st1 [simplified, symmetric] m)
      have "\<exists>ops. snd (prepare_bindings x store pv ctx aid ttl i (b # bs) env ids st) = run_leases x ops st2"
      proof (cases r2)
        case (Inl e)
        then show ?thesis using Some m Inr r revoke_many_steps by (simp add: req_def Let_def)
      next
        case r2: (Inr v)
        show ?thesis
          using "2.IH" [OF Some m [symmetric, unfolded req_def] Inr refl r [symmetric] r2] Some m Inr r r2
          by (simp add: req_def Let_def)
      qed
      then show ?thesis unfolding st2 by (metis run_leases_simps(3))
    qed
  qed
qed

section \<open>Forgetting the values\<close>

text \<open>A state, a store and an operation in which every secret value is replaced by the empty one.\<close>

definition blind_entry :: "cached_secret \<Rightarrow> cached_secret" where
  "blind_entry c = c\<lparr>cs_value := []\<rparr>"

definition blind :: "lease_state \<Rightarrow> lease_state" where
  "blind st = st\<lparr>ls_cache := map (\<lambda>(k, c). (k, blind_entry c)) (ls_cache st)\<rparr>"

definition blind_store :: "secret_store \<Rightarrow> secret_store" where
  "blind_store s = s\<lparr>st_get := (\<lambda>r. map_sum id (\<lambda>_. []) (st_get s r))\<rparr>"

fun blind_op :: "lease_op \<Rightarrow> lease_op" where
  "blind_op (LO_mint store env req) = LO_mint (blind_store store) env req"
| "blind_op op = op"

lemma blind_simps [simp]:
  "ls_db (blind st) = ls_db st"
  "map_of (ls_cache (blind st)) lid = map_option blind_entry (map_of (ls_cache st) lid)"
  "cs_lease (blind_entry c) = cs_lease c" "cs_value (blind_entry c) = []"
  "st_backend_kind (blind_store s) = st_backend_kind s"
  by (simp_all add: blind_def blind_store_def map_of_map) (simp_all add: blind_entry_def)

lemma blind_log [simp]:
  "log_event x env sid ty ms fts (blind st) = blind (log_event x env sid ty ms fts st)"
  "log_mint_failed x e req b err (blind st) = blind (log_mint_failed x e req b err st)"
  "log_minted x e lease (blind st) = blind (log_minted x e lease st)"
  "log_misuse x e sid lid f (blind st) = blind (log_misuse x e sid lid f st)"
  "log_revoked x e sid lid r (blind st) = blind (log_revoked x e sid lid r st)"
  by (simp_all add: log_event_def log_mint_failed_def log_minted_def log_misuse_def log_revoked_def blind_def)

lemma update_map_snd:
  "AList.update k (f v) (map (\<lambda>(k, c). (k, f c)) xs) = map (\<lambda>(k, c). (k, f c)) (AList.update k v xs)"
  by (induction xs) auto

lemma delete_map_snd:
  "AList.delete k (map (\<lambda>(k, c). (k, f c)) xs) = map (\<lambda>(k, c). (k, f c)) (AList.delete k xs)"
  by (auto simp: AList.delete_eq filter_map o_def case_prod_unfold)

lemma blind_update:
  "(blind st)\<lparr>ls_cache := AList.update k \<lparr>cs_lease = lease, cs_value = []\<rparr> (ls_cache (blind st)), ls_db := d\<rparr> =
     blind (st\<lparr>ls_cache := AList.update k \<lparr>cs_lease = lease, cs_value = v\<rparr> (ls_cache st), ls_db := d\<rparr>)"
  using update_map_snd [of k blind_entry "\<lparr>cs_lease = lease, cs_value = v\<rparr>" "ls_cache st"]
  by (simp add: blind_def blind_entry_def)

lemma blind_delete:
  "(blind st)\<lparr>ls_cache := AList.delete k (ls_cache (blind st))\<rparr> =
     blind (st\<lparr>ls_cache := AList.delete k (ls_cache st)\<rparr>)"
  by (simp add: blind_def delete_map_snd)

lemma mint_blind:
  "mint_lease x (blind_store s) env req (blind st) =
     (fst (mint_lease x s env req st), blind (snd (mint_lease x s env req st)))"
  by (cases "st_get s (mr_secret_ref req)")
    (auto simp: mint_lease_def Let_def blind_store_def simp flip: blind_log blind_update)

lemma resolve_blind:
  "resolve_value x env lid ctx (blind st) =
     (map_sum id (\<lambda>_. []) (fst (resolve_value x env lid ctx st)), blind (snd (resolve_value x env lid ctx st)))"
  by (auto simp: resolve_value_def blind_delete split: option.splits)

lemma revoke_blind:
  "revoke_lease x env lid (blind st) = (fst (revoke_lease x env lid st), blind (snd (revoke_lease x env lid st)))"
  by (auto simp: revoke_lease_def blind_delete split: option.splits)

lemma revoke_many_blind: "revoke_many x envs i ids (blind st) = blind (revoke_many x envs i ids st)"
  by (induction x envs i ids st rule: revoke_many.induct) (simp_all add: revoke_blind)

lemma log_expired_blind: "log_expired x envs i ps (blind st) = blind (log_expired x envs i ps st)"
  by (induction x envs i ps st rule: log_expired.induct) simp_all

lemma sweep_blind:
  "snd (lease_sweep_expired x env envs (blind st)) = blind (snd (lease_sweep_expired x env envs st))"
proof -
  let ?b = "\<lambda>(k, c). (k, blind_entry c)" and ?now = "le_now env"
  have exp: "filter (lease_expired ?now) (map ?b xs) = map ?b (filter (lease_expired ?now) xs)" for xs
    by (simp add: filter_map o_def case_prod_unfold lease_expired_def [abs_def])
  have keep: "filter (\<lambda>e. fst e \<notin> S) (map ?b xs) = map ?b (filter (\<lambda>e. fst e \<notin> S) xs)" for xs S
    by (auto simp: filter_map o_def case_prod_unfold)
  have gone: "map (\<lambda>e. (fst e, sl_bound_session_id (cs_lease (snd e)))) (map ?b xs) =
      map (\<lambda>e. (fst e, sl_bound_session_id (cs_lease (snd e)))) xs" for xs
    by (simp add: case_prod_unfold)
  have keys: "fst ` set (map ?b xs) = fst ` set xs" for xs by force
  have cache: "ls_cache (blind st) = map ?b (ls_cache st)" by (simp add: blind_def)
  have set_cache: "(blind st)\<lparr>ls_cache := map ?b ys\<rparr> = blind (st\<lparr>ls_cache := ys\<rparr>)" for ys
    by (simp add: blind_def)
  show ?thesis
    unfolding lease_sweep_expired_def Let_def cache exp keys keep gone set_cache log_expired_blind by simp
qed

lemma run_lease_blind: "run_lease x (blind_op op) (blind st) = blind (run_lease x op st)"
proof (cases op)
  case (LO_shutdown env)
  then show ?thesis by (simp add: shutdown_def blind_def)
qed (simp_all add: mint_blind resolve_blind revoke_blind sweep_blind)

lemma run_leases_blind: "run_leases x (map blind_op ops) (blind st) = blind (run_leases x ops st)"
  by (induction ops arbitrary: st) (simp_all add: run_lease_blind)

lemma prepare_bindings_blind:
  "snd (prepare_bindings x (blind_store s) pv ctx aid ttl i bs env' ids (blind st)) =
     blind (snd (prepare_bindings x s pv ctx aid ttl i bs env ids st))"
proof (induction bs arbitrary: i env env' ids st)
  case (Cons b bs)
  show ?case
  proof (cases "tb_env_var_name b")
    case None
    then show ?thesis by (simp add: revoke_many_blind)
  next
    case (Some env_key)
    then show ?thesis
      by (auto simp: mint_blind resolve_blind revoke_many_blind Let_def Cons.IH split: prod.splits sum.splits)
  qed
qed simp

section \<open>What preparing leaves behind\<close>

lemma delete_filter: "AList.delete k xs = filter (\<lambda>e. fst e \<noteq> k) xs"
  by (auto simp: AList.delete_eq case_prod_unfold intro: filter_cong)

lemma revoke_cache:
  "\<not> le_cache_poisoned env \<Longrightarrow> ls_cache (snd (revoke_lease x env lid st)) = filter (\<lambda>e. fst e \<noteq> lid) (ls_cache st)"
  by (auto simp: revoke_lease_def delete_filter map_of_eq_None_iff
      intro!: filter_True [symmetric] split: option.splits)

lemma revoke_many_cache:
  "(\<And>j. \<not> le_cache_poisoned (envs j)) \<Longrightarrow>
   ls_cache (revoke_many x envs i ids st) = filter (\<lambda>e. fst e \<notin> set ids) (ls_cache st)"
  by (induction x envs i ids st rule: revoke_many.induct) (auto simp: revoke_cache intro: filter_cong)

lemma update_fresh: "k \<notin> fst ` set xs \<Longrightarrow> AList.update k v xs = xs @ [(k, v)]"
  by (induction xs) auto

text \<open>The ids that minting will draw from step \<open>i\<close> on are new and distinct.\<close>

definition fresh_ids :: "prepare_env \<Rightarrow> nat \<Rightarrow> string set \<Rightarrow> bool" where
  "fresh_ids pv i used \<longleftrightarrow>
     (\<forall>j \<ge> i. le_lease_id (pv_mint pv j) \<notin> used) \<and>
     (\<forall>j k. j \<noteq> k \<longrightarrow> le_lease_id (pv_mint pv j) \<noteq> le_lease_id (pv_mint pv k))"

lemma fresh_ids_step:
  assumes "fresh_ids pv i used" "used' \<subseteq> insert (le_lease_id (pv_mint pv i)) used"
  shows "fresh_ids pv (i + 1) used'"
proof -
  have "le_lease_id (pv_mint pv j) \<notin> used'" if "j \<ge> i + 1" for j
  proof -
    have "le_lease_id (pv_mint pv j) \<notin> insert (le_lease_id (pv_mint pv i)) used"
      using assms(1) that by (simp add: fresh_ids_def)
    then show ?thesis using assms(2) by blast
  qed
  then show ?thesis using assms(1) by (simp add: fresh_ids_def)
qed

lemma mint_lease_ok:
  assumes "mint_lease x s env req st = (Inr lease, st')"
  shows "sl_lease_id lease = le_lease_id env"
    and "\<exists>c. ls_cache st' = AList.update (le_lease_id env) c (ls_cache st)"
  using assms by (auto simp: mint_lease_def Let_def new_lease_def split: sum.splits if_splits)

lemma mint_lease_failed: "mint_lease x s env req st = (Inl e, st') \<Longrightarrow> ls_cache st' = ls_cache st"
  by (auto simp: mint_lease_def Let_def split: sum.splits if_splits)

lemma resolve_value_cache:
  "resolve_value x env lid ctx st = (r, st') \<Longrightarrow>
   ls_cache st' = ls_cache st \<or> ls_cache st' = filter (\<lambda>e. fst e \<noteq> lid) (ls_cache st)"
  by (auto simp: resolve_value_def delete_filter split: if_splits option.splits)

text \<open>The leases left once the call has failed or its handle is dropped.\<close>

definition settle_prepared ::
  "ledger_externs \<Rightarrow> (nat \<Rightarrow> lease_env) \<Rightarrow> (lease_error + prepared_child_env) \<times> lease_state \<Rightarrow> lease_state" where
  "settle_prepared x envs out =
     (case fst out of Inl _ \<Rightarrow> snd out | Inr p \<Rightarrow> drop_prepared x envs p (snd out))"

lemma filter_key_absent: "k \<notin> fst ` set xs \<Longrightarrow> filter (\<lambda>e. fst e \<noteq> k) xs = xs"
  by (auto simp: filter_id_conv)

lemma prepare_bindings_cache:
  assumes unpoisoned: "\<And>j. \<not> le_cache_poisoned (pv_revoke pv j)" "\<And>j. \<not> le_cache_poisoned (envs j)"
  shows "fresh_ids pv i (set ids \<union> fst ` set (ls_cache st)) \<Longrightarrow>
    filter (\<lambda>e. fst e \<notin> set ids) (ls_cache st) = base \<Longrightarrow>
    ls_cache (settle_prepared x envs (prepare_bindings x s pv ctx aid ttl i bs env ids st)) = base"
proof (induction bs arbitrary: i env ids st)
  case Nil
  then show ?case
    by (simp add: settle_prepared_def drop_prepared_def revoke_many_cache [OF unpoisoned(2)])
next
  case (Cons b bs)
  note gone = revoke_many_cache [OF unpoisoned(1)]
  show ?case
  proof (cases "tb_env_var_name b")
    case None
    then show ?thesis using Cons.prems(2) by (simp add: settle_prepared_def gone)
  next
    case (Some env_key)
    let ?req = "\<lparr>mr_secret_ref = tb_secret_ref b, mr_session_id = rc_session_id ctx,
      mr_server_id = rc_server_id ctx, mr_tool_name = rc_tool_name ctx, mr_approval_id = aid,
      mr_injection_method = ChildEnv, mr_ttl_secs = ttl\<rparr>"
    let ?lid = "le_lease_id (pv_mint pv i)"
    obtain r1 st1 where m: "mint_lease x s (pv_mint pv i) ?req st = (r1, st1)" by fastforce
    show ?thesis
    proof (cases r1)
      case (Inl e)
      then show ?thesis using Some m Cons.prems(2) mint_lease_failed [of x s _ ?req st e st1]
        by (simp add: settle_prepared_def gone)
    next
      case (Inr lease)
      have id: "sl_lease_id lease = ?lid" using m Inr mint_lease_ok(1) by blast
      have new: "?lid \<notin> set ids" "?lid \<notin> fst ` set (ls_cache st)"
        using Cons.prems(1) by (auto simp: fresh_ids_def)
      obtain c where c: "ls_cache st1 = ls_cache st @ [(?lid, c)]"
        using mint_lease_ok(2) [of x s _ ?req] m Inr update_fresh [OF new(2)] by metis
      obtain r2 st2 where r: "resolve_value x (pv_resolve pv i) ?lid ctx st1 = (r2, st2)" by fastforce
      have keys: "fst ` set (ls_cache st2) \<subseteq> insert ?lid (fst ` set (ls_cache st))"
        and rest: "filter (\<lambda>e. fst e \<noteq> ?lid) (ls_cache st2) = ls_cache st"
        using resolve_value_cache [OF r] c filter_key_absent [OF new(2)] by auto
      have "filter (\<lambda>e. fst e \<notin> set (ids @ [?lid])) (ls_cache st2) =
          filter (\<lambda>e. fst e \<notin> set ids) (filter (\<lambda>e. fst e \<noteq> ?lid) (ls_cache st2))"
        by (simp add: conj_commute)
      then have base: "filter (\<lambda>e. fst e \<notin> set (ids @ [?lid])) (ls_cache st2) = base"
        using rest Cons.prems(2) by simp
      have fresh: "fresh_ids pv (i + 1) (set (ids @ [?lid]) \<union> fst ` set (ls_cache st2))"
        using keys by (intro fresh_ids_step [OF Cons.prems(1)]) auto
      show ?thesis
        using Some m Inr id r Cons.IH [OF fresh base] base
        by (cases r2) (simp_all add: settle_prepared_def gone)
    qed
  qed
qed

section \<open>Properties\<close>

text \<open>
  C14. A secret is only handed out under its lease. Whatever the sequence of mints, reads,
  revocations, sweeps and shutdowns and whatever the stores answered, a read that returns a value
  is backed by a mint of that lease for the same session, server and tool, at which the store
  returned that value; the lease has not expired; and nothing since has discarded it: no
  revocation, no shutdown, and no read or sweep at a time past its expiry.
\<close>

theorem resolved_value_was_minted:
  assumes "ls_cache st0 = []"
    and "resolve_value x env lid ctx (run_leases x ops st0) = (Inr v, st')"
  shows "\<exists>pre store menv req post. ops = pre @ LO_mint store menv req # post \<and>
    le_lease_id menv = lid \<and> st_get store (mr_secret_ref req) = Inr v \<and>
    mr_session_id req = rc_session_id ctx \<and> mr_server_id req = rc_server_id ctx \<and>
    mr_tool_name req = rc_tool_name ctx \<and>
    le_now env < i64_add (le_now menv) (mr_ttl_secs req) \<and>
    list_all (\<lambda>op. \<not> discards lid (i64_add (le_now menv) (mr_ttl_secs req)) op) post"
proof -
  from assms(2) obtain c where c: "map_of (ls_cache (run_leases x ops st0)) lid = Some c" "cs_value c = v"
    "le_now env < sl_expires_at (cs_lease c)" "sl_bound_session_id (cs_lease c) = rc_session_id ctx"
    "sl_bound_server_id (cs_lease c) = rc_server_id ctx" "sl_bound_tool_name (cs_lease c) = rc_tool_name ctx"
    by (rule resolve_value_Inr)
  from cache_origin [OF assms(1) c(1)] obtain pre op post where op: "ops = pre @ op # post" "mints lid c op"
    "list_all (\<lambda>op. \<not> discards lid (sl_expires_at (cs_lease c)) op) post" by blast
  from op(2) obtain store menv req where mint: "op = LO_mint store menv req" "le_lease_id menv = lid"
    "cs_lease c = new_lease menv req" "st_get store (mr_secret_ref req) = Inr v"
    using c(2) by (cases op) auto
  show ?thesis
    using op(1,3) c(3-6) mint by (intro exI [of _ pre] exI [of _ store] exI [of _ menv] exI [of _ req]
        exI [of _ post]) (simp add: new_lease_def)
qed

text \<open>
  C16. Secret values never reach the database. Replace every value a store can return and every
  cached value by the empty string: after any sequence of broker operations, and after preparing a
  child environment, whether it succeeds or fails, the database (events, search texts, tables) is
  the same.
\<close>

theorem secrets_never_logged:
  "ls_db (run_leases x (map blind_op ops) (blind st)) = ls_db (run_leases x ops st) \<and>
   ls_db (snd (prepare_child_env x (blind_store store) pv ctx aid ttl (blind st))) =
     ls_db (snd (prepare_child_env x store pv ctx aid ttl st))"
  by (simp add: run_leases_blind prepare_child_env_def prepare_bindings_blind [where env = "[]"] split: sum.splits)

text \<open>
  C34. Preparing a child environment leaves no lease behind. If the ids drawn are new and the
  cache lock is not poisoned while revoking, then after a failure at any binding, in the store, at
  the mint or at the read, the cache is exactly what it was before the call, and after a success it
  is so again once the handle is dropped.
\<close>

theorem prepared_leases_are_revoked:
  assumes "fresh_ids pv 0 (fst ` set (ls_cache st))"
    and "\<And>j. \<not> le_cache_poisoned (pv_revoke pv j)" "\<And>j. \<not> le_cache_poisoned (envs j)"
  shows "ls_cache (settle_prepared x envs (prepare_child_env x store pv ctx aid ttl st)) = ls_cache st"
  using prepare_bindings_cache [OF assms(2,3), where i = 0 and ids = "[]" and st = st and env = "[]"] assms(1)
  by (auto simp: prepare_child_env_def split: sum.splits) (simp add: settle_prepared_def)

text \<open>Concrete inputs: one secret in the in-memory store, one binding, ids of growing length.\<close>

definition witness_lenv :: "nat \<Rightarrow> int \<Rightarrow> lease_env" where
  "witness_lenv i now =
     \<lparr>le_cache_poisoned = False, le_now = now, le_lease_id = replicate i (CHR ''a''),
      le_touch = witness_env, le_event = witness_env\<rparr>"

definition witness_store :: secret_store where
  "witness_store = memory_secret_store False [''secret://gh'' \<mapsto> ''hunter2'']"

definition witness_rctx :: resolve_context where
  "witness_rctx = \<lparr>rc_session_id = ''s'', rc_server_id = ''srv'', rc_tool_name = ''t''\<rparr>"

definition witness_req :: mint_request where
  "witness_req =
     \<lparr>mr_secret_ref = ''secret://gh'', mr_session_id = ''s'', mr_server_id = ''srv'', mr_tool_name = ''t'',
      mr_approval_id = None, mr_injection_method = ChildEnv, mr_ttl_secs = 60\<rparr>"

definition witness_lstate :: lease_state where
  "witness_lstate =
     \<lparr>ls_cache = [], ls_db = (new_registry (new_span_db empty_db))\<lparr>reg_bindings :=
        [\<lparr>tb_server_id = ''srv'', tb_tool_name = ''t'', tb_secret_ref = ''secret://gh'',
          tb_injection_method = ''ChildEnv'', tb_env_var_name = Some ''GH''\<rparr>]\<rparr>\<rparr>"

definition witness_prepare :: prepare_env where
  "witness_prepare =
     \<lparr>pv_query = witness_env, pv_mint = (\<lambda>i. witness_lenv (i + 1) 7), pv_resolve = (\<lambda>_. witness_lenv 0 8),
      pv_revoke = (\<lambda>_. witness_lenv 0 9)\<rparr>"

theorem resolved_value_was_minted_witness:
  "\<exists>st'. resolve_value witness_qx (witness_lenv 0 8) ''a'' witness_rctx
     (run_leases witness_qx [LO_mint witness_store (witness_lenv 1 7) witness_req] witness_lstate) = (Inr ''hunter2'', st') \<and>
   (\<exists>pre store menv req post. [LO_mint witness_store (witness_lenv 1 7) witness_req] =
      pre @ LO_mint store menv req # post \<and> st_get store (mr_secret_ref req) = Inr ''hunter2'')"
proof -
  let ?ops = "[LO_mint witness_store (witness_lenv 1 7) witness_req]"
  let ?out = "resolve_value witness_qx (witness_lenv 0 8) ''a'' witness_rctx (run_leases witness_qx ?ops witness_lstate)"
  have "fst ?out = Inr ''hunter2''" by code_simp
  then obtain st' where out: "?out = (Inr ''hunter2'', st')" by (metis prod.collapse)
  have "ls_cache witness_lstate = []" by (simp add: witness_lstate_def)
  from resolved_value_was_minted [OF this out] out show ?thesis by blast
qed

theorem prepared_leases_are_revoked_witness:
  "ls_cache (settle_prepared witness_qx (\<lambda>_. witness_lenv 0 9)
     (prepare_child_env witness_qx witness_store witness_prepare witness_rctx None 60 witness_lstate)) =
     ls_cache witness_lstate \<and>
   map_sum id lease_count (fst (prepare_child_env witness_qx witness_store witness_prepare witness_rctx None 60
     witness_lstate)) = Inr 1"
proof
  have "fresh_ids witness_prepare 0 (fst ` set (ls_cache witness_lstate))"
    by (auto simp: fresh_ids_def witness_prepare_def witness_lenv_def witness_lstate_def replicate_eq_replicate
        simp del: replicate.simps)
  then show "ls_cache (settle_prepared witness_qx (\<lambda>_. witness_lenv 0 9)
     (prepare_child_env witness_qx witness_store witness_prepare witness_rctx None 60 witness_lstate)) =
     ls_cache witness_lstate"
    by (rule prepared_leases_are_revoked) (simp_all add: witness_prepare_def witness_lenv_def)
  show "map_sum id lease_count (fst (prepare_child_env witness_qx witness_store witness_prepare witness_rctx None 60
     witness_lstate)) = Inr 1"
    by code_simp
qed

end
