(* ===== verification/Rpc.thy ===== *)
theory Rpc
  imports Ledger
begin

text \<open>
  The JSON-RPC messages of the hub and their newline-delimited framing (crate \<open>vigil-mcp\<close>,
  \<open>protocol.rs\<close>), and the errors an upstream reports (\<open>upstream.rs\<close>). A reader is the bytes still to
  come and how the stream ends: with end of file or with an I/O error. The JSON parser and printer
  (\<open>serde_json\<close>) are parameters.
\<close>

section \<open>Messages\<close>

record json_rpc_request =
  rq_jsonrpc :: string
  rq_id :: "json option"
  rq_method :: string
  rq_params :: "json option"

record json_rpc_error =
  je_code :: int
  je_message :: string
  je_data :: "json option"

record json_rpc_response =
  rs_jsonrpc :: string
  rs_id :: json
  rs_result :: "json option"
  rs_error :: "json_rpc_error option"

definition is_notification :: "json_rpc_request \<Rightarrow> bool" where
  "is_notification req \<longleftrightarrow> rq_id req = None"

definition response_id :: "json_rpc_request \<Rightarrow> json" where
  "response_id req = (case rq_id req of None \<Rightarrow> JNull | Some i \<Rightarrow> i)"

definition req_success :: "json_rpc_request \<Rightarrow> json \<Rightarrow> json_rpc_response" where
  "req_success req result =
     \<lparr>rs_jsonrpc = ''2.0'', rs_id = response_id req, rs_result = Some result, rs_error = None\<rparr>"

definition req_error :: "json_rpc_request \<Rightarrow> int \<Rightarrow> string \<Rightarrow> json option \<Rightarrow> json_rpc_response" where
  "req_error req code message data =
     \<lparr>rs_jsonrpc = ''2.0'', rs_id = response_id req, rs_result = None,
      rs_error = Some \<lparr>je_code = code, je_message = message, je_data = data\<rparr>\<rparr>"

definition PARSE :: int where
  "PARSE = - 32700"

definition INVALID_REQUEST :: int where
  "INVALID_REQUEST = - 32600"

definition METHOD_NOT_FOUND :: int where
  "METHOD_NOT_FOUND = - 32601"

definition INVALID_PARAMS :: int where
  "INVALID_PARAMS = - 32602"

definition INTERNAL :: int where
  "INTERNAL = - 32603"

definition VIGIL_DENIED :: int where
  "VIGIL_DENIED = 32001"

definition VIGIL_APPROVAL_REJECTED :: int where
  "VIGIL_APPROVAL_REJECTED = 32002"

definition VIGIL_UPSTREAM_UNAVAILABLE :: int where
  "VIGIL_UPSTREAM_UNAVAILABLE = 32003"

section \<open>Upstream errors\<close>

text \<open>A duration is carried as its \<open>Debug\<close> rendering.\<close>

datatype upstream_error =
    UE_TransportIo string
  | UE_TimedOut string
  | UE_Unauthorized string
  | UE_Forbidden
  | UE_JsonRpc int string
  | UE_TokenRehydrateRequired string
  | UE_AuthError string
  | UE_Internal string
  | UE_ProtocolVersionUnsupported string string
  | UE_ModernOnlyUpstream string string

definition show_i64 :: "int \<Rightarrow> string" where
  "show_i64 i = (if i < 0 then ''-'' @ show_nat (nat (- i)) else show_nat (nat i))"

fun upstream_error_display :: "upstream_error \<Rightarrow> string" where
  "upstream_error_display (UE_TransportIo r) = ''transport_io: '' @ r"
| "upstream_error_display (UE_TimedOut d) = ''timed_out: '' @ d"
| "upstream_error_display (UE_Unauthorized r) = ''unauthorized: '' @ r"
| "upstream_error_display UE_Forbidden = ''forbidden''"
| "upstream_error_display (UE_JsonRpc code _) = ''jsonrpc_error: code='' @ show_i64 code"
| "upstream_error_display (UE_TokenRehydrateRequired r) = ''token_rehydrate_required: '' @ r"
| "upstream_error_display (UE_AuthError r) = ''auth_error: '' @ r"
| "upstream_error_display (UE_Internal r) = ''internal: '' @ r"
| "upstream_error_display (UE_ProtocolVersionUnsupported negotiated supported) =
     ''protocol version '' @ negotiated @ '' negotiated by upstream is not supported by this Vigil build (supports '' @
     supported @ '')''"
| "upstream_error_display (UE_ModernOnlyUpstream supported latest) =
     ''upstream speaks only MCP 2026-07-28+ (advertised: '' @ supported @ ''); this Vigil build talks up to '' @
     latest @ '' '' @ [CHR 0xE2, CHR 0x80, CHR 0x94] @
     '' upgrade Vigil or pin the server to a legacy protocol''"

section \<open>Framing\<close>

datatype protocol_error = PE_Io | PE_Json | PE_Malformed string | PE_Eof

record reader =
  rd_bytes :: string
  rd_fault :: bool

abbreviation newline :: char where
  "newline \<equiv> CHR 0x0A"

text \<open>\<open>BufRead::read_line\<close>: up to and with the next newline; a line that is not UTF-8 is an I/O error.\<close>

definition next_line :: "string \<Rightarrow> string \<times> string" where
  "next_line s =
     (let body = takeWhile (\<lambda>c. c \<noteq> newline) s; rest = dropWhile (\<lambda>c. c \<noteq> newline) s in
      (body @ take 1 rest, drop 1 rest))"

definition read_line :: "reader \<Rightarrow> (protocol_error + string) \<times> reader" where
  "read_line r =
     (case next_line (rd_bytes r) of (line, rest) \<Rightarrow>
        let r' = r\<lparr>rd_bytes := rest\<rparr> in
        if rd_fault r \<and> newline \<notin> set line then (Inl PE_Io, r')
        else if \<not> utf8_valid (bytes_of line) then (Inl PE_Io, r')
        else (Inr line, r'))"

lemma next_line_append: "next_line s = (line, rest) \<Longrightarrow> line @ rest = s"
  by (auto simp: next_line_def Let_def)

lemma next_line_shrinks: "next_line s = (line, rest) \<Longrightarrow> line \<noteq> [] \<Longrightarrow> length rest < length s"
  using next_line_append by (metis length_append length_greater_0_conv less_add_same_cancel2)

lemma read_line_shrinks:
  "read_line r = (Inr line, r') \<Longrightarrow> line \<noteq> [] \<Longrightarrow> length (rd_bytes r') < length (rd_bytes r)"
  by (auto simp: read_line_def Let_def next_line_shrinks split: prod.splits if_splits)

text \<open>Blank lines are skipped; each one takes at least a byte of the input, so the loop ends.\<close>

function read_message ::
  "(string \<Rightarrow> json option) \<Rightarrow> reader \<Rightarrow> (protocol_error + json) \<times> reader" where
  "read_message from_str r =
     (case read_line r of
        (Inl e, r') \<Rightarrow> (Inl e, r')
      | (Inr line, r') \<Rightarrow>
          if line = [] then (Inl PE_Eof, r')
          else
            let trimmed = str_trim line in
            if trimmed = [] then read_message from_str r'
            else (case from_str trimmed of None \<Rightarrow> (Inl PE_Json, r') | Some v \<Rightarrow> (Inr v, r')))"
  by pat_completeness auto

termination
  by (relation "measure (\<lambda>(_, r). length (rd_bytes r))") (auto dest!: sym [of "(_, _)" "read_line _"] read_line_shrinks)

declare read_message.simps [simp del]

text \<open>\<open>accepts\<close> is the number of bytes the writer takes before it fails, \<open>None\<close> when it does not.\<close>

definition write_message ::
  "(json \<Rightarrow> string option) \<Rightarrow> nat option \<Rightarrow> json \<Rightarrow> string \<Rightarrow> (protocol_error + unit) \<times> string" where
  "write_message to_vec accepts v out =
     (case to_vec v of
        None \<Rightarrow> (Inl PE_Json, out)
      | Some bytes \<Rightarrow>
          let frame = bytes @ [newline] in
          (case accepts of
             None \<Rightarrow> (Inr (), out @ frame)
           | Some n \<Rightarrow> (Inl PE_Io, out @ take n frame)))"

section \<open>Reading what was written\<close>

text \<open>
  What the framing relies on of \<open>serde_json\<close>: the compact form of a value is UTF-8 text without a
  line break or outer white space, and it parses back to the value.
\<close>

definition compact_json :: "(string \<Rightarrow> json option) \<Rightarrow> (json \<Rightarrow> string option) \<Rightarrow> bool" where
  "compact_json from_str to_vec \<longleftrightarrow>
     (\<forall>v b. to_vec v = Some b \<longrightarrow>
        from_str b = Some v \<and> b \<noteq> [] \<and> newline \<notin> set b \<and> utf8_valid (bytes_of (b @ [newline])) \<and>
        str_trim (b @ [newline]) = b)"

lemma compact_jsonD:
  assumes "compact_json from_str to_vec" "to_vec v = Some b"
  shows "from_str b = Some v" "b \<noteq> []" "newline \<notin> set b" "utf8_valid (bytes_of (b @ [newline]))"
    "str_trim (b @ [newline]) = b"
  using assms by (auto simp: compact_json_def)

lemma next_line_frame: "newline \<notin> set b \<Longrightarrow> next_line (b @ newline # rest) = (b @ [newline], rest)"
proof -
  assume "newline \<notin> set b"
  then have "takeWhile (\<lambda>c. c \<noteq> newline) (b @ newline # rest) = b"
    "dropWhile (\<lambda>c. c \<noteq> newline) (b @ newline # rest) = newline # rest"
    by (induction b) auto
  then show ?thesis by (simp add: next_line_def Let_def)
qed

lemma read_frame_message:
  assumes "compact_json from_str to_vec" "to_vec v = Some b"
  shows "read_message from_str \<lparr>rd_bytes = b @ newline # rest, rd_fault = f\<rparr> =
    (Inr v, \<lparr>rd_bytes = rest, rd_fault = f\<rparr>)"
  using compact_jsonD [OF assms] assms
  by (subst read_message.simps) (simp add: read_line_def next_line_frame Let_def)

fun read_messages :: "(string \<Rightarrow> json option) \<Rightarrow> nat \<Rightarrow> reader \<Rightarrow> (protocol_error + json) list \<times> reader" where
  "read_messages from_str 0 r = ([], r)"
| "read_messages from_str (Suc n) r =
     (case read_message from_str r of (m, r1) \<Rightarrow>
      case read_messages from_str n r1 of (ms, r2) \<Rightarrow> (m # ms, r2))"

fun write_messages :: "(json \<Rightarrow> string option) \<Rightarrow> json list \<Rightarrow> string \<Rightarrow> (protocol_error + unit) \<times> string" where
  "write_messages to_vec [] out = (Inr (), out)"
| "write_messages to_vec (v # vs) out =
     (case write_message to_vec None v out of
        (Inl e, out1) \<Rightarrow> (Inl e, out1)
      | (Inr _, out1) \<Rightarrow> write_messages to_vec vs out1)"

lemma write_messages_out:
  "write_messages to_vec vs out = (Inr (), out') \<Longrightarrow>
   \<exists>bs. map to_vec vs = map Some bs \<and> out' = out @ concat (map (\<lambda>b. b @ [newline]) bs)"
proof (induction vs arbitrary: out)
  case (Cons v vs)
  then obtain b where "to_vec v = Some b" "write_messages to_vec vs (out @ b @ [newline]) = (Inr (), out')"
    by (auto simp: write_message_def Let_def split: option.splits)
  moreover from Cons.IH [OF this(2)] obtain bs where "map to_vec vs = map Some bs"
    "out' = out @ (b @ [newline]) @ concat (map (\<lambda>b. b @ [newline]) bs)" by auto
  ultimately show ?case by (intro exI [of _ "b # bs"]) simp
qed auto

lemma read_written:
  assumes "compact_json from_str to_vec" "map to_vec vs = map Some bs"
  shows "read_messages from_str (length vs)
      \<lparr>rd_bytes = concat (map (\<lambda>b. b @ [newline]) bs) @ rest, rd_fault = f\<rparr> =
    (map Inr vs, \<lparr>rd_bytes = rest, rd_fault = f\<rparr>)"
  using assms(2)
proof (induction vs arbitrary: bs)
  case (Cons v vs)
  then obtain b bs' where "bs = b # bs'" "to_vec v = Some b" "map to_vec vs = map Some bs'" by (cases bs) auto
  with Cons.IH [of bs'] show ?case by (simp add: read_frame_message [OF assms(1)])
qed simp

text \<open>
  NDJSON round trip. Whatever messages the writer accepts one after the other, a reader of the
  bytes gets exactly these messages in this order, and what follows them on the stream is left.
\<close>

lemma ndjson_roundtrip:
  assumes "compact_json from_str to_vec"
    and "write_messages to_vec vs [] = (Inr (), out)"
  shows "read_messages from_str (length vs) \<lparr>rd_bytes = out @ rest, rd_fault = f\<rparr> =
    (map Inr vs, \<lparr>rd_bytes = rest, rd_fault = f\<rparr>)"
  using write_messages_out [OF assms(2)] read_written [OF assms(1)] by auto

definition witness_from_str :: "string \<Rightarrow> json option" where
  "witness_from_str s = (if s = ''null'' then Some JNull else if s = ''true'' then Some (JBool True) else None)"

definition witness_to_vec :: "json \<Rightarrow> string option" where
  "witness_to_vec v = (if v = JNull then Some ''null'' else if v = JBool True then Some ''true'' else None)"

lemma ndjson_roundtrip_example:
  "read_messages witness_from_str 2 \<lparr>rd_bytes = ''null'' @ newline # ''true'' @ newline # ''x'', rd_fault = False\<rparr> =
    ([Inr JNull, Inr (JBool True)], \<lparr>rd_bytes = ''x'', rd_fault = False\<rparr>)"
proof -
  have c: "compact_json witness_from_str witness_to_vec"
    unfolding compact_json_def witness_from_str_def witness_to_vec_def by (auto; code_simp)
  have w: "write_messages witness_to_vec [JNull, JBool True] [] =
    (Inr (), ''null'' @ newline # ''true'' @ [newline])"
    by (simp add: write_message_def witness_to_vec_def)
  from ndjson_roundtrip [OF c w, of "''x''" False] show ?thesis by (simp add: numeral_2_eq_2)
qed

text \<open>
  Reading ends. On every finite input, whatever its bytes, a reader that keeps asking for messages
  sees end of file or an I/O error after at most one message per byte.
\<close>

lemma read_message_shrinks:
  "read_message from_str r = (Inr v, r') \<Longrightarrow> length (rd_bytes r') < length (rd_bytes r)"
proof (induction from_str r rule: read_message.induct)
  case (1 from_str r)
  from "1.prems" obtain line r1 where l: "read_line r = (Inr line, r1)" and ne: "line \<noteq> []"
    and m: "(if str_trim line = [] then read_message from_str r1
      else case from_str (str_trim line) of None \<Rightarrow> (Inl PE_Json, r1) | Some v \<Rightarrow> (Inr v, r1)) = (Inr v, r')"
    by (subst (asm) read_message.simps) (auto simp: Let_def split: prod.splits sum.splits if_splits)
  note sh = read_line_shrinks [OF l ne]
  show ?case
  proof (cases "str_trim line = []")
    case True
    from "1.IH" [OF l [symmetric] refl ne refl True] m True sh show ?thesis by auto
  next
    case False
    with m sh show ?thesis by (auto split: option.splits)
  qed
qed

end
