(* ===== verification/Namespace.thy ===== *)
theory Namespace
  imports Rpc Approvals
begin

text \<open>
  Public tool names and the routing table of the hub (crate \<open>vigil-mcp\<close>, \<open>namespace.rs\<close>), and the
  hash of a tool descriptor (\<open>descriptor.rs\<close>). The routing table is a hash map: an association list
  with distinct keys, of which only \<open>public_names\<close> exposes an order, and it sorts.
\<close>

section \<open>Names\<close>

datatype namespace_error =
    InvalidServerId string
  | InvalidPublicName string
  | DuplicateName string

definition SERVER_ID_RE :: string where
  "SERVER_ID_RE = ''^[a-z0-9_-]+$''"

definition validate_server_id :: "redact_externs \<Rightarrow> string \<Rightarrow> namespace_error + unit" where
  "validate_server_id x server_id =
     (if regex_is_match x SERVER_ID_RE server_id then Inr () else Inl (InvalidServerId server_id))"

definition make_public :: "redact_externs \<Rightarrow> string \<Rightarrow> string \<Rightarrow> namespace_error + string" where
  "make_public x server_id tool =
     (case validate_server_id x server_id of
        Inl e \<Rightarrow> Inl e
      | Inr _ \<Rightarrow> Inr (server_id @ ''__'' @ tool))"

text \<open>\<open>str::find\<close>: the offset of the first occurrence.\<close>

fun str_find :: "string \<Rightarrow> string \<Rightarrow> nat option" where
  "str_find [] p = (if p = [] then Some 0 else None)"
| "str_find (c # s) p = (if str_starts_with (c # s) p then Some 0 else map_option Suc (str_find s p))"

definition parse_public :: "string \<Rightarrow> namespace_error + string \<times> string" where
  "parse_public public =
     (case str_find public ''__'' of
        None \<Rightarrow> Inl (InvalidPublicName public)
      | Some idx \<Rightarrow>
          if idx = 0 \<or> length public \<le> idx + 2 then Inl (InvalidPublicName public)
          else Inr (take idx public, drop 2 (drop idx public)))"

section \<open>The routing table\<close>

record tool_route =
  rt_public :: string
  rt_server_id :: string
  rt_upstream_tool_name :: string
  rt_descriptor_hash :: string

type_synonym tool_router = "(string \<times> tool_route) list"

definition router_default :: tool_router where
  "router_default = []"

definition router_register ::
  "redact_externs \<Rightarrow> string \<Rightarrow> string \<Rightarrow> string \<Rightarrow> tool_router \<Rightarrow> (namespace_error + string) \<times> tool_router" where
  "router_register x server_id tool_name descriptor_hash r =
     (case make_public x server_id tool_name of
        Inl e \<Rightarrow> (Inl e, r)
      | Inr public \<Rightarrow>
          if (case map_of r public of
                None \<Rightarrow> False
              | Some existing \<Rightarrow>
                  rt_server_id existing \<noteq> server_id \<or> rt_upstream_tool_name existing \<noteq> tool_name)
          then (Inl (DuplicateName public), r)
          else
            (Inr public,
             AList.update public
               \<lparr>rt_public = public, rt_server_id = server_id, rt_upstream_tool_name = tool_name,
                rt_descriptor_hash = descriptor_hash\<rparr> r))"

definition router_resolve :: "string \<Rightarrow> tool_router \<Rightarrow> tool_route option" where
  "router_resolve public r = map_of r public"

definition public_names :: "tool_router \<Rightarrow> string list" where
  "public_names r = sort (map fst r)"

definition router_len :: "tool_router \<Rightarrow> nat" where
  "router_len r = length r"

definition router_is_empty :: "tool_router \<Rightarrow> bool" where
  "router_is_empty r \<longleftrightarrow> r = []"

definition unregister_server :: "string \<Rightarrow> tool_router \<Rightarrow> tool_router" where
  "unregister_server server_id r = filter (\<lambda>(_, t). rt_server_id t \<noteq> server_id) r"

section \<open>Descriptor hashes\<close>

definition DESCRIPTOR_DOMAIN_TAG :: string where
  "DESCRIPTOR_DOMAIN_TAG = ''vigil.descriptor.tool.v1''"

text \<open>\<open>(len as u32).to_be_bytes()\<close> keeps the low 32 bits of the length.\<close>

definition descriptor_hash ::
  "ledger_externs \<Rightarrow> string \<Rightarrow> string \<Rightarrow> json \<Rightarrow> string option \<Rightarrow> json \<Rightarrow> string option" where
  "descriptor_hash x server_id tool_name schema description annotations =
     map_option
       (\<lambda>payload_bytes. lx_hex_encode x (lx_sha256 x
          (DESCRIPTOR_DOMAIN_TAG @ be_bytes 4 (length payload_bytes mod 2 ^ 32) @ payload_bytes)))
       (lx_jcs x (JObject
          [(''server_id'', JString server_id), (''tool_name'', JString tool_name), (''schema'', schema),
           (''description'', j_opt JString description), (''annotations'', annotations)]))"

section \<open>Properties of names\<close>

lemma str_find_bound: "str_find s p = Some i \<Longrightarrow> i + length p \<le> length s"
  by (induction s arbitrary: i) (auto split: if_splits dest: prefix_length_le)

lemma str_find_take: "str_find s p = Some i \<Longrightarrow> s = take i s @ p @ drop (i + length p) s"
proof (induction s arbitrary: i)
  case (Cons c s)
  then show ?case by (auto simp: prefix_def split: if_splits)
qed (auto split: if_splits)

text \<open>The first separator is the one \<open>make_public\<close> put in exactly when the server id has none and does not end in an underscore.\<close>

lemma str_find_sep:
  "str_find (sid @ ''__'' @ tool) ''__'' = Some (length sid) \<longleftrightarrow> \<not> sublist ''__'' (sid @ ''_'')"
proof (induction sid)
  case (Cons c sid)
  have "prefix ''__'' (c # sid @ ''__'' @ tool) \<longleftrightarrow> prefix ''__'' (c # sid @ ''_'')"
    by (cases sid) auto
  with Cons show ?case by (auto simp: sublist_Cons_right)
qed (auto simp: sublist_Cons_right)

lemma parse_public_iff:
  "parse_public (sid @ ''__'' @ tool) = Inr (sid, tool) \<longleftrightarrow>
   sid \<noteq> [] \<and> tool \<noteq> [] \<and> \<not> sublist ''__'' (sid @ ''_'')"
proof (cases "str_find (sid @ ''__'' @ tool) ''__''")
  case None
  then show ?thesis using str_find_sep [of sid tool] by (auto simp: parse_public_def)
next
  case (Some i)
  from str_find_bound [OF Some] have le: "i \<le> length sid + length tool" by simp
  show ?thesis
  proof (cases "i = length sid")
    case True
    with Some str_find_sep [of sid tool] show ?thesis by (auto simp: parse_public_def)
  next
    case False
    with Some str_find_sep [of sid tool] le show ?thesis
      by (auto simp: parse_public_def dest!: arg_cong [where f = length])
  qed
qed

text \<open>
  Splitting a public name. The name \<open>make_public\<close> builds splits back into its server and its
  tool exactly when both are non-empty and the server id neither contains the separator nor ends in
  an underscore; for every other valid server id \<open>parse_public\<close> names another server or fails.
\<close>

lemma public_name_roundtrip_iff:
  assumes "make_public x sid tool = Inr public"
  shows "parse_public public = Inr (sid, tool) \<longleftrightarrow>
    sid \<noteq> [] \<and> tool \<noteq> [] \<and> \<not> sublist ''__'' sid \<and> \<not> suffix ''_'' sid"
proof -
  have "public = sid @ ''__'' @ tool"
    using assms by (auto simp: make_public_def split: sum.splits)
  moreover have "sublist ''__'' (sid @ ''_'') \<longleftrightarrow> sublist ''__'' sid \<or> suffix ''_'' sid"
    using snoc_suffix_snoc [of "''_''" "CHR ''_''" sid] by (auto simp: sublist_snoc)
  ultimately show ?thesis using parse_public_iff [of sid tool] by simp
qed

section \<open>Properties of the routing table\<close>

datatype router_op = Register string string string | Unregister string

fun run_router :: "redact_externs \<Rightarrow> router_op \<Rightarrow> tool_router \<Rightarrow> tool_router" where
  "run_router x (Register sid tool h) r = snd (router_register x sid tool h r)"
| "run_router x (Unregister sid) r = unregister_server sid r"

definition run_routers :: "redact_externs \<Rightarrow> router_op list \<Rightarrow> tool_router \<Rightarrow> tool_router" where
  "run_routers x ops r = foldl (\<lambda>r op. run_router x op r) r ops"

lemma run_routers_simps [simp]:
  "run_routers x [] r = r"
  "run_routers x (op # ops) r = run_routers x ops (run_router x op r)"
  "run_routers x (ops @ ops') r = run_routers x ops' (run_routers x ops r)"
  by (simp_all add: run_routers_def)

definition route_ok :: "redact_externs \<Rightarrow> string \<Rightarrow> tool_route \<Rightarrow> bool" where
  "route_ok x p t \<longleftrightarrow>
     rt_public t = p \<and> make_public x (rt_server_id t) (rt_upstream_tool_name t) = Inr p"

definition router_wf :: "redact_externs \<Rightarrow> tool_router \<Rightarrow> bool" where
  "router_wf x r \<longleftrightarrow> distinct (map fst r) \<and> list_all (\<lambda>(p, t). route_ok x p t) r"

lemma router_wf_default [simp]: "router_wf x router_default"
  by (simp add: router_wf_def router_default_def)

lemma router_register_cases:
  obtains (refused) e where "router_register x sid tool h r = (Inl e, r)"
  | (added) p t where "router_register x sid tool h r = (Inr p, AList.update p t r)" "route_ok x p t"
    "t = \<lparr>rt_public = p, rt_server_id = sid, rt_upstream_tool_name = tool, rt_descriptor_hash = h\<rparr>"
    "\<And>t'. map_of r p = Some t' \<Longrightarrow> rt_server_id t' = sid \<and> rt_upstream_tool_name t' = tool"
proof (cases "make_public x sid tool")
  case (Inl e)
  then show thesis using refused by (simp add: router_register_def)
next
  case (Inr p)
  note reg = router_register_def route_ok_def Inr
  show thesis
  proof (cases "\<exists>t. map_of r p = Some t \<and> (rt_server_id t \<noteq> sid \<or> rt_upstream_tool_name t \<noteq> tool)")
    case True
    then show thesis by (intro refused [of "DuplicateName p"]) (auto simp: reg)
  next
    case False
    then show thesis
      by (intro added [of p "\<lparr>rt_public = p, rt_server_id = sid, rt_upstream_tool_name = tool, rt_descriptor_hash = h\<rparr>"])
        (auto simp: reg split: option.splits)
  qed
qed

lemma list_all_update: "list_all (\<lambda>(k, v). P k v) xs \<Longrightarrow> P k v \<Longrightarrow> list_all (\<lambda>(k, v). P k v) (AList.update k v xs)"
  by (induction xs) auto

lemma run_router_wf: "router_wf x r \<Longrightarrow> router_wf x (run_router x op r)"
proof (cases op)
  case (Register sid tool h)
  assume "router_wf x r"
  then show ?thesis unfolding Register run_router.simps
    by (cases x sid tool h r rule: router_register_cases)
      (auto simp: router_wf_def distinct_update intro: list_all_update)
next
  case (Unregister sid)
  assume "router_wf x r"
  then show ?thesis
    by (auto simp: Unregister router_wf_def unregister_server_def distinct_map_filter list_all_iff)
qed

lemma run_routers_wf: "router_wf x r \<Longrightarrow> router_wf x (run_routers x ops r)"
  by (induction ops rule: rev_induct) (auto intro: run_router_wf)

lemma map_of_filter_snd:
  "distinct (map fst xs) \<Longrightarrow> map_of (filter (\<lambda>(_, v). P v) xs) k =
    (case map_of xs k of None \<Rightarrow> None | Some v \<Rightarrow> if P v then Some v else None)"
  by (induction xs) (auto simp: map_of_eq_None_iff rev_image_eqI split: option.splits)

lemma run_router_keeps:
  assumes "router_wf x r" "map_of r p = Some t" "op \<noteq> Unregister (rt_server_id t)"
  obtains t' where "map_of (run_router x op r) p = Some t'" "rt_server_id t' = rt_server_id t"
    "rt_upstream_tool_name t' = rt_upstream_tool_name t"
proof (cases op)
  case (Register sid tool h)
  show thesis
  proof (cases x sid tool h r rule: router_register_cases)
    case (refused e)
    then show thesis using assms(2) that by (simp add: Register)
  next
    case (added p' t')
    then show thesis using assms(2) that [of "if p = p' then t' else t"]
      by (cases "p = p'") (auto simp: Register update_conv)
  qed
next
  case (Unregister sid)
  then show thesis using assms that
    by (auto simp: unregister_server_def router_wf_def map_of_filter_snd)
qed

lemma run_routers_keeps:
  assumes "router_wf x r" "map_of r p = Some t" "Unregister (rt_server_id t) \<notin> set ops"
  shows "\<exists>t'. map_of (run_routers x ops r) p = Some t' \<and> rt_server_id t' = rt_server_id t \<and>
    rt_upstream_tool_name t' = rt_upstream_tool_name t"
  using assms(3)
proof (induction ops rule: rev_induct)
  case (snoc op ops)
  then obtain t' where t': "map_of (run_routers x ops r) p = Some t'" "rt_server_id t' = rt_server_id t"
    "rt_upstream_tool_name t' = rt_upstream_tool_name t" by auto
  from snoc.prems t'(2) have "op \<noteq> Unregister (rt_server_id t')" by auto
  with run_routers_wf [OF assms(1)] t'(1) obtain t'' where "map_of (run_router x op (run_routers x ops r)) p = Some t''"
    "rt_server_id t'' = rt_server_id t'" "rt_upstream_tool_name t'' = rt_upstream_tool_name t'"
    by (rule run_router_keeps)
  with t' show ?case by simp
qed (use assms in auto)

text \<open>
  C31. A route cannot be taken over. Once a public name routes to a tool of a server, no sequence of
  registrations, by whatever servers and under whatever names, and of removals of other servers
  makes it route to another server or another tool; it stays routed, under the name built from
  that server and that tool.
\<close>

theorem route_cannot_be_hijacked:
  assumes "router_resolve public (run_routers x before router_default) = Some t"
    and "Unregister (rt_server_id t) \<notin> set after"
  shows "\<exists>t'. router_resolve public (run_routers x (before @ after) router_default) = Some t' \<and>
    rt_server_id t' = rt_server_id t \<and> rt_upstream_tool_name t' = rt_upstream_tool_name t \<and>
    make_public x (rt_server_id t') (rt_upstream_tool_name t') = Inr public"
proof -
  let ?r = "run_routers x before router_default"
  have wf: "router_wf x ?r" by (simp add: run_routers_wf)
  from run_routers_keeps [OF wf assms(1) [unfolded router_resolve_def] assms(2)] obtain t'
    where t': "map_of (run_routers x after ?r) public = Some t'" "rt_server_id t' = rt_server_id t"
      "rt_upstream_tool_name t' = rt_upstream_tool_name t" by blast
  have "router_wf x (run_routers x after ?r)" using wf by (rule run_routers_wf)
  with t'(1) have "route_ok x public t'" by (auto simp: router_wf_def list_all_iff dest: map_of_SomeD)
  with t' show ?thesis by (simp add: router_resolve_def route_ok_def)
qed

text \<open>A concrete engine that knows the one pattern.\<close>

definition witness_nx :: redact_externs where
  "witness_nx = witness_redact\<lparr>rx_captures_iter := \<lambda>p s.
     if p = SERVER_ID_RE \<and> s \<noteq> [] \<and>
        list_all (\<lambda>c. is_ascii_digit c \<or> c \<in> {CHR ''_'', CHR ''-''} \<or> (is_ascii_alphabetic c \<and> ascii_lower c = c)) s
     then [((0, length s), [])] else []\<rparr>"

lemma public_name_roundtrip_iff_example:
  "parse_public ''github__create_issue'' = Inr (''github'', ''create_issue'')"
proof -
  have "make_public witness_nx ''github'' ''create_issue'' = Inr ''github__create_issue''" by code_simp
  from public_name_roundtrip_iff [OF this] show ?thesis by (simp add: sublist_Cons_right suffix_def)
qed

theorem route_cannot_be_hijacked_witness:
  "\<exists>t'. router_resolve ''a__b__c'' (run_routers witness_nx [Register ''a'' ''b__c'' ''h'', Register ''a__b'' ''c'' ''k'']
      router_default) = Some t' \<and> rt_server_id t' = ''a''"
proof -
  have "router_resolve ''a__b__c'' (run_routers witness_nx [Register ''a'' ''b__c'' ''h''] router_default) =
    Some \<lparr>rt_public = ''a__b__c'', rt_server_id = ''a'', rt_upstream_tool_name = ''b__c'', rt_descriptor_hash = ''h''\<rparr>"
    by code_simp
  from route_cannot_be_hijacked [OF this, of "[Register ''a__b'' ''c'' ''k'']"] show ?thesis by auto
qed

end
