(* ===== verification/Aliases.thy ===== *)
theory Aliases
  imports Namespace Firewall
begin

text \<open>
  The reversible redaction of the hub (crate \<open>vigil-mcp\<close>, the free functions of \<open>hub.rs\<close>): finding
  \<open>secret://\<close> references in the arguments of a call, refusing raw secrets and unresolvable
  references, putting the values in for the upstream and taking them out of its answer.

  An in-place update of a value returns the new value. A \<open>serde_json\<close> map keeps the position of the
  first insertion of a key and the value of the last.
\<close>

section \<open>The alias map\<close>

datatype alias_resolve_error =
    AE_Unknown string
  | AE_CrossServer string string
  | AE_RawSecretInAlias
  | AE_KeyPosition

definition em_dash :: string where
  "em_dash = [CHR 0xE2, CHR 0x80, CHR 0x94]"

definition alias_sha256_prefix :: "ledger_externs \<Rightarrow> string \<Rightarrow> string" where
  "alias_sha256_prefix x alias = take 12 (lx_hex_encode x (lx_sha256 x alias))"

fun alias_reason :: "ledger_externs \<Rightarrow> alias_resolve_error \<Rightarrow> string" where
  "alias_reason x (AE_Unknown alias) =
     ''unknown secret alias (sha256:'' @ alias_sha256_prefix x alias @ '') '' @ em_dash @
     '' not declared in upstreams config''"
| "alias_reason x (AE_CrossServer alias declared_server) =
     ''secret alias `'' @ alias @ ''` is scoped to server `'' @ declared_server @
     ''`, not the server targeted by this call (cross-server resolution denied)''"
| "alias_reason x AE_RawSecretInAlias =
     ''raw secret detected in secret:// alias position; reference a declared alias name, not a literal secret''"
| "alias_reason x AE_KeyPosition = ''secret:// alias in an object key is unsupported''"

record alias_entry =
  al_value :: string
  al_server :: string

type_synonym secret_alias_map = "(string \<times> alias_entry) list"

definition alias_insert :: "string \<Rightarrow> string \<Rightarrow> string \<Rightarrow> secret_alias_map \<Rightarrow> secret_alias_map" where
  "alias_insert alias v server m = AList.update alias \<lparr>al_value = v, al_server = server\<rparr> m"

definition alias_resolve ::
  "redact_externs \<Rightarrow> secret_alias_map \<Rightarrow> string \<Rightarrow> string \<Rightarrow> alias_resolve_error + string" where
  "alias_resolve x m alias server_id =
     (if detect_hard_secret x alias \<noteq> None then Inl AE_RawSecretInAlias
      else
        (case map_of m alias of
           None \<Rightarrow> Inl (AE_Unknown alias)
         | Some entry \<Rightarrow>
             if al_server entry \<noteq> server_id then Inl (AE_CrossServer alias (al_server entry))
             else Inr (al_value entry)))"

section \<open>Alias tokens\<close>

definition ALIAS_PREFIX :: string where
  "ALIAS_PREFIX = ''secret://''"

definition is_alias_body_char :: "char \<Rightarrow> bool" where
  "is_alias_body_char b \<longleftrightarrow>
     is_ascii_alphabetic b \<or> is_ascii_digit b \<or> b \<in> {CHR ''/'', CHR ''_'', CHR ''.'', CHR ''-''}"

definition is_cont :: "char \<Rightarrow> bool" where
  "is_cont c \<longleftrightarrow> utf8_cont (of_char c)"

text \<open>\<open>s.chars().count()\<close> on UTF-8.\<close>

definition char_count :: "string \<Rightarrow> nat" where
  "char_count s = length (filter (\<lambda>c. \<not> is_cont c) s)"

definition after_prefix :: "string \<Rightarrow> string" where
  "after_prefix s = drop (length ALIAS_PREFIX) s"

lemma length_dropWhile_drop: "length (dropWhile P (drop n s)) \<le> length s"
  using length_dropWhile_le [of P "drop n s"] by simp

lemma ALIAS_PREFIX_Cons [simp]: "length ALIAS_PREFIX = 9"
  by (simp add: ALIAS_PREFIX_def)

text \<open>
  The two scanners of the code, on the bytes still to be read. The first copies character by
  character, the second collects the text between tokens and emits it in one piece.
\<close>

function strip_aliases_with :: "string \<Rightarrow> string \<Rightarrow> string" where
  "strip_aliases_with [] replacement = []"
| "strip_aliases_with (c # s) replacement =
     (if str_starts_with (c # s) ALIAS_PREFIX then
        replacement @ strip_aliases_with (dropWhile is_alias_body_char (after_prefix (c # s))) replacement
      else (c # takeWhile is_cont s) @ strip_aliases_with (dropWhile is_cont s) replacement)"
  by pat_completeness auto

termination
  by (relation "measure (\<lambda>(s, _). length s)")
    (auto simp: after_prefix_def le_imp_less_Suc length_dropWhile_le
      intro!: le_less_trans [OF length_dropWhile_le] split: nat.split)

definition strip_aliases :: "string \<Rightarrow> string" where
  "strip_aliases s = strip_aliases_with s [CHR 0x00]"

datatype alias_piece = Literal string | Token string

definition flush_literal :: "string \<Rightarrow> alias_piece list" where
  "flush_literal lit = (if lit = [] then [] else [Literal lit])"

function alias_pieces_from :: "string \<Rightarrow> string \<Rightarrow> alias_piece list" where
  "alias_pieces_from lit [] = flush_literal lit"
| "alias_pieces_from lit (c # s) =
     (if str_starts_with (c # s) ALIAS_PREFIX then
        flush_literal lit @ Token (takeWhile is_alias_body_char (after_prefix (c # s))) #
        alias_pieces_from [] (dropWhile is_alias_body_char (after_prefix (c # s)))
      else alias_pieces_from (lit @ c # takeWhile is_cont s) (dropWhile is_cont s))"
  by pat_completeness auto

termination
  by (relation "measure (\<lambda>(_, s). length s)")
    (auto simp: after_prefix_def le_imp_less_Suc length_dropWhile_le
      intro!: le_less_trans [OF length_dropWhile_le] split: nat.split)

definition alias_pieces :: "string \<Rightarrow> alias_piece list" where
  "alias_pieces s = alias_pieces_from [] s"

text \<open>The callback runs on each piece and threads what it captures; its first error ends the scan.\<close>

fun emit_pieces :: "(alias_piece \<Rightarrow> 's \<Rightarrow> 'e + 's) \<Rightarrow> alias_piece list \<Rightarrow> 's \<Rightarrow> 'e + 's" where
  "emit_pieces emit [] st = Inr st"
| "emit_pieces emit (p # ps) st = (case emit p st of Inl e \<Rightarrow> Inl e | Inr st' \<Rightarrow> emit_pieces emit ps st')"

definition scan_alias_tokens :: "string \<Rightarrow> (alias_piece \<Rightarrow> 's \<Rightarrow> 'e + 's) \<Rightarrow> 's \<Rightarrow> 'e + 's" where
  "scan_alias_tokens s emit st = emit_pieces emit (alias_pieces s) st"

section \<open>The raw-secret scan\<close>

datatype alias_aware_scan_result = Clean | AllAliased | RawSecret string bool

definition scan_string :: "redact_externs \<Rightarrow> string \<Rightarrow> bool \<Rightarrow> (string \<times> bool) option \<times> bool" where
  "scan_string x s saw =
     (let stripped = strip_aliases s in
      case detect_hard_secret x stripped of
        Some rule' \<Rightarrow>
          (Some (rule', rule' = ''env_assignment'' \<and> stripped \<noteq> s \<and>
                        detect_hard_secret x (strip_aliases_with s []) \<noteq> Some ''env_assignment''), saw)
      | None \<Rightarrow> (None, saw \<or> detect_hard_secret x s \<noteq> None))"

fun scan_walk :: "redact_externs \<Rightarrow> json \<Rightarrow> bool \<Rightarrow> (string \<times> bool) option \<times> bool"
  and scan_items :: "redact_externs \<Rightarrow> json list \<Rightarrow> bool \<Rightarrow> (string \<times> bool) option \<times> bool"
  and scan_members :: "redact_externs \<Rightarrow> (string \<times> json) list \<Rightarrow> bool \<Rightarrow> (string \<times> bool) option \<times> bool"
  where
  "scan_walk x (JString s) saw = scan_string x s saw"
| "scan_walk x (JArray vs) saw = scan_items x vs saw"
| "scan_walk x (JObject kvs) saw = scan_members x kvs saw"
| "scan_walk x JNull saw = (None, saw)"
| "scan_walk x (JBool b) saw = (None, saw)"
| "scan_walk x (JNumber n) saw = (None, saw)"
| "scan_items x [] saw = (None, saw)"
| "scan_items x (v # vs) saw =
     (case scan_walk x v saw of (Some hit, saw1) \<Rightarrow> (Some hit, saw1) | (None, saw1) \<Rightarrow> scan_items x vs saw1)"
| "scan_members x [] saw = (None, saw)"
| "scan_members x ((k, v) # kvs) saw =
     (case detect_hard_secret x k of
        Some rule' \<Rightarrow> (Some (rule', False), saw)
      | None \<Rightarrow>
          (case scan_walk x v saw of
             (Some hit, saw1) \<Rightarrow> (Some hit, saw1)
           | (None, saw1) \<Rightarrow> scan_members x kvs saw1))"

definition scan_args_for_raw_secrets :: "redact_externs \<Rightarrow> json \<Rightarrow> alias_aware_scan_result" where
  "scan_args_for_raw_secrets x args =
     (case scan_walk x args False of
        (Some (rule', alias_shadowed), _) \<Rightarrow> RawSecret rule' alias_shadowed
      | (None, saw) \<Rightarrow> if saw then AllAliased else Clean)"

section \<open>Validation and detokenization\<close>

definition validate_piece ::
  "redact_externs \<Rightarrow> secret_alias_map \<Rightarrow> string \<Rightarrow> alias_piece \<Rightarrow> unit \<Rightarrow> alias_resolve_error + unit" where
  "validate_piece x m server_id piece st =
     (case piece of
        Literal _ \<Rightarrow> Inr ()
      | Token alias \<Rightarrow> (case alias_resolve x m alias server_id of Inl e \<Rightarrow> Inl e | Inr _ \<Rightarrow> Inr ()))"

fun validate_alias_refs ::
    "redact_externs \<Rightarrow> secret_alias_map \<Rightarrow> string \<Rightarrow> json \<Rightarrow> alias_resolve_error + unit"
  and validate_items ::
    "redact_externs \<Rightarrow> secret_alias_map \<Rightarrow> string \<Rightarrow> json list \<Rightarrow> alias_resolve_error + unit"
  and validate_members ::
    "redact_externs \<Rightarrow> secret_alias_map \<Rightarrow> string \<Rightarrow> (string \<times> json) list \<Rightarrow> alias_resolve_error + unit"
  where
  "validate_alias_refs x m sid (JString s) = scan_alias_tokens s (validate_piece x m sid) ()"
| "validate_alias_refs x m sid (JArray vs) = validate_items x m sid vs"
| "validate_alias_refs x m sid (JObject kvs) = validate_members x m sid kvs"
| "validate_alias_refs x m sid JNull = Inr ()"
| "validate_alias_refs x m sid (JBool b) = Inr ()"
| "validate_alias_refs x m sid (JNumber n) = Inr ()"
| "validate_items x m sid [] = Inr ()"
| "validate_items x m sid (v # vs) =
     (case validate_alias_refs x m sid v of Inl e \<Rightarrow> Inl e | Inr _ \<Rightarrow> validate_items x m sid vs)"
| "validate_members x m sid [] = Inr ()"
| "validate_members x m sid ((k, v) # kvs) =
     (if str_contains k ''secret://'' then Inl AE_KeyPosition
      else
        (case validate_alias_refs x m sid v of Inl e \<Rightarrow> Inl e | Inr _ \<Rightarrow> validate_members x m sid kvs))"

type_synonym injected = "(string \<times> string) list"

definition detokenize_piece ::
  "redact_externs \<Rightarrow> secret_alias_map \<Rightarrow> string \<Rightarrow> alias_piece \<Rightarrow> string \<times> injected
   \<Rightarrow> alias_resolve_error + string \<times> injected" where
  "detokenize_piece x m server_id piece st =
     (case st of (out, inj0) \<Rightarrow>
        (case piece of
           Literal t \<Rightarrow> Inr (out @ t, inj0)
         | Token alias \<Rightarrow>
             (case alias_resolve x m alias server_id of
                Inl e \<Rightarrow> Inl e
              | Inr exposed \<Rightarrow> Inr (out @ exposed, inj0 @ [(alias, exposed)]))))"

fun detokenize_alias_refs ::
    "redact_externs \<Rightarrow> secret_alias_map \<Rightarrow> string \<Rightarrow> json \<Rightarrow> injected
     \<Rightarrow> alias_resolve_error + json \<times> injected"
  and detokenize_items ::
    "redact_externs \<Rightarrow> secret_alias_map \<Rightarrow> string \<Rightarrow> json list \<Rightarrow> injected
     \<Rightarrow> alias_resolve_error + json list \<times> injected"
  and detokenize_members ::
    "redact_externs \<Rightarrow> secret_alias_map \<Rightarrow> string \<Rightarrow> (string \<times> json) list \<Rightarrow> injected
     \<Rightarrow> alias_resolve_error + (string \<times> json) list \<times> injected"
  where
  "detokenize_alias_refs x m sid (JString s) inj0 =
     (case scan_alias_tokens s (detokenize_piece x m sid) ([], inj0) of
        Inl e \<Rightarrow> Inl e
      | Inr (out, inj1) \<Rightarrow> Inr (JString out, inj1))"
| "detokenize_alias_refs x m sid (JArray vs) inj0 =
     map_sum id (\<lambda>(ws, inj1). (JArray ws, inj1)) (detokenize_items x m sid vs inj0)"
| "detokenize_alias_refs x m sid (JObject kvs) inj0 =
     map_sum id (\<lambda>(kws, inj1). (JObject kws, inj1)) (detokenize_members x m sid kvs inj0)"
| "detokenize_alias_refs x m sid JNull inj0 = Inr (JNull, inj0)"
| "detokenize_alias_refs x m sid (JBool b) inj0 = Inr (JBool b, inj0)"
| "detokenize_alias_refs x m sid (JNumber n) inj0 = Inr (JNumber n, inj0)"
| "detokenize_items x m sid [] inj0 = Inr ([], inj0)"
| "detokenize_items x m sid (v # vs) inj0 =
     (case detokenize_alias_refs x m sid v inj0 of
        Inl e \<Rightarrow> Inl e
      | Inr (w, inj1) \<Rightarrow>
          (case detokenize_items x m sid vs inj1 of
             Inl e \<Rightarrow> Inl e
           | Inr (ws, inj2) \<Rightarrow> Inr (w # ws, inj2)))"
| "detokenize_members x m sid [] inj0 = Inr ([], inj0)"
| "detokenize_members x m sid ((k, v) # kvs) inj0 =
     (if str_contains k ''secret://'' then Inl AE_KeyPosition
      else
        (case detokenize_alias_refs x m sid v inj0 of
           Inl e \<Rightarrow> Inl e
         | Inr (w, inj1) \<Rightarrow>
             (case detokenize_members x m sid kvs inj1 of
                Inl e \<Rightarrow> Inl e
              | Inr (kws, inj2) \<Rightarrow> Inr ((k, w) # kws, inj2))))"

section \<open>Taking injected values out of an answer\<close>

text \<open>\<open>str::replace\<close> and \<open>str::matches(..).count()\<close> for a non-empty pattern: leftmost, not overlapping.\<close>

function str_replace :: "string \<Rightarrow> string \<Rightarrow> string \<Rightarrow> string" where
  "str_replace p t [] = []"
| "str_replace p t (c # s) =
     (if p \<noteq> [] \<and> str_starts_with (c # s) p then t @ str_replace p t (drop (length p) (c # s))
      else c # str_replace p t s)"
  by pat_completeness auto

termination
  by (relation "measure (\<lambda>(_, _, s). length s)") (auto simp: le_imp_less_Suc neq_Nil_conv)

function str_match_count :: "string \<Rightarrow> string \<Rightarrow> nat" where
  "str_match_count p [] = 0"
| "str_match_count p (c # s) =
     (if p \<noteq> [] \<and> str_starts_with (c # s) p then Suc (str_match_count p (drop (length p) (c # s)))
      else str_match_count p s)"
  by pat_completeness auto

termination
  by (relation "measure (\<lambda>(_, s). length s)") (auto simp: le_imp_less_Suc neq_Nil_conv)

fun substitute_leaf :: "injected \<Rightarrow> string \<Rightarrow> nat \<Rightarrow> string \<times> nat" where
  "substitute_leaf [] s hits = (s, hits)"
| "substitute_leaf ((alias, real) # inj0) s hits =
     (if real = [] \<or> \<not> str_contains s real then substitute_leaf inj0 s hits
      else substitute_leaf inj0 (str_replace real (''secret://'' @ alias) s) (hits + str_match_count real s))"

fun reverse_substitute_injected :: "injected \<Rightarrow> json \<Rightarrow> nat \<Rightarrow> json \<times> nat"
  and substitute_items :: "injected \<Rightarrow> json list \<Rightarrow> nat \<Rightarrow> json list \<times> nat"
  and substitute_members :: "injected \<Rightarrow> (string \<times> json) list \<Rightarrow> nat \<Rightarrow> (string \<times> json) list \<times> nat"
  where
  "reverse_substitute_injected inj0 (JString s) hits =
     (case substitute_leaf inj0 s hits of (t, h) \<Rightarrow> (JString t, h))"
| "reverse_substitute_injected inj0 (JArray vs) hits =
     (case substitute_items inj0 vs hits of (ws, h) \<Rightarrow> (JArray ws, h))"
| "reverse_substitute_injected inj0 (JObject kvs) hits =
     (case substitute_members inj0 kvs hits of (kws, h) \<Rightarrow> (JObject kws, h))"
| "reverse_substitute_injected inj0 JNull hits = (JNull, hits)"
| "reverse_substitute_injected inj0 (JBool b) hits = (JBool b, hits)"
| "reverse_substitute_injected inj0 (JNumber n) hits = (JNumber n, hits)"
| "substitute_items inj0 [] hits = ([], hits)"
| "substitute_items inj0 (v # vs) hits =
     (case reverse_substitute_injected inj0 v hits of (w, h1) \<Rightarrow>
      case substitute_items inj0 vs h1 of (ws, h2) \<Rightarrow> (w # ws, h2))"
| "substitute_members inj0 [] hits = ([], hits)"
| "substitute_members inj0 ((k, v) # kvs) hits =
     (case reverse_substitute_injected inj0 v hits of (w, h1) \<Rightarrow>
      case substitute_members inj0 kvs h1 of (kws, h2) \<Rightarrow> ((k, w) # kws, h2))"

definition has_injected :: "injected \<Rightarrow> string \<Rightarrow> bool" where
  "has_injected inj0 s \<longleftrightarrow> list_ex (\<lambda>(_, real). real \<noteq> [] \<and> str_contains s real) inj0"

fun value_contains_injected :: "injected \<Rightarrow> json \<Rightarrow> bool" where
  "value_contains_injected inj0 (JString s) = has_injected inj0 s"
| "value_contains_injected inj0 (JArray vs) = list_ex (value_contains_injected inj0) vs"
| "value_contains_injected inj0 (JObject kvs) =
     list_ex (\<lambda>kv. has_injected inj0 (fst kv) \<or> value_contains_injected inj0 (snd kv)) kvs"
| "value_contains_injected inj0 _ = False"

definition withheld_tool_result :: "string \<Rightarrow> json" where
  "withheld_tool_result note =
     JObject [(''content'', JArray [JObject [(''type'', JString ''text''), (''text'', JString note)]]),
              (''isError'', JBool False)]"

definition INJECTED_NOTE :: string where
  "INJECTED_NOTE =
     ''[Vigil] The raw tool result was withheld: a detokenized secret was reflected in it and could not be redacted in place.''"

definition redact_injected_reflection :: "json \<Rightarrow> injected \<Rightarrow> json \<times> nat \<times> bool" where
  "redact_injected_reflection result inj0 =
     (case reverse_substitute_injected inj0 result 0 of (r1, reverse_hits) \<Rightarrow>
        let fail_closed = value_contains_injected inj0 r1 in
        (if fail_closed then withheld_tool_result INJECTED_NOTE else r1, reverse_hits, fail_closed))"

section \<open>Scrubbing an answer\<close>

text \<open>Collecting pairs into a map.\<close>

definition collect_map :: "(string \<times> json) list \<Rightarrow> (string \<times> json) list" where
  "collect_map kvs = foldl (\<lambda>m (k, v). AList.update k v m) [] kvs"

definition starts_json :: "string \<Rightarrow> bool" where
  "starts_json s \<longleftrightarrow> (case s of [] \<Rightarrow> False | c # _ \<Rightarrow> c = CHR 0x7B \<or> c = CHR 0x5B)"

text \<open>
  The walk over a tree, with the scrubbing of one string as its argument. \<open>None\<close> is a leaf that could
  not be finished.
\<close>

fun scrub_tree :: "redact_externs \<Rightarrow> (string \<Rightarrow> string option) \<Rightarrow> json \<Rightarrow> json option"
  and scrub_items :: "redact_externs \<Rightarrow> (string \<Rightarrow> string option) \<Rightarrow> json list \<Rightarrow> json list option"
  and scrub_members ::
    "redact_externs \<Rightarrow> (string \<Rightarrow> string option) \<Rightarrow> (string \<times> json) list \<Rightarrow> (string \<times> json) list option"
  and scrub_object_value :: "redact_externs \<Rightarrow> (string \<Rightarrow> string option) \<Rightarrow> string \<Rightarrow> json \<Rightarrow> json option"
  where
  "scrub_tree x leaf (JString s) = map_option JString (leaf s)"
| "scrub_tree x leaf (JArray vs) = map_option JArray (scrub_items x leaf vs)"
| "scrub_tree x leaf (JObject kvs) = map_option (\<lambda>kws. JObject (collect_map kws)) (scrub_members x leaf kvs)"
| "scrub_tree x leaf JNull = Some JNull"
| "scrub_tree x leaf (JBool b) = Some (JBool b)"
| "scrub_tree x leaf (JNumber m) = Some (JNumber m)"
| "scrub_items x leaf [] = Some []"
| "scrub_items x leaf (v # vs) =
     (case scrub_tree x leaf v of None \<Rightarrow> None | Some w \<Rightarrow> map_option ((#) w) (scrub_items x leaf vs))"
| "scrub_members x leaf [] = Some []"
| "scrub_members x leaf ((k, v) # kvs) =
     (case scrub_object_value x leaf k v of None \<Rightarrow> None | Some w \<Rightarrow>
        map_option ((#) (scrub_text x k, w)) (scrub_members x leaf kvs))"
| "scrub_object_value x leaf k (JString s) =
     map_option (\<lambda>t. if t = s \<and> is_secret_key_name x k \<and> secret_value_min_chars k \<le> char_count s
                     then JString ''[REDACTED env_assignment]'' else JString t) (leaf s)"
| "scrub_object_value x leaf k (JArray vs) = map_option JArray (scrub_items x leaf vs)"
| "scrub_object_value x leaf k (JObject kvs) = map_option (\<lambda>kws. JObject (collect_map kws)) (scrub_members x leaf kvs)"
| "scrub_object_value x leaf k JNull = Some JNull"
| "scrub_object_value x leaf k (JBool b) = Some (JBool b)"
| "scrub_object_value x leaf k (JNumber m) = Some (JNumber m)"

text \<open>
  A leaf that is itself JSON text is parsed and scrubbed inside, to any depth. The number counts how
  many more levels may be opened; \<open>None\<close> means that it was not enough.
\<close>

fun scrub_string_leaf ::
  "ledger_externs \<Rightarrow> (json \<Rightarrow> string option) \<Rightarrow> nat \<Rightarrow> string \<Rightarrow> string option" where
  "scrub_string_leaf x to_str n s =
     (case (if starts_json s then lx_json_from_str x s else None) of
        None \<Rightarrow> Some (scrub_text (lx_redact x) s)
      | Some v \<Rightarrow>
          (case n of
             0 \<Rightarrow> None
           | Suc m \<Rightarrow>
               (case scrub_tree (lx_redact x) (scrub_string_leaf x to_str m) v of None \<Rightarrow> None | Some scrubbed \<Rightarrow>
                  if scrubbed = v then Some s
                  else
                    (case to_str scrubbed of
                       Some t \<Rightarrow> Some t
                     | None \<Rightarrow> Some (scrub_text (lx_redact x) s)))))"

declare scrub_string_leaf.simps [simp del]

definition scrub_json_strings ::
  "ledger_externs \<Rightarrow> (json \<Rightarrow> string option) \<Rightarrow> nat \<Rightarrow> json \<Rightarrow> json option" where
  "scrub_json_strings x to_str n v = scrub_tree (lx_redact x) (scrub_string_leaf x to_str n) v"

section \<open>Hashes and prefixes\<close>

definition jcs_sha256 :: "ledger_externs \<Rightarrow> json \<Rightarrow> string option" where
  "jcs_sha256 x v = map_option (\<lambda>bytes. lx_hex_encode x (lx_sha256 x bytes)) (lx_jcs x v)"

definition compute_argv_hash :: "ledger_externs \<Rightarrow> string list \<Rightarrow> string option" where
  "compute_argv_hash x argv = jcs_sha256 x (JArray (map JString argv))"

text \<open>The largest character boundary that is at most \<open>n\<close>.\<close>

fun floor_boundary :: "string \<Rightarrow> nat \<Rightarrow> nat" where
  "floor_boundary s 0 = 0"
| "floor_boundary s (Suc n) = (if is_char_boundary s (Suc n) then Suc n else floor_boundary s n)"

definition injection_scan_prefix :: "string \<Rightarrow> string" where
  "injection_scan_prefix text =
     (if length text \<le> 16 * 1024 then text else take (floor_boundary text (16 * 1024)) text)"

definition sha256_hex_prefix :: "ledger_externs \<Rightarrow> string \<Rightarrow> string" where
  "sha256_hex_prefix x s = take 16 (lx_hex_encode x (lx_sha256 x s))"

fun collect_schema_descriptions :: "json \<Rightarrow> string" where
  "collect_schema_descriptions (JObject kvs) =
     concat (map (\<lambda>kv.
       (if fst kv = ''description'' then
          (case json_as_str (snd kv) of Some s \<Rightarrow> s @ [newline] | None \<Rightarrow> [])
        else []) @ collect_schema_descriptions (snd kv)) kvs)"
| "collect_schema_descriptions (JArray vs) = concat (map collect_schema_descriptions vs)"
| "collect_schema_descriptions _ = []"

section \<open>Tokens\<close>

lemmas alias_scan_simps [simp del] = strip_aliases_with.simps alias_pieces_from.simps

fun piece_with :: "string \<Rightarrow> alias_piece \<Rightarrow> string" where
  "piece_with replacement (Literal t) = t"
| "piece_with replacement (Token _) = replacement"

fun piece_text :: "alias_piece \<Rightarrow> string" where
  "piece_text (Literal t) = t"
| "piece_text (Token alias) = ALIAS_PREFIX @ alias"

lemma prefix_after: "prefix ALIAS_PREFIX s \<Longrightarrow> ALIAS_PREFIX @ after_prefix s = s"
  by (auto simp: prefix_def after_prefix_def)

lemma flush_literal_text [simp]: "concat (map piece_text (flush_literal lit)) = lit"
  "concat (map (piece_with r) (flush_literal lit)) = lit"
  by (simp_all add: flush_literal_def)

lemma pieces_rebuild: "concat (map piece_text (alias_pieces_from lit s)) = lit @ s"
  by (induction lit s rule: alias_pieces_from.induct)
    (auto simp: alias_pieces_from.simps prefix_after)

lemma pieces_strip: "concat (map (piece_with r) (alias_pieces_from lit s)) = lit @ strip_aliases_with s r"
  by (induction lit s rule: alias_pieces_from.induct)
    (auto simp: alias_scan_simps)

text \<open>Every token is a maximal run of body characters.\<close>

lemma pieces_tokens: "Token alias \<in> set (alias_pieces_from lit s) \<Longrightarrow> list_all is_alias_body_char alias"
  by (induction lit s rule: alias_pieces_from.induct)
    (auto simp: alias_pieces_from.simps flush_literal_def list_all_iff dest: set_takeWhileD split: if_splits)

text \<open>
  One grammar for alias references. The scan that exempts references from the raw-secret check
  and the scan that finds the references to resolve agree on every text: what the first removes are
  exactly the tokens of the second, which are runs of body characters and rebuild the text.
\<close>

lemma alias_scanners_agree:
  "strip_aliases_with s replacement = concat (map (piece_with replacement) (alias_pieces s)) \<and>
   concat (map piece_text (alias_pieces s)) = s \<and>
   list_all (\<lambda>p. case p of Literal t \<Rightarrow> t \<noteq> [] | Token alias \<Rightarrow> list_all is_alias_body_char alias) (alias_pieces s)"
proof -
  have "Literal [] \<notin> set (alias_pieces_from lit s)" for lit
    by (induction lit s rule: alias_pieces_from.induct)
      (auto simp: alias_pieces_from.simps flush_literal_def)
  then show ?thesis
    by (auto simp: alias_pieces_def pieces_strip pieces_rebuild list_all_iff pieces_tokens [unfolded list_all_iff]
      split: alias_piece.splits)
qed

section \<open>Strings of a value\<close>

fun json_strings :: "json \<Rightarrow> string list" where
  "json_strings (JString s) = [s]"
| "json_strings (JArray vs) = concat (map json_strings vs)"
| "json_strings (JObject kvs) = concat (map (\<lambda>kv. json_strings (snd kv)) kvs)"
| "json_strings _ = []"

fun json_keys :: "json \<Rightarrow> string list" where
  "json_keys (JArray vs) = concat (map json_keys vs)"
| "json_keys (JObject kvs) = concat (map (\<lambda>kv. fst kv # json_keys (snd kv)) kvs)"
| "json_keys _ = []"

section \<open>What the raw-secret scan lets through\<close>

definition leaf_raw :: "redact_externs \<Rightarrow> string \<Rightarrow> bool" where
  "leaf_raw x s \<longleftrightarrow> detect_hard_secret x (strip_aliases s) \<noteq> None"

definition has_raw_secret :: "redact_externs \<Rightarrow> json \<Rightarrow> bool" where
  "has_raw_secret x v \<longleftrightarrow>
     list_ex (leaf_raw x) (json_strings v) \<or> list_ex (\<lambda>k. detect_hard_secret x k \<noteq> None) (json_keys v)"

lemma scan_string_hit: "fst (scan_string x s saw) = None \<longleftrightarrow> \<not> leaf_raw x s"
  by (auto simp: scan_string_def leaf_raw_def Let_def split: option.splits)

lemma scan_walk_hit:
  "fst (scan_walk x v saw) = None \<longleftrightarrow> \<not> has_raw_secret x v"
  "fst (scan_items x vs saw) = None \<longleftrightarrow> \<not> has_raw_secret x (JArray vs)"
  "fst (scan_members x kvs saw) = None \<longleftrightarrow> \<not> has_raw_secret x (JObject kvs)"
proof (induction x v saw and x vs saw and x kvs saw rule: scan_walk_scan_items_scan_members.induct)
  case (8 x v vs saw)
  then show ?case by (cases "scan_walk x v saw") (auto simp: has_raw_secret_def split: option.splits)
next
  case (10 x k v kvs saw)
  then show ?case
    by (cases "scan_walk x v saw") (auto simp: has_raw_secret_def split: option.splits)
qed (auto simp: has_raw_secret_def scan_string_hit)

lemma scan_args_raw:
  "(\<exists>rule' shadowed. scan_args_for_raw_secrets x args = RawSecret rule' shadowed) \<longleftrightarrow> has_raw_secret x args"
  using scan_walk_hit(1) [of x args False]
  by (cases "scan_walk x args False") (auto simp: scan_args_for_raw_secrets_def split: option.splits)

text \<open>
  Raw secrets in arguments. The scan of the arguments of a call reports a raw secret exactly
  when some object key matches a hard rule, or some string still does after every alias reference in
  it is taken out; otherwise it reports whether anything matched at all.
\<close>

lemma raw_secret_scan_iff:
  "(\<exists>rule' shadowed. scan_args_for_raw_secrets x args = RawSecret rule' shadowed) \<longleftrightarrow>
   list_ex (\<lambda>s. detect_hard_secret x (strip_aliases s) \<noteq> None) (json_strings args) \<or>
   list_ex (\<lambda>k. detect_hard_secret x k \<noteq> None) (json_keys args)"
  unfolding scan_args_raw has_raw_secret_def leaf_raw_def [abs_def] by simp

section \<open>Validation is detokenization without the values\<close>

lemma emit_validate:
  "emit_pieces (validate_piece x m sid) ps () = map_sum id (\<lambda>_. ()) (emit_pieces (detokenize_piece x m sid) ps st)"
proof (induction ps arbitrary: st)
  case (Cons p ps)
  then show ?case
    by (auto simp: validate_piece_def detokenize_piece_def split: alias_piece.splits sum.splits prod.splits)
qed simp

lemma validate_detokenize:
  "validate_alias_refs x m sid v = map_sum id (\<lambda>_. ()) (detokenize_alias_refs x m sid v inj0)"
  "validate_items x m sid vs = map_sum id (\<lambda>_. ()) (detokenize_items x m sid vs inj0)"
  "validate_members x m sid kvs = map_sum id (\<lambda>_. ()) (detokenize_members x m sid kvs inj0)"
proof (induction x m sid v and x m sid vs and x m sid kvs arbitrary: inj0 and inj0 and inj0
    rule: validate_alias_refs_validate_items_validate_members.induct)
  case (1 x m sid s)
  then show ?case
    by (auto simp: scan_alias_tokens_def emit_validate [where st = "([], inj0)"] split: sum.splits)
next
  case (8 x m sid v vs)
  show ?case
  proof (cases "detokenize_alias_refs x m sid v inj0")
    case (Inr p)
    then show ?thesis using "8.IH"(1) [of inj0] "8.IH"(2) [of "()" "snd p"] by (auto split: sum.splits prod.splits)
  qed (use "8.IH"(1) [of inj0] in auto)
next
  case (10 x m sid k v kvs)
  show ?case
  proof (cases "detokenize_alias_refs x m sid v inj0")
    case (Inr p)
    then show ?thesis using "10.IH"(1) [of inj0] "10.IH"(2) [of "()" "snd p"] by (auto split: sum.splits prod.splits)
  qed (use "10.IH"(1) [of inj0] in auto)
qed (auto simp: sum.map_comp comp_def case_prod_beta id_def)

section \<open>What detokenization exposes\<close>

definition exposes :: "redact_externs \<Rightarrow> secret_alias_map \<Rightarrow> string \<Rightarrow> string \<times> string \<Rightarrow> bool" where
  "exposes x m sid p \<longleftrightarrow> alias_resolve x m (fst p) sid = Inr (snd p)"

lemma exposes_entry:
  "exposes x m sid (alias, real) \<longleftrightarrow>
   detect_hard_secret x alias = None \<and> map_of m alias = Some \<lparr>al_value = real, al_server = sid\<rparr>"
proof (cases "map_of m alias")
  case (Some e)
  then show ?thesis by (cases e) (auto simp: exposes_def alias_resolve_def)
qed (auto simp: exposes_def alias_resolve_def)

lemma detokenize_piece_simps [simp]:
  "detokenize_piece x m sid (Literal t) (out, inj0) = Inr (out @ t, inj0)"
  "detokenize_piece x m sid (Token a) (out, inj0) =
     (case alias_resolve x m a sid of Inl e \<Rightarrow> Inl e | Inr real \<Rightarrow> Inr (out @ real, inj0 @ [(a, real)]))"
  by (simp_all add: detokenize_piece_def)

lemma emit_detokenize:
  "emit_pieces (detokenize_piece x m sid) ps (out, inj0) = Inr (out1, inj1) \<Longrightarrow>
   \<exists>new. inj1 = inj0 @ new \<and> list_all (exposes x m sid) new"
proof (induction ps arbitrary: out inj0)
  case (Cons p ps)
  show ?case
  proof (cases p)
    case (Literal t)
    then show ?thesis using Cons.prems Cons.IH by simp
  next
    case (Token a)
    with Cons.prems obtain real where r: "alias_resolve x m a sid = Inr real"
      and "emit_pieces (detokenize_piece x m sid) ps (out @ real, inj0 @ [(a, real)]) = Inr (out1, inj1)"
      by (auto split: sum.splits)
    from Cons.IH [OF this(2)] obtain new where "inj1 = (inj0 @ [(a, real)]) @ new" "list_all (exposes x m sid) new"
      by blast
    moreover from r have "exposes x m sid (a, real)" by (simp add: exposes_def)
    ultimately show ?thesis by (intro exI [of _ "(a, real) # new"]) simp
  qed
qed auto

lemma detokenize_exposes:
  "detokenize_alias_refs x m sid v inj0 = Inr (w, inj1) \<Longrightarrow>
     \<exists>new. inj1 = inj0 @ new \<and> list_all (exposes x m sid) new"
  "detokenize_items x m sid vs inj0 = Inr (ws, inj1) \<Longrightarrow>
     \<exists>new. inj1 = inj0 @ new \<and> list_all (exposes x m sid) new"
  "detokenize_members x m sid kvs inj0 = Inr (kws, inj1) \<Longrightarrow>
     \<exists>new. inj1 = inj0 @ new \<and> list_all (exposes x m sid) new"
proof (induction x m sid v inj0 and x m sid vs inj0 and x m sid kvs inj0 arbitrary: w inj1 and ws inj1 and kws inj1
    rule: detokenize_alias_refs_detokenize_items_detokenize_members.induct)
  case (1 x m sid s inj0)
  then show ?case by (auto simp: scan_alias_tokens_def dest: emit_detokenize split: sum.splits)
next
  case (8 x m sid v vs inj0)
  from "8.prems" obtain w' i ws' where "detokenize_alias_refs x m sid v inj0 = Inr (w', i)"
    "detokenize_items x m sid vs i = Inr (ws', inj1)" by (auto split: sum.splits)
  with "8.IH"(1) [OF this(1)] "8.IH"(2) [OF this(1) refl this(2)] show ?case by auto
next
  case (10 x m sid k v kvs inj0)
  from "10.prems" obtain w' i kws' where d: "\<not> str_contains k ''secret://''"
    "detokenize_alias_refs x m sid v inj0 = Inr (w', i)"
    "detokenize_members x m sid kvs i = Inr (kws', inj1)" by (auto split: sum.splits if_splits)
  with "10.IH"(1) [OF d(1,2)] "10.IH"(2) [OF d(1,2) refl d(3)] show ?case by auto
qed (auto simp: map_sum_Inr_iff)

text \<open>
  C24. Validation decides detokenization. The check before the decision accepts the arguments of a
  call exactly when the substitution after the decision succeeds, and otherwise both report the same
  error; and what the substitution exposes are values declared for the called server under the very
  aliases named, none of which looks like a secret itself.
\<close>

theorem validated_args_detokenize:
  "validate_alias_refs x m sid args = map_sum id (\<lambda>_. ()) (detokenize_alias_refs x m sid args []) \<and>
   (case detokenize_alias_refs x m sid args [] of
      Inl _ \<Rightarrow> True
    | Inr (_, exposed) \<Rightarrow>
        list_all (\<lambda>(alias, real). map_of m alias = Some \<lparr>al_value = real, al_server = sid\<rparr> \<and>
                                  detect_hard_secret x alias = None) exposed)"
proof -
  have "list_all (exposes x m sid) exposed"
    if "detokenize_alias_refs x m sid args [] = Inr (w, exposed)" for w exposed
    using detokenize_exposes(1) [OF that] by simp
  then show ?thesis
    using validate_detokenize(1) [of x m sid args "[]"]
    by (auto simp: list_all_iff split: sum.splits) (metis exposes_entry)+
qed

section \<open>What an answer can still contain\<close>

lemma substitute_leaf_absent: "\<not> has_injected inj0 s \<Longrightarrow> substitute_leaf inj0 s hits = (s, hits)"
  by (induction inj0 s hits rule: substitute_leaf.induct) (auto simp: has_injected_def)

lemma substitute_absent:
  "\<not> value_contains_injected inj0 v \<Longrightarrow> reverse_substitute_injected inj0 v hits = (v, hits)"
  "\<not> value_contains_injected inj0 (JArray vs) \<Longrightarrow> substitute_items inj0 vs hits = (vs, hits)"
  "\<not> value_contains_injected inj0 (JObject kvs) \<Longrightarrow> substitute_members inj0 kvs hits = (kvs, hits)"
  by (induction inj0 v hits and inj0 vs hits and inj0 kvs hits
      rule: reverse_substitute_injected_substitute_items_substitute_members.induct)
    (auto simp: substitute_leaf_absent)

lemma reflection_clean:
  "redact_injected_reflection result inj0 = (r, hits, closed) \<Longrightarrow>
   (\<not> closed \<and> \<not> value_contains_injected inj0 r) \<or> (closed \<and> r = withheld_tool_result INJECTED_NOTE)"
  by (auto simp: redact_injected_reflection_def Let_def split: prod.splits)

lemma reflection_transparent:
  "\<not> value_contains_injected inj0 result \<Longrightarrow> redact_injected_reflection result inj0 = (result, 0, False)"
  by (simp add: redact_injected_reflection_def substitute_absent)

section \<open>Scrubbing ends\<close>

text \<open>
  What the recursion into nested JSON texts relies on of the parser: a string inside a parsed text
  is shorter than the text, which also has the brackets around it.
\<close>

definition nested_shorter :: "ledger_externs \<Rightarrow> bool" where
  "nested_shorter x \<longleftrightarrow>
     (\<forall>s v t. lx_json_from_str x s = Some v \<longrightarrow> t \<in> set (json_strings v) \<longrightarrow> length t < length s)"

lemma scrub_total:
  "(\<And>s. s \<in> set (json_strings v) \<Longrightarrow> leaf s \<noteq> None) \<Longrightarrow> scrub_tree x leaf v \<noteq> None"
  "(\<And>s. s \<in> set (json_strings (JArray vs)) \<Longrightarrow> leaf s \<noteq> None) \<Longrightarrow> scrub_items x leaf vs \<noteq> None"
  "(\<And>s. s \<in> set (json_strings (JObject kvs)) \<Longrightarrow> leaf s \<noteq> None) \<Longrightarrow> scrub_members x leaf kvs \<noteq> None"
  "(\<And>s. s \<in> set (json_strings v) \<Longrightarrow> leaf s \<noteq> None) \<Longrightarrow> scrub_object_value x leaf k v \<noteq> None"
  by (induction x leaf v and x leaf vs and x leaf kvs and x leaf k v
      rule: scrub_tree_scrub_items_scrub_members_scrub_object_value.induct)
    (fastforce split: option.splits)+

lemma scrub_cong:
  "(\<And>s. s \<in> set (json_strings v) \<Longrightarrow> leaf s = leaf' s) \<Longrightarrow> scrub_tree x leaf v = scrub_tree x leaf' v"
  "(\<And>s. s \<in> set (json_strings (JArray vs)) \<Longrightarrow> leaf s = leaf' s) \<Longrightarrow> scrub_items x leaf vs = scrub_items x leaf' vs"
  "(\<And>s. s \<in> set (json_strings (JObject kvs)) \<Longrightarrow> leaf s = leaf' s) \<Longrightarrow>
     scrub_members x leaf kvs = scrub_members x leaf' kvs"
  "(\<And>s. s \<in> set (json_strings v) \<Longrightarrow> leaf s = leaf' s) \<Longrightarrow>
     scrub_object_value x leaf k v = scrub_object_value x leaf' k v"
  by (induction x leaf v and x leaf vs and x leaf kvs and x leaf k v
      rule: scrub_tree_scrub_items_scrub_members_scrub_object_value.induct)
    (auto split: option.splits)

lemma scrub_leaf_fuel:
  assumes "nested_shorter x" "length s \<le> n"
  shows "scrub_string_leaf x to_str n s \<noteq> None \<and>
    scrub_string_leaf x to_str n s = scrub_string_leaf x to_str (length s) s"
  using assms(2)
proof (induction "length s" arbitrary: s n rule: less_induct)
  case less
  show ?case
  proof (cases "if starts_json s then lx_json_from_str x s else None")
    case None
    then show ?thesis by (simp add: scrub_string_leaf.simps)
  next
    case (Some v)
    then have "s \<noteq> []" and p: "lx_json_from_str x s = Some v"
      by (auto simp: starts_json_def split: if_splits)
    with less.prems obtain m k where n: "n = Suc m" "length s = Suc k" "k \<le> m"
      by (cases n; cases s) auto
    have shorter: "length t < length s" if "t \<in> set (json_strings v)" for t
      using assms(1) p that by (auto simp: nested_shorter_def)
    then have le: "length t \<le> k" if "t \<in> set (json_strings v)" for t using n(2) that by fastforce
    have eq: "scrub_string_leaf x to_str i t = scrub_string_leaf x to_str (length t) t"
      "scrub_string_leaf x to_str i t \<noteq> None" if "t \<in> set (json_strings v)" "k \<le> i" for i t
      using less.hyps [OF shorter [OF that(1)], of i] le [OF that(1)] that(2) by (auto dest: sym)
    have "scrub_tree (lx_redact x) (scrub_string_leaf x to_str m) v =
        scrub_tree (lx_redact x) (scrub_string_leaf x to_str k) v"
      by (rule scrub_cong(1)) (use eq(1) n(3) in auto)
    moreover have "scrub_tree (lx_redact x) (scrub_string_leaf x to_str k) v \<noteq> None"
      by (rule scrub_total(1)) (use eq(2) in auto)
    ultimately show ?thesis using Some n
      by (simp add: scrub_string_leaf.simps [of x to_str "Suc _"]) (auto split: option.splits)
  qed
qed

text \<open>The longest string of a value bounds the levels that can be opened.\<close>

definition scrub_fuel :: "json \<Rightarrow> nat" where
  "scrub_fuel v = foldr (\<lambda>s n. max (length s) n) (json_strings v) 0"

lemma scrub_fuel_ge: "s \<in> set (json_strings v) \<Longrightarrow> length s \<le> scrub_fuel v"
proof -
  have "s \<in> set ss \<Longrightarrow> length s \<le> foldr (\<lambda>s n. max (length s) n) ss 0" for ss
    by (induction ss) auto
  then show "s \<in> set (json_strings v) \<Longrightarrow> length s \<le> scrub_fuel v" by (simp add: scrub_fuel_def)
qed

text \<open>
  C36. Scrubbing an answer ends. However deeply JSON texts are nested in the strings of a tool result,
  the scrubber returns: opening as many levels as the longest string has bytes is always enough, and
  allowing more changes nothing.
\<close>

theorem scrub_terminates:
  assumes "nested_shorter x" and "scrub_fuel v \<le> n"
  shows "\<exists>w. scrub_json_strings x to_str n v = Some w \<and> scrub_json_strings x to_str (scrub_fuel v) v = Some w"
proof -
  have "scrub_json_strings x to_str n v = scrub_json_strings x to_str (scrub_fuel v) v"
    unfolding scrub_json_strings_def
  proof (rule scrub_cong(1))
    fix s assume "s \<in> set (json_strings v)"
    from scrub_fuel_ge [OF this] assms(2) scrub_leaf_fuel [OF assms(1), of s]
    show "scrub_string_leaf x to_str n s = scrub_string_leaf x to_str (scrub_fuel v) s" by (metis order_trans)
  qed
  moreover have "scrub_json_strings x to_str (scrub_fuel v) v \<noteq> None"
    unfolding scrub_json_strings_def
    by (rule scrub_total(1)) (use scrub_leaf_fuel [OF assms(1)] scrub_fuel_ge in blast)
  ultimately show ?thesis by auto
qed

text \<open>A parser that knows one text.\<close>

definition witness_ax :: ledger_externs where
  "witness_ax = witness_lx\<lparr>lx_json_from_str :=
     \<lambda>s. if s = [CHR 0x5B, CHR 0x22, CHR ''a'', CHR 0x22, CHR 0x5D] then Some (JArray [JString ''a'']) else None\<rparr>"

theorem scrub_terminates_witness:
  "\<exists>w. scrub_json_strings witness_ax (\<lambda>_. None) 9
     (JString [CHR 0x5B, CHR 0x22, CHR ''a'', CHR 0x22, CHR 0x5D]) = Some w"
proof -
  have "nested_shorter witness_ax"
    by (auto simp: nested_shorter_def witness_ax_def split: if_splits)
  then show ?thesis using scrub_terminates [of witness_ax
      "JString [CHR 0x5B, CHR 0x22, CHR ''a'', CHR 0x22, CHR 0x5D]" 9 "\<lambda>_. None"]
    by (auto simp: scrub_fuel_def)
qed

end
