(* ===== verification/Hub.thy ===== *)
theory Hub
  imports Aliases Registry
begin

text \<open>
  The hub (crate \<open>vigil-mcp\<close>, \<open>hub.rs\<close>): the MCP server an agent talks to. It puts the upstreams'
  tools together, asks the firewall about each call, waits for approvals, puts secrets in for the
  upstream and takes them out of its answer, and writes the audit trail.

  Every fallible step on the database has its own \<open>call_env\<close>, numbered in program order by
  \<open>he_at\<close>; \<open>he_reply\<close> is what an upstream answers. \<open>hub_sent\<close> records, for the statements below, what
  was sent to which upstream, and \<open>hub_stderr\<close> what was printed. The crate is modelled as it is built
  by default, without the feature \<open>ort\<close>: there is no injection classifier, and the injection audit runs
  in line. Requests run one after the other; the wait for an approval is the point at which others
  change the database, and \<open>he_after_wait\<close> is the database when it ends.
\<close>

section \<open>State\<close>

datatype hub_error =
    HE_Audit audit_error
  | HE_Firewall firewall_error
  | HE_Namespace namespace_error
  | HE_Upstream upstream_error
  | HE_Json
  | HE_LockPoisoned
  | HE_CommandDrift string string string
  | HE_ResolvedProgramDrift string string string
  | HE_StdioSpawn string
  | HE_Invalid string

record hub_config =
  hc_approval_wait_secs :: nat
  hc_upstream_list_timeout_secs :: nat
  hc_upstream_call_timeout_secs :: nat
  hc_outbox_enabled :: bool
  hc_auto_approve_first_seen_tools :: bool
  hc_redact_tool_results :: bool
  hc_monitor_mode :: bool

definition hub_config_default :: hub_config where
  "hub_config_default =
     \<lparr>hc_approval_wait_secs = 300, hc_upstream_list_timeout_secs = 10, hc_upstream_call_timeout_secs = 30,
      hc_outbox_enabled = True, hc_auto_approve_first_seen_tools = False, hc_redact_tool_results = False,
      hc_monitor_mode = False\<rparr>"

record hub =
  hub_db :: registry_db
  hub_firewall :: firewall
  hub_scan_persist_failures :: u64
  hub_router :: tool_router
  hub_upstreams :: "string list"
  hub_oauth_scopes :: "(string \<times> string list) list"
  hub_cfg :: hub_config
  hub_session_id :: "string option"
  hub_secret_aliases :: secret_alias_map
  hub_leak_detected_count :: u64
  hub_tools_list_notices :: "(string \<times> string) list"
  hub_stderr :: "string list"
  hub_sent :: "(string \<times> string \<times> json option) list"

definition hub_new :: "registry_db \<Rightarrow> firewall \<Rightarrow> hub_config \<Rightarrow> secret_alias_map \<Rightarrow> hub" where
  "hub_new db fw config secret_aliases =
     \<lparr>hub_db = db, hub_firewall = fw, hub_scan_persist_failures = 0, hub_router = router_default,
      hub_upstreams = [], hub_oauth_scopes = [], hub_cfg = config, hub_session_id = None,
      hub_secret_aliases = secret_aliases, hub_leak_detected_count = 0, hub_tools_list_notices = [],
      hub_stderr = [], hub_sent = []\<rparr>"

record hub_externs =
  hx_ledger :: ledger_externs
  hx_effects :: externs
  hx_codec :: strs_codec
  hx_to_string :: "json \<Rightarrow> string option"
  hx_version :: string
  hx_resolve_program :: "string \<Rightarrow> string + string"

abbreviation hx_redact :: "hub_externs \<Rightarrow> redact_externs" where
  "hx_redact x \<equiv> lx_redact (hx_ledger x)"

record hub_env =
  he_router_poisoned :: bool
  he_session_poisoned :: bool
  he_upstreams_poisoned :: bool
  he_scopes_poisoned :: bool
  he_attach_poisoned :: bool
  he_notices_poisoned :: bool
  he_at :: "nat \<Rightarrow> call_env"
  he_item :: "nat \<Rightarrow> nat \<Rightarrow> nat \<Rightarrow> call_env"
  he_fw :: firewall_env
  he_tie :: nat
  he_invocation_id :: string
  he_decision_id :: string
  he_reply :: "string \<Rightarrow> string \<Rightarrow> json option \<Rightarrow> upstream_error + json"
  he_wait_entry :: call_env
  he_wait_slices :: "registry_db \<Rightarrow> (call_env \<times> registry_db) list"
  he_wait_final :: "registry_db \<Rightarrow> call_env \<times> registry_db"
  he_after_wait :: "registry_db \<Rightarrow> registry_db"

text \<open>An append whose outcome the code discards (\<open>let _ = ...\<close>).\<close>

definition log_hub ::
  "ledger_externs \<Rightarrow> call_env \<Rightarrow> string \<Rightarrow> string \<Rightarrow> json \<Rightarrow> string \<Rightarrow> 'z ledger_scheme \<Rightarrow> 'z ledger_scheme" where
  "log_hub x env sid ty body fts l = snd (append_event x env sid ty body (Some fts) l)"

definition EVENT_RAW_SECRET_ATTEMPT_DETECTED :: string where
  "EVENT_RAW_SECRET_ATTEMPT_DETECTED = ''raw_secret_attempt_detected''"

definition EVENT_SECRET_LEAK_DETECTED :: string where
  "EVENT_SECRET_LEAK_DETECTED = ''secret.leak_detected''"

definition EVENT_SECRET_ALIAS_UNRESOLVED :: string where
  "EVENT_SECRET_ALIAS_UNRESOLVED = ''secret.alias_unresolved''"

definition INJECTION_CLASSIFIER_RISK_DELTA :: int where
  "INJECTION_CLASSIFIER_RISK_DELTA = 8"

definition leak_detected_count :: "hub \<Rightarrow> u64" where
  "leak_detected_count h = hub_leak_detected_count h"

definition approval_wait :: "hub \<Rightarrow> nat" where
  "approval_wait h = hc_approval_wait_secs (hub_cfg h)"

definition note_tools_list :: "hub_env \<Rightarrow> string \<Rightarrow> string \<Rightarrow> hub \<Rightarrow> hub" where
  "note_tools_list env server_id msg h =
     (if he_notices_poisoned env then h
      else
        let prev = (case map_of (hub_tools_list_notices h) server_id of None \<Rightarrow> [] | Some s \<Rightarrow> s) in
        if prev = msg then h
        else h\<lparr>hub_stderr := hub_stderr h @
                 (if msg = [] then [] else [''[vigil-hub] upstream '' @ quoted server_id @ '': '' @ msg]),
               hub_tools_list_notices := AList.update server_id msg (hub_tools_list_notices h)\<rparr>)"

section \<open>Approvals\<close>

datatype approval_action = AA_Approve | AA_Deny | AA_Cancel

record resolve_approval_req =
  rar_approval_id :: string
  rar_action :: approval_action
  rar_scope :: "approval_scope option"
  rar_resolved_by :: string
  rar_reason :: "string option"

record approval_resolution_dto =
  ard_approval_id :: string
  ard_status :: approval_status
  ard_scope :: "approval_scope option"
  ard_resolved_by :: "string option"

definition resolution_dto :: "approval_resolution \<Rightarrow> approval_resolution_dto" where
  "resolution_dto r =
     \<lparr>ard_approval_id = res_approval_id r, ard_status = res_status r, ard_scope = res_scope r,
      ard_resolved_by = res_resolved_by r\<rparr>"

definition resolve_approval ::
  "hub_externs \<Rightarrow> hub_env \<Rightarrow> resolve_approval_req \<Rightarrow> hub \<Rightarrow> (hub_error + approval_resolution_dto) \<times> hub" where
  "resolve_approval x env req h =
     (let finish = (\<lambda>(res, db). (map_sum HE_Audit resolution_dto res, h\<lparr>hub_db := db\<rparr>)) in
      case rar_action req of
        AA_Approve \<Rightarrow>
          (case rar_scope req of
             None \<Rightarrow> (Inl (HE_Invalid ''approve action requires scope (Once / ThisSession)''), h)
           | Some scope \<Rightarrow>
               finish (approve (hx_ledger x) (he_at env 0) (he_at env 1) (rar_approval_id req) scope
                         (Some (rar_resolved_by req)) (hub_db h)))
      | AA_Deny \<Rightarrow>
          finish (deny (hx_ledger x) (he_at env 0) (he_at env 1) (he_at env 2) (rar_approval_id req)
                    (rar_reason req) (Some (rar_resolved_by req)) (hub_db h))
      | AA_Cancel \<Rightarrow>
          finish (cancel (hx_ledger x) (he_at env 0) (he_at env 1) (rar_approval_id req)
                    (Some (rar_resolved_by req)) (hub_db h)))"

definition current_session_id :: "hub_env \<Rightarrow> hub \<Rightarrow> hub_error + string" where
  "current_session_id env h =
     (if he_session_poisoned env then Inl HE_LockPoisoned
      else Inr (case hub_session_id h of None \<Rightarrow> ''system'' | Some s \<Rightarrow> s))"

section \<open>Injection audit\<close>

datatype injection_job_kind =
    IJ_Result string string string
  | IJ_Descriptor string string

record injection_job =
  ij_session_id :: string
  ij_text :: string
  ij_kind :: injection_job_kind

text \<open>\<open>deberta\<close> is the classifier's verdict against the threshold and its rounded score.\<close>

definition finish_injection_audit ::
  "ledger_externs \<Rightarrow> call_env \<Rightarrow> call_env \<Rightarrow> injection_job \<Rightarrow> (bool \<times> string) option \<Rightarrow> 'z ledger_scheme
   \<Rightarrow> 'z ledger_scheme" where
  "finish_injection_audit x env env2 job deberta l =
     (let scan = (case ij_kind job of
                    IJ_Result _ _ _ \<Rightarrow> injection_scan_prefix (ij_text job)
                  | IJ_Descriptor _ _ \<Rightarrow> ij_text job);
          heuristic_hits = length (scan_meta_instructions (lx_redact x) scan);
          deberta_hit = (case deberta of None \<Rightarrow> False | Some (hit, _) \<Rightarrow> hit)
      in
      if heuristic_hits = 0 \<and> \<not> deberta_hit then l
      else
        let risk_delta = max (if heuristic_hits > 0 then uint META_INSTRUCTION_RISK_DELTA else 0)
                             (if deberta_hit then INJECTION_CLASSIFIER_RISK_DELTA else 0);
            l1 = (if risk_delta > 0 then snd (bump_session_risk env (ij_session_id job) risk_delta l) else l);
            hits = JNumber (show_nat heuristic_hits);
            signals = [(''deberta_score'', j_opt (\<lambda>d. JNumber (snd d)) deberta), (''deberta_hit'', JBool deberta_hit),
                       (''risk_delta'', JNumber (show_i64 risk_delta)), (''signal'', JString ''soft'')];
            tail = '' heuristic:'' @ show_nat heuristic_hits @ '' deberta_hit:'' @
                   (if deberta_hit then ''true'' else ''false'')
        in case ij_kind job of
             IJ_Result invocation_id server_id tool_name \<Rightarrow>
               log_hub x env2 (ij_session_id job) ''tool_result.injection_suspected''
                 (JObject ([(''invocation_id'', JString invocation_id), (''server_id'', JString server_id),
                            (''tool_name'', JString tool_name), (''heuristic_hits'', hits)] @ signals @
                           [(''result_sha256_prefix'', JString (sha256_hex_prefix x scan))]))
                 (''result_injection_suspected server:'' @ server_id @ '' tool:'' @ tool_name @ tail) l1
           | IJ_Descriptor server_id tool_name \<Rightarrow>
               log_hub x env2 (ij_session_id job) ''tool_descriptor.meta_instruction''
                 (JObject ([(''server_id'', JString server_id), (''tool_name'', JString tool_name),
                            (''match_count'', hits)] @ signals @
                           [(''corpus_sha256_prefix'', JString (sha256_hex_prefix x scan))]))
                 (''descriptor_meta_instruction server:'' @ server_id @ '' tool:'' @ tool_name @ tail) l1)"

definition audit_result_injection ::
  "hub_externs \<Rightarrow> hub_env \<Rightarrow> tool_invocation \<Rightarrow> string \<Rightarrow> hub \<Rightarrow> hub" where
  "audit_result_injection x env call result_text h =
     h\<lparr>hub_db := finish_injection_audit (hx_ledger x) (he_at env 30) (he_at env 31)
        \<lparr>ij_session_id = ti_session_id call, ij_text = result_text,
         ij_kind = IJ_Result (ti_invocation_id call) (ti_server_id call) (ti_tool_name call)\<rparr> None (hub_db h)\<rparr>"

definition audit_descriptor_meta_instructions ::
  "hub_externs \<Rightarrow> hub_env \<Rightarrow> call_env \<Rightarrow> call_env \<Rightarrow> string \<Rightarrow> string \<Rightarrow> string option \<Rightarrow> json \<Rightarrow> hub \<Rightarrow> hub" where
  "audit_descriptor_meta_instructions x env e1 e2 server_id tool_name description schema h =
     (let corpus = (case description of None \<Rightarrow> [] | Some d \<Rightarrow> d @ [newline]) @ collect_schema_descriptions schema in
      if corpus = [] then h
      else
        let session_id = (case current_session_id env h of Inl _ \<Rightarrow> ''system'' | Inr s \<Rightarrow> s) in
        h\<lparr>hub_db := finish_injection_audit (hx_ledger x) e1 e2
            \<lparr>ij_session_id = session_id, ij_text = corpus, ij_kind = IJ_Descriptor server_id tool_name\<rparr>
            None (hub_db h)\<rparr>)"

section \<open>Attaching upstreams\<close>

definition check_upstream_command_drift ::
  "hub_externs \<Rightarrow> hub_env \<Rightarrow> string \<Rightarrow> string list \<Rightarrow> hub \<Rightarrow> (hub_error + unit) \<times> hub" where
  "check_upstream_command_drift x env server_id argv h =
     (case compute_argv_hash (hx_ledger x) argv of
        None \<Rightarrow> (Inl HE_Json, h)
      | Some new_hash \<Rightarrow>
          (case check_server_command_drift (hx_ledger x) (hx_codec x) (he_at env 0) server_id argv new_hash (hub_db h) of
             (Inl e, db) \<Rightarrow> (Inl (HE_Audit e), h\<lparr>hub_db := db\<rparr>)
           | (Inr None, db) \<Rightarrow> (Inr (), h\<lparr>hub_db := db\<rparr>)
           | (Inr (Some d), db) \<Rightarrow>
               (case current_session_id env h of
                  Inl e \<Rightarrow> (Inl e, h\<lparr>hub_db := db\<rparr>)
                | Inr sid \<Rightarrow>
                    (Inl (HE_CommandDrift server_id (cd_old d) (cd_new d)),
                     h\<lparr>hub_db := log_hub (hx_ledger x) (he_at env 1) sid ''server.command_drifted''
                          (JObject [(''server_id'', JString server_id), (''old_hash'', JString (cd_old d)),
                                    (''new_hash'', JString (cd_new d))])
                          (''command_drift server:'' @ server_id) db\<rparr>))))"

definition attach_upstream ::
  "hub_externs \<Rightarrow> hub_env \<Rightarrow> string \<Rightarrow> string list \<Rightarrow> hub \<Rightarrow> (hub_error + unit) \<times> hub" where
  "attach_upstream x env server_id argv h =
     (case validate_server_id (hx_redact x) server_id of
        Inl e \<Rightarrow> (Inl (HE_Namespace e), h)
      | Inr _ \<Rightarrow>
          (case check_upstream_command_drift x env server_id argv h of
             (Inl e, h1) \<Rightarrow> (Inl e, h1)
           | (Inr _, h1) \<Rightarrow>
               if he_upstreams_poisoned env then (Inl HE_LockPoisoned, h1)
               else if server_id \<in> set (hub_upstreams h1) then
                 (Inl (HE_Namespace (DuplicateName server_id)), h1)
               else (Inr (), h1\<lparr>hub_upstreams := server_id # hub_upstreams h1\<rparr>)))"

definition attach_upstream_with_oauth_scopes ::
  "hub_externs \<Rightarrow> hub_env \<Rightarrow> string \<Rightarrow> string list \<Rightarrow> string list \<Rightarrow> hub \<Rightarrow> (hub_error + unit) \<times> hub" where
  "attach_upstream_with_oauth_scopes x env server_id argv oauth_scopes h =
     (case attach_upstream x env server_id argv h of
        (Inl e, h1) \<Rightarrow> (Inl e, h1)
      | (Inr _, h1) \<Rightarrow>
          if he_scopes_poisoned env then (Inl HE_LockPoisoned, h1)
          else (Inr (), h1\<lparr>hub_oauth_scopes := AList.update server_id oauth_scopes (hub_oauth_scopes h1)\<rparr>))"

definition check_upstream_resolved_program_drift ::
  "hub_externs \<Rightarrow> hub_env \<Rightarrow> string \<Rightarrow> string \<Rightarrow> string \<Rightarrow> hub \<Rightarrow> (hub_error + unit) \<times> hub" where
  "check_upstream_resolved_program_drift x env server_id bare_program resolved h =
     (case check_server_resolved_program_drift (he_at env 2) server_id resolved (hub_db h) of
        (Inl e, db) \<Rightarrow> (Inl (HE_Audit e), h\<lparr>hub_db := db\<rparr>)
      | (Inr RP_Unchanged, db) \<Rightarrow> (Inr (), h\<lparr>hub_db := db\<rparr>)
      | (Inr (RP_Pinned p), db) \<Rightarrow>
          (case current_session_id env h of
             Inl e \<Rightarrow> (Inl e, h\<lparr>hub_db := db\<rparr>)
           | Inr sid \<Rightarrow>
               (Inr (),
                h\<lparr>hub_db := log_hub (hx_ledger x) (he_at env 3) sid ''server.program_pinned''
                   (JObject [(''server_id'', JString server_id), (''bare'', JString bare_program),
                             (''resolved'', JString p)])
                   (''program_pinned server:'' @ server_id) db\<rparr>))
      | (Inr (RP_Drifted d), db) \<Rightarrow>
          (case current_session_id env h of
             Inl e \<Rightarrow> (Inl e, h\<lparr>hub_db := db\<rparr>)
           | Inr sid \<Rightarrow>
               (Inl (HE_ResolvedProgramDrift server_id (rpd_old d) (rpd_new d)),
                h\<lparr>hub_db := log_hub (hx_ledger x) (he_at env 3) sid ''server.resolved_program_drifted''
                   (JObject [(''server_id'', JString server_id), (''old_resolved'', JString (rpd_old d)),
                             (''new_resolved'', JString (rpd_new d))])
                   (''resolved_program_drift server:'' @ server_id) db\<rparr>)))"

text \<open>
  \<open>spawn\<close> is the outcome of starting the process, \<open>handshake\<close> of the MCP handshake, as the text of
  the error. A started process whose upstream is not kept is dropped.
\<close>

definition spawn_attach_stdio_upstream ::
  "hub_externs \<Rightarrow> hub_env \<Rightarrow> (string \<Rightarrow> string + unit) \<Rightarrow> string + unit \<Rightarrow> string \<Rightarrow> string list \<Rightarrow> hub
   \<Rightarrow> (hub_error + unit) \<times> hub" where
  "spawn_attach_stdio_upstream x env spawn handshake server_id argv h =
     (case validate_server_id (hx_redact x) server_id of
        Inl e \<Rightarrow> (Inl (HE_Namespace e), h)
      | Inr _ \<Rightarrow>
          (case argv of
             [] \<Rightarrow> (Inl (HE_Invalid ''argv is empty''), h)
           | program # _ \<Rightarrow>
               if he_attach_poisoned env \<or> he_upstreams_poisoned env then (Inl HE_LockPoisoned, h)
               else if server_id \<in> set (hub_upstreams h) then
                 (Inl (HE_Namespace (DuplicateName server_id)), h)
               else
                 (case hx_resolve_program x program of
                    Inl e \<Rightarrow> (Inl (HE_StdioSpawn e), h)
                  | Inr resolved \<Rightarrow>
                      (case check_upstream_command_drift x env server_id argv h of
                         (Inl e, h1) \<Rightarrow> (Inl e, h1)
                       | (Inr _, h1) \<Rightarrow>
                           (case check_upstream_resolved_program_drift x env server_id program resolved h1 of
                              (Inl e, h2) \<Rightarrow> (Inl e, h2)
                            | (Inr _, h2) \<Rightarrow>
                                (case spawn resolved of
                                   Inl e \<Rightarrow> (Inl (HE_StdioSpawn e), h2)
                                 | Inr _ \<Rightarrow>
                                     (Inr (),
                                      h2\<lparr>hub_stderr := hub_stderr h2 @
                                           (case handshake of
                                              Inr _ \<Rightarrow> []
                                            | Inl e \<Rightarrow>
                                                [''[vigil-hub] upstream '' @ quoted server_id @
                                                 '' MCP initialize handshake failed: '' @ scrub_text (hx_redact x) e @
                                                 '' (attached anyway; its tools will be unavailable until it initializes)'']),
                                         hub_upstreams := server_id # hub_upstreams h2\<rparr>)))))))"

section \<open>Calling an upstream\<close>

definition mark_outbox ::
  "(call_env \<Rightarrow> string \<Rightarrow> registry_db \<Rightarrow> unit audit_result \<times> registry_db) \<Rightarrow> call_env \<Rightarrow> string option \<Rightarrow> hub \<Rightarrow> hub" where
  "mark_outbox mark e outbox_id h =
     (case outbox_id of None \<Rightarrow> h | Some oid \<Rightarrow> h\<lparr>hub_db := snd (mark e oid (hub_db h))\<rparr>)"

text \<open>The events about a call carry the ids that tie them to it.\<close>

definition call_ids :: "tool_invocation \<Rightarrow> decision_record \<Rightarrow> (string \<times> json) list" where
  "call_ids call decision =
     [(''invocation_id'', JString (ti_invocation_id call)), (''server_id'', JString (ti_server_id call)),
      (''tool_name'', JString (ti_tool_name call)), (''decision_id'', JString (dr_decision_id decision))]"

definition reclaim_injected ::
  "hub_externs \<Rightarrow> hub_env \<Rightarrow> tool_invocation \<Rightarrow> decision_record \<Rightarrow> injected \<Rightarrow> json \<Rightarrow> hub \<Rightarrow> json \<times> hub" where
  "reclaim_injected x env call decision inj0 result h =
     (if inj0 = [] then (result, h)
      else
        (case redact_injected_reflection result inj0 of (result1, reverse_hits, fail_closed) \<Rightarrow>
           if reverse_hits > 0 \<or> fail_closed then
             (result1,
              h\<lparr>hub_leak_detected_count := hub_leak_detected_count h + 1,
                hub_db := log_hub (hx_ledger x) (he_at env 28) (ti_session_id call) EVENT_SECRET_LEAK_DETECTED
                  (JObject ([(''kind'', JString ''injected_secret_reflected'')] @ call_ids call decision @
                            [(''reverse_hits'', JNumber (show_nat reverse_hits)), (''fail_closed'', JBool fail_closed)]))
                  ''injected secret reflected in tool result; reverse-substituted to secret://alias'' (hub_db h)\<rparr>)
           else (result1, h)))"

definition LEAK_NOTE :: string where
  "LEAK_NOTE =
     ''[Vigil] The raw tool result was withheld: it contained credentials that could not be redacted in place.''"

text \<open>\<open>scrub_terminates\<close> shows that the number of levels given here is enough.\<close>

definition scrub_result :: "hub_externs \<Rightarrow> json \<Rightarrow> json" where
  "scrub_result x v =
     (case scrub_json_strings (hx_ledger x) (hx_to_string x) (scrub_fuel v) v of None \<Rightarrow> v | Some w \<Rightarrow> w)"

definition text_is_clean :: "hub_externs \<Rightarrow> json \<Rightarrow> bool" where
  "text_is_clean x v \<longleftrightarrow>
     (case lx_jcs (hx_ledger x) v of None \<Rightarrow> False | Some t \<Rightarrow> detect_hard_secret (hx_redact x) t = None)"

definition redact_in_band :: "hub_externs \<Rightarrow> json \<Rightarrow> json" where
  "redact_in_band x result =
     (let scrubbed = scrub_result x result in
      if text_is_clean x scrubbed then scrubbed else withheld_tool_result LEAK_NOTE)"

definition scan_tool_result ::
  "hub_externs \<Rightarrow> hub_env \<Rightarrow> tool_invocation \<Rightarrow> decision_record \<Rightarrow> json \<Rightarrow> hub \<Rightarrow> json \<times> hub" where
  "scan_tool_result x env call decision result h =
     (case lx_jcs (hx_ledger x) result of
        None \<Rightarrow> (result, h)
      | Some result_text \<Rightarrow>
          (case (case detect_hard_secret (hx_redact x) result_text of
                   None \<Rightarrow> (result, h)
                 | Some rule' \<Rightarrow>
                     let event_payload = JObject ([(''rule'', JString rule')] @ call_ids call decision @
                           [(''redacted'', JBool (hc_redact_tool_results (hub_cfg h)))]);
                         (redacted_payload, redacted_summary) = redact (hx_redact x) event_payload
                     in
                     (if hc_redact_tool_results (hub_cfg h) then redact_in_band x result else result,
                      h\<lparr>hub_leak_detected_count := hub_leak_detected_count h + 1,
                        hub_db := log_hub (hx_ledger x) (he_at env 29) (ti_session_id call)
                          EVENT_SECRET_LEAK_DETECTED redacted_payload redacted_summary (hub_db h)\<rparr>)) of
             (result1, h1) \<Rightarrow> (result1, audit_result_injection x env call result_text h1)))"

definition finish_call ::
  "hub_externs \<Rightarrow> hub_env \<Rightarrow> json_rpc_request \<Rightarrow> tool_invocation \<Rightarrow> tool_route \<Rightarrow> string option \<Rightarrow> decision_record
   \<Rightarrow> injected \<Rightarrow> decided_span \<Rightarrow> json \<Rightarrow> hub \<Rightarrow> (hub_error + json_rpc_response option) \<times> hub" where
  "finish_call x env req call route outbox_id decision inj0 span result h =
     (case reclaim_injected x env call decision inj0 result h of (result1, h1) \<Rightarrow>
      case scan_tool_result x env call decision result1 h1 of (result2, h2) \<Rightarrow>
      case executed (hx_ledger x) (he_at env 24) (he_at env 25) span
             (''tool '' @ rt_upstream_tool_name route @ '' returned '' @
              show_nat (length (x_json_to_string (hx_effects x) result2)) @ '' bytes'') (hub_db h2) of
        (Inl e, db) \<Rightarrow> (Inl (HE_Audit e), h2\<lparr>hub_db := db\<rparr>)
      | (Inr _, db) \<Rightarrow>
          (case outbox_id of
             None \<Rightarrow> (Inr (Some (req_success req result2)), h2\<lparr>hub_db := db\<rparr>)
           | Some oid \<Rightarrow>
               (case mark_outbox_executed (he_at env 26) oid db of
                  (Inl e, db1) \<Rightarrow> (Inl (HE_Audit e), h2\<lparr>hub_db := db1\<rparr>)
                | (Inr _, db1) \<Rightarrow> (Inr (Some (req_success req result2)), h2\<lparr>hub_db := db1\<rparr>))))"

definition fail_call ::
  "hub_externs \<Rightarrow> hub_env \<Rightarrow> json_rpc_request \<Rightarrow> string option \<Rightarrow> decided_span \<Rightarrow> upstream_error \<Rightarrow> hub
   \<Rightarrow> (hub_error + json_rpc_response option) \<times> hub" where
  "fail_call x env req outbox_id span e h =
     (let reason = upstream_error_display e in
      case execute_failed (hx_ledger x) (he_at env 24) (he_at env 25) span reason (hub_db h) of
        (Inl err, db) \<Rightarrow> (Inl (HE_Audit err), h\<lparr>hub_db := db\<rparr>)
      | (Inr _, db) \<Rightarrow>
          (Inr (Some (req_error req VIGIL_UPSTREAM_UNAVAILABLE (''upstream failed: '' @ reason) None)),
           mark_outbox mark_outbox_failed (he_at env 26) outbox_id (h\<lparr>hub_db := db\<rparr>)))"

definition upstream_params :: "tool_route \<Rightarrow> json \<Rightarrow> json" where
  "upstream_params route detok_args =
     JObject [(''name'', JString (rt_upstream_tool_name route)), (''arguments'', detok_args)]"

definition send_upstream :: "string \<Rightarrow> string \<Rightarrow> json option \<Rightarrow> hub \<Rightarrow> hub" where
  "send_upstream server_id method params h = h\<lparr>hub_sent := hub_sent h @ [(server_id, method, params)]\<rparr>"

definition invoke_upstream ::
  "hub_externs \<Rightarrow> hub_env \<Rightarrow> json_rpc_request \<Rightarrow> tool_invocation \<Rightarrow> tool_route \<Rightarrow> string option \<Rightarrow> decision_record
   \<Rightarrow> hub \<Rightarrow> (hub_error + json_rpc_response option) \<times> hub" where
  "invoke_upstream x env req call route outbox_id decision h =
     (if he_upstreams_poisoned env then (Inl HE_LockPoisoned, h)
      else if rt_server_id route \<notin> set (hub_upstreams h) then
        (Inr (Some (req_error req VIGIL_UPSTREAM_UNAVAILABLE ''upstream not attached'' None)),
         mark_outbox mark_outbox_failed (he_at env 20) outbox_id h)
      else
        (case detokenize_alias_refs (hx_redact x) (hub_secret_aliases h) (rt_server_id route) (ti_args call) [] of
           Inl alias_err \<Rightarrow>
             (Inr (Some (req_error req VIGIL_DENIED ''secret:// alias resolution failed at tool boundary''
                (Some (JObject [(''reason'', JString (alias_reason (hx_ledger x) alias_err))])))),
              mark_outbox mark_outbox_failed (he_at env 20) outbox_id h)
         | Inr (detok_args, inj0) \<Rightarrow>
             (case ledger_tool_call_span (hx_ledger x) (he_at env 21) (ti_invocation_id call)
                     (ti_session_id call) (hub_db h) of
                (Inl e, db1) \<Rightarrow> (Inl (HE_Audit e), h\<lparr>hub_db := db1\<rparr>)
              | (Inr span, db1) \<Rightarrow>
                  (case decision_recorded (hx_ledger x) (he_at env 22) (he_at env 23) span decision db1 of
                     (Inl e, db2) \<Rightarrow> (Inl (HE_Audit e), h\<lparr>hub_db := db2\<rparr>)
                   | (Inr span', db2) \<Rightarrow>
                       let params = upstream_params route detok_args;
                           h3 = send_upstream (rt_server_id route) ''tools/call'' (Some params) (h\<lparr>hub_db := db2\<rparr>)
                       in
                       (case he_reply env (rt_server_id route) ''tools/call'' (Some params) of
                          Inl e \<Rightarrow> fail_call x env req outbox_id span' e h3
                        | Inr result \<Rightarrow> finish_call x env req call route outbox_id decision inj0 span' result h3)))))"

section \<open>The tool call\<close>

definition hub_decision ::
  "hub_env \<Rightarrow> tool_invocation \<Rightarrow> decision_kind \<Rightarrow> u8 \<Rightarrow> string \<Rightarrow> string \<Rightarrow> decision_record" where
  "hub_decision env call kind risk reason policy_id =
     \<lparr>dr_decision_id = he_decision_id env, dr_invocation_id = ti_invocation_id call, dr_decision = kind,
      dr_risk_score = risk, dr_reasons = [reason], dr_policy_ids = [policy_id], dr_created_at = 0\<rparr>"

definition raw_secret_reason :: "string \<Rightarrow> bool \<Rightarrow> string" where
  "raw_secret_reason rule' alias_shadowed =
     (if alias_shadowed then
        ''secret:// alias inside a KEY=value assignment (rule='' @ rule' @
        ''); aliases are not detokenized in assignment shape '' @ em_dash @ '' move it to a non-assignment position''
      else ''raw secret detected in args (rule='' @ rule' @ ''); use secret:// alias'')"

definition raw_secret_message :: "bool \<Rightarrow> string" where
  "raw_secret_message alias_shadowed =
     (if alias_shadowed then
        ''secret:// alias cannot be used inside a KEY=value assignment; place the alias in a non-assignment position '' @
        em_dash @ '' a header, query parameter, or standalone JSON value''
      else ''raw secret detected in tool arguments; use secret:// alias'')"

text \<open>A refusal by the hub itself: the decision record and the event, neither of which can stop it.\<close>

definition record_refusal ::
  "hub_externs \<Rightarrow> hub_env \<Rightarrow> tool_invocation \<Rightarrow> tool_route \<Rightarrow> decision_record \<Rightarrow> string \<Rightarrow> string \<times> json \<Rightarrow> hub \<Rightarrow> hub" where
  "record_refusal x env call route dec event_type cause h =
     (let db1 = snd (record_decision (hx_ledger x) (he_at env 10) (ti_session_id call) dec effect_vector_default (hub_db h));
          event_payload = JObject [cause, (''decision_id'', JString (dr_decision_id dec)),
            (''invocation_id'', JString (ti_invocation_id call)), (''server_id'', JString (rt_server_id route)),
            (''tool_name'', JString (rt_upstream_tool_name route))];
          (redacted_payload, redacted_summary) = redact (hx_redact x) event_payload
      in h\<lparr>hub_db := log_hub (hx_ledger x) (he_at env 11) (ti_session_id call) event_type redacted_payload
              redacted_summary db1\<rparr>)"

definition deny_raw_secret ::
  "hub_externs \<Rightarrow> hub_env \<Rightarrow> json_rpc_request \<Rightarrow> tool_invocation \<Rightarrow> tool_route \<Rightarrow> string \<Rightarrow> bool \<Rightarrow> hub
   \<Rightarrow> (hub_error + json_rpc_response option) \<times> hub" where
  "deny_raw_secret x env req call route rule' alias_shadowed h =
     (let dec = hub_decision env call DK_Deny 100 (raw_secret_reason rule' alias_shadowed) ''hub-hard-secret-gate'' in
      (Inr (Some (req_error req VIGIL_DENIED (raw_secret_message alias_shadowed)
         (Some (JObject [(''rule'', JString rule'), (''decision_id'', JString (dr_decision_id dec))])))),
       record_refusal x env call route dec EVENT_RAW_SECRET_ATTEMPT_DETECTED (''rule'', JString rule') h))"

definition deny_alias ::
  "hub_externs \<Rightarrow> hub_env \<Rightarrow> json_rpc_request \<Rightarrow> tool_invocation \<Rightarrow> tool_route \<Rightarrow> alias_resolve_error \<Rightarrow> hub
   \<Rightarrow> (hub_error + json_rpc_response option) \<times> hub" where
  "deny_alias x env req call route alias_err h =
     (let reason = alias_reason (hx_ledger x) alias_err;
          dec = hub_decision env call DK_Deny 100 reason ''hub-secret-alias-gate'' in
      (Inr (Some (req_error req VIGIL_DENIED ''unresolvable secret:// alias in tool arguments''
         (Some (JObject [(''decision_id'', JString (dr_decision_id dec)), (''reason'', JString reason)])))),
       record_refusal x env call route dec EVENT_SECRET_ALIAS_UNRESOLVED (''reason'', JString reason) h))"

text \<open>An allow decision of the hub itself; here a record that cannot be written stops the call.\<close>

definition allow_recorded ::
  "hub_externs \<Rightarrow> hub_env \<Rightarrow> json_rpc_request \<Rightarrow> tool_invocation \<Rightarrow> tool_route \<Rightarrow> decision_record \<Rightarrow> hub
   \<Rightarrow> (hub_error + json_rpc_response option) \<times> hub" where
  "allow_recorded x env req call route dec h =
     (case record_decision (hx_ledger x) (he_at env 10) (ti_session_id call) dec effect_vector_default (hub_db h) of
        (Inl e, db) \<Rightarrow> (Inl (HE_Audit e), h\<lparr>hub_db := db\<rparr>)
      | (Inr _, db) \<Rightarrow> invoke_upstream x env req call route None dec (h\<lparr>hub_db := db\<rparr>))"

definition VIGIL_DENY_GUIDANCE :: string where
  "VIGIL_DENY_GUIDANCE =
     ''Denied by Vigil security policy: a FINAL governance decision, not a retryable error. Retrying, switching tools or paths, or splitting the request will be denied the same way. Tell the user what was blocked and why; if they want to proceed, ask them to approve it in Vigil.''"

definition deny_outcome :: "json_rpc_request \<Rightarrow> decision_record \<Rightarrow> json_rpc_response" where
  "deny_outcome req decision =
     req_error req VIGIL_DENIED VIGIL_DENY_GUIDANCE
       (Some (JObject [(''decision_id'', JString (dr_decision_id decision)),
                       (''policy_ids'', j_strs (dr_policy_ids decision)),
                       (''risk_score'', JNumber (show_nat (unat (dr_risk_score decision))))]))"

definition MONITOR_FLOOR_REASON :: string where
  "MONITOR_FLOOR_REASON =
     ''monitor mode: default-deny floor downgraded to observe-allow (non-blocking; redaction + raw-secret gate still enforced)''"

definition draft_for_approval ::
  "hub_externs \<Rightarrow> hub_env \<Rightarrow> tool_invocation \<Rightarrow> tool_route \<Rightarrow> effect_vector \<Rightarrow> approval_request \<Rightarrow> hub
   \<Rightarrow> (hub_error + string option) \<times> hub" where
  "draft_for_approval x env call route effects approval h =
     (if hc_outbox_enabled (hub_cfg h) \<and> (CommSend \<in> set (ev_effects effects) \<or> NetOutbound \<in> set (ev_effects effects)) then
        (case draft_outbox (hx_ledger x) (he_at env 12) (ti_invocation_id call) (ti_session_id call) HttpPost
                (JObject [(''tool'', JString (rt_upstream_tool_name route)), (''server'', JString (rt_server_id route)),
                          (''hosts'', j_strs (ev_network_hosts effects)),
                          (''recipients_count'', JNumber (show_nat (length (ev_recipients effects))))]) (hub_db h) of
           (Inl e, db) \<Rightarrow> (Inl (HE_Audit e), h\<lparr>hub_db := db\<rparr>)
         | (Inr oi, db) \<Rightarrow>
             (case submit_outbox_for_approval (he_at env 13) (ob_outbox_id oi) (ar_approval_id approval) db of
                (Inl e, db1) \<Rightarrow> (Inl (HE_Audit e), h\<lparr>hub_db := db1\<rparr>)
              | (Inr _, db1) \<Rightarrow> (Inr (Some (ob_outbox_id oi)), h\<lparr>hub_db := db1\<rparr>)))
      else (Inr None, h))"

text \<open>With the approval granted: the message is marked, then the upstream is called.\<close>

definition approved_invoke ::
  "hub_externs \<Rightarrow> hub_env \<Rightarrow> json_rpc_request \<Rightarrow> tool_invocation \<Rightarrow> tool_route \<Rightarrow> string option \<Rightarrow> decision_record
   \<Rightarrow> hub \<Rightarrow> (hub_error + json_rpc_response option) \<times> hub" where
  "approved_invoke x env req call route outbox_id decision h =
     (case (case outbox_id of None \<Rightarrow> (Inr (), hub_db h) | Some oid \<Rightarrow> mark_outbox_approved (he_at env 16) oid (hub_db h)) of
        (Inl e, db) \<Rightarrow> (Inl (HE_Audit e), h\<lparr>hub_db := db\<rparr>)
      | (Inr _, db) \<Rightarrow> invoke_upstream x env req call route outbox_id decision (h\<lparr>hub_db := db\<rparr>))"

definition rejected :: "json_rpc_request \<Rightarrow> string \<Rightarrow> json option \<Rightarrow> json_rpc_response" where
  "rejected req message data = req_error req VIGIL_APPROVAL_REJECTED message data"

definition await_approval ::
  "hub_externs \<Rightarrow> hub_env \<Rightarrow> json_rpc_request \<Rightarrow> tool_invocation \<Rightarrow> tool_route \<Rightarrow> string option \<Rightarrow> decision_record
   \<Rightarrow> approval_request \<Rightarrow> hub \<Rightarrow> (hub_error + json_rpc_response option) \<times> hub" where
  "await_approval x env req call route outbox_id decision approval h =
     (let h1 = h\<lparr>hub_db := he_after_wait env (hub_db h)\<rparr> in
      case wait_for_resolution (ar_approval_id approval) (he_wait_entry env, hub_db h)
             (he_wait_slices env (hub_db h)) (he_wait_final env (hub_db h)) of
        Inl e \<Rightarrow> (Inl (HE_Audit e), h1)
      | Inr None \<Rightarrow>
          (Inr (Some (rejected req ''approval timed out'' None)),
           mark_outbox mark_outbox_expired (he_at env 17) outbox_id h1)
      | Inr (Some res) \<Rightarrow>
          (case res_status res of
             AS_Approved \<Rightarrow> approved_invoke x env req call route outbox_id decision h1
           | AS_Denied \<Rightarrow>
               (Inr (Some (rejected req ''approval denied''
                  (Some (JObject [(''decision_id'', JString (dr_decision_id decision))])))),
                mark_outbox mark_outbox_denied (he_at env 17) outbox_id h1)
           | AS_Expired \<Rightarrow>
               (Inr (Some (rejected req ''approval expired'' None)),
                mark_outbox mark_outbox_expired (he_at env 17) outbox_id h1)
           | _ \<Rightarrow>
               (Inr (Some (rejected req ''approval cancelled or not resolved'' None)),
                mark_outbox cancel_outbox (he_at env 17) outbox_id h1)))"

definition settle_approval ::
  "hub_externs \<Rightarrow> hub_env \<Rightarrow> json_rpc_request \<Rightarrow> tool_invocation \<Rightarrow> tool_route \<Rightarrow> decision_record \<Rightarrow> effect_vector
   \<Rightarrow> approval_request \<Rightarrow> hub \<Rightarrow> (hub_error + json_rpc_response option) \<times> hub" where
  "settle_approval x env req call route decision effects approval h =
     (case draft_for_approval x env call route effects approval h of
        (Inl e, h1) \<Rightarrow> (Inl e, h1)
      | (Inr outbox_id, h1) \<Rightarrow>
          if hc_monitor_mode (hub_cfg h1) \<and> ''approve-descriptor-drift'' \<notin> set (dr_policy_ids decision) then
            (case approve (hx_ledger x) (he_at env 14) (he_at env 15) (ar_approval_id approval) Once
                    (Some ''vigil-monitor-mode'') (hub_db h1) of
               (Inl e, db) \<Rightarrow> (Inl (HE_Audit e), h1\<lparr>hub_db := db\<rparr>)
             | (Inr _, db) \<Rightarrow> approved_invoke x env req call route outbox_id decision (h1\<lparr>hub_db := db\<rparr>))
          else await_approval x env req call route outbox_id decision approval h1)"

definition settle_outcome ::
  "hub_externs \<Rightarrow> hub_env \<Rightarrow> json_rpc_request \<Rightarrow> tool_invocation \<Rightarrow> tool_route \<Rightarrow> firewall_outcome \<Rightarrow> hub
   \<Rightarrow> (hub_error + json_rpc_response option) \<times> hub" where
  "settle_outcome x env req call route outcome h =
     (case outcome of
        Allowed decision _ \<Rightarrow> invoke_upstream x env req call route None decision h
      | Denied decision _ \<Rightarrow>
          if hc_monitor_mode (hub_cfg h) \<and> dr_policy_ids decision = [DEFAULT_DENY_POLICY_ID] then
            allow_recorded x env req call route
              (hub_decision env call DK_Allow (dr_risk_score decision) MONITOR_FLOOR_REASON ''vigil-monitor-mode'') h
          else (Inr (Some (deny_outcome req decision)), h)
      | ApproveOutcome decision effects approval \<Rightarrow>
          settle_approval x env req call route decision effects approval h)"

definition scope_context :: "string \<Rightarrow> hub \<Rightarrow> oauth_scope_context" where
  "scope_context server_id h =
     (case map_of (hub_oauth_scopes h) server_id of None \<Rightarrow> NonOauth | Some scopes \<Rightarrow> Scopes scopes)"

definition evaluate_call ::
  "hub_externs \<Rightarrow> hub_env \<Rightarrow> json_rpc_request \<Rightarrow> tool_invocation \<Rightarrow> tool_route \<Rightarrow> hub
   \<Rightarrow> (hub_error + json_rpc_response option) \<times> hub" where
  "evaluate_call x env req call route h =
     (if he_scopes_poisoned env then (Inl HE_LockPoisoned, h)
      else
        (case firewall_evaluate (hx_effects x) (hx_ledger x)
                (registry_oracle (hx_codec x) (he_at env 6) (he_at env 7) (hub_db h)) (he_fw env) (hub_firewall h)
                call (scope_context (rt_server_id route) h) (hub_scan_persist_failures h) (hub_db h) of
           (Inl e, n, db) \<Rightarrow> (Inl (HE_Firewall e), h\<lparr>hub_db := db, hub_scan_persist_failures := n\<rparr>)
         | (Inr outcome, n, db) \<Rightarrow>
             settle_outcome x env req call route outcome (h\<lparr>hub_db := db, hub_scan_persist_failures := n\<rparr>)))"

definition gated_call ::
  "hub_externs \<Rightarrow> hub_env \<Rightarrow> json_rpc_request \<Rightarrow> tool_invocation \<Rightarrow> tool_route \<Rightarrow> hub
   \<Rightarrow> (hub_error + json_rpc_response option) \<times> hub" where
  "gated_call x env req call route h =
     (case scan_args_for_raw_secrets (hx_redact x) (ti_args call) of
        RawSecret rule' alias_shadowed \<Rightarrow> deny_raw_secret x env req call route rule' alias_shadowed h
      | _ \<Rightarrow>
          (case validate_alias_refs (hx_redact x) (hub_secret_aliases h) (rt_server_id route) (ti_args call) of
             Inl alias_err \<Rightarrow> deny_alias x env req call route alias_err h
           | Inr _ \<Rightarrow>
               (case jcs_sha256 (hx_ledger x) (ti_args call) of
                  None \<Rightarrow> (Inl HE_Json, h)
                | Some args_hash \<Rightarrow>
                    (case find_session_scope_allow (he_at env 5) (he_tie env) (ti_session_id call)
                            (rt_server_id route) (rt_upstream_tool_name route) args_hash (hub_db h) of
                       Inl e \<Rightarrow> (Inl (HE_Audit e), h)
                     | Inr (Some res) \<Rightarrow>
                         allow_recorded x env req call route
                           (hub_decision env call DK_Allow 0
                              (''pre-approved by session scope (approval_id='' @ res_approval_id res @ '')'')
                              ''session-scope-allow'') h
                     | Inr None \<Rightarrow> evaluate_call x env req call route h))))"

definition invocation_of :: "hub_env \<Rightarrow> tool_route \<Rightarrow> json \<Rightarrow> hub \<Rightarrow> tool_invocation" where
  "invocation_of env route args h =
     \<lparr>ti_invocation_id = he_invocation_id env,
      ti_session_id = (case hub_session_id h of None \<Rightarrow> ''no-session'' | Some s \<Rightarrow> s),
      ti_server_id = rt_server_id route, ti_tool_name = rt_upstream_tool_name route, ti_args = args,
      ti_descriptor_hash = rt_descriptor_hash route, ti_requested_at = 0\<rparr>"

definition handle_tools_call ::
  "hub_externs \<Rightarrow> hub_env \<Rightarrow> json_rpc_request \<Rightarrow> hub \<Rightarrow> (hub_error + json_rpc_response option) \<times> hub" where
  "handle_tools_call x env req h =
     (case rq_params req of
        None \<Rightarrow> (Inr (Some (req_error req INVALID_PARAMS ''missing params'' None)), h)
      | Some params \<Rightarrow>
          (case Option.bind (json_get params ''name'') json_as_str of
             None \<Rightarrow> (Inr (Some (req_error req INVALID_PARAMS ''missing `name`'' None)), h)
           | Some public_name \<Rightarrow>
               let args = (case json_get params ''arguments'' of None \<Rightarrow> JNull | Some a \<Rightarrow> a) in
               if he_router_poisoned env then (Inl HE_LockPoisoned, h)
               else
                 (case router_resolve public_name (hub_router h) of
                    None \<Rightarrow>
                      (Inr (Some (req_error req VIGIL_UPSTREAM_UNAVAILABLE (''unknown tool: '' @ public_name) None)), h)
                  | Some route \<Rightarrow>
                      if he_session_poisoned env then (Inl HE_LockPoisoned, h)
                      else gated_call x env req (invocation_of env route args h) route h)))"

section \<open>Listing tools\<close>

text \<open>The tools and routes gathered so far, and for one server its hashes and its hidden tools.\<close>

record list_acc =
  la_tools :: "json list"
  la_router :: tool_router
  la_hashes :: "string list"
  la_pending :: nat

fun rename_tool :: "json \<Rightarrow> string \<Rightarrow> json" where
  "rename_tool (JObject kvs) public = JObject (AList.update ''name'' (JString public) kvs)"
| "rename_tool v public = v"

definition or_null :: "json option \<Rightarrow> json" where
  "or_null v = (case v of None \<Rightarrow> JNull | Some a \<Rightarrow> a)"

text \<open>After the descriptor is pinned: hidden unless approved, else routed under its public name.\<close>

definition expose_tool ::
  "hub_externs \<Rightarrow> call_env \<Rightarrow> string \<Rightarrow> string \<Rightarrow> string \<Rightarrow> json \<Rightarrow> list_acc \<Rightarrow> hub \<Rightarrow> (hub_error + list_acc) \<times> hub" where
  "expose_tool x e server_id tool_name hash t acc h =
     (case get_pinned_tool_hash e server_id tool_name (hub_db h) of
        Inl err \<Rightarrow> (Inl (HE_Audit err), h)
      | Inr None \<Rightarrow> (Inr (acc\<lparr>la_pending := la_pending acc + 1\<rparr>), h)
      | Inr (Some _) \<Rightarrow>
          (case router_register (hx_redact x) server_id tool_name hash (la_router acc) of
             (Inl err, _) \<Rightarrow> (Inl (HE_Namespace err), h)
           | (Inr public, router) \<Rightarrow>
               (Inr (acc\<lparr>la_hashes := la_hashes acc @ [hash], la_router := router,
                         la_tools := la_tools acc @ [rename_tool t public]\<rparr>), h)))"

definition first_seen_tool ::
  "hub_externs \<Rightarrow> hub_env \<Rightarrow> (nat \<Rightarrow> call_env) \<Rightarrow> string \<Rightarrow> string \<Rightarrow> string option \<Rightarrow> json \<Rightarrow> hub \<Rightarrow> (hub_error + unit) \<times> hub" where
  "first_seen_tool x env es server_id tool_name description schema h =
     (let h1 = audit_descriptor_meta_instructions x env (es 1) (es 2) server_id tool_name description schema h in
      if hc_auto_approve_first_seen_tools (hub_cfg h1) then
        (case approve_tool_descriptor (hx_ledger x) (es 3) (es 4) server_id tool_name (hub_db h1) of
           (res, db) \<Rightarrow> (map_sum HE_Audit id res, h1\<lparr>hub_db := db\<rparr>))
      else (Inr (), h1))"

definition list_one_tool ::
  "hub_externs \<Rightarrow> hub_env \<Rightarrow> (nat \<Rightarrow> call_env) \<Rightarrow> string \<Rightarrow> json \<Rightarrow> list_acc \<Rightarrow> hub \<Rightarrow> (hub_error + list_acc) \<times> hub" where
  "list_one_tool x env es server_id t acc h =
     (case Option.bind (json_get t ''name'') json_as_str of
        None \<Rightarrow> (Inr acc, h)
      | Some tool_name \<Rightarrow>
          let schema = or_null (json_get t ''inputSchema'');
              description = Option.bind (json_get t ''description'') json_as_str;
              annotations = or_null (json_get t ''annotations'')
          in
          (case descriptor_hash (hx_ledger x) server_id tool_name schema description annotations of
             None \<Rightarrow> (Inl HE_Json, h)
           | Some hash \<Rightarrow>
               (case pin_tool_descriptor (es 0) server_id tool_name hash (hub_db h) of
                  (Inl e, db) \<Rightarrow> (Inl (HE_Audit e), h\<lparr>hub_db := db\<rparr>)
                | (Inr PO_FirstSeen, db) \<Rightarrow>
                    (case first_seen_tool x env es server_id tool_name description schema (h\<lparr>hub_db := db\<rparr>) of
                       (Inl e, h1) \<Rightarrow> (Inl e, h1)
                     | (Inr _, h1) \<Rightarrow> expose_tool x (es 5) server_id tool_name hash t acc h1)
                | (Inr PO_Unchanged, db) \<Rightarrow> expose_tool x (es 5) server_id tool_name hash t acc (h\<lparr>hub_db := db\<rparr>)
                | (Inr (PO_Drifted old new), db) \<Rightarrow>
                    (case current_session_id env h of
                       Inl e \<Rightarrow> (Inl e, h\<lparr>hub_db := db\<rparr>)
                     | Inr sid \<Rightarrow>
                         (Inr acc,
                          h\<lparr>hub_db := log_hub (hx_ledger x) (es 6) sid ''tool_descriptor.drifted''
                             (JObject [(''server_id'', JString server_id), (''tool_name'', JString tool_name),
                                       (''old_hash'', JString old), (''new_hash'', JString new)])
                             (''descriptor_drift server:'' @ server_id @ '' tool:'' @ tool_name) db\<rparr>)))))"

fun list_server_tools ::
  "hub_externs \<Rightarrow> hub_env \<Rightarrow> (nat \<Rightarrow> nat \<Rightarrow> call_env) \<Rightarrow> string \<Rightarrow> json list \<Rightarrow> nat \<Rightarrow> list_acc \<Rightarrow> hub
   \<Rightarrow> (hub_error + list_acc) \<times> hub" where
  "list_server_tools x env es server_id [] j acc h = (Inr acc, h)"
| "list_server_tools x env es server_id (t # ts) j acc h =
     (case list_one_tool x env (es j) server_id t acc h of
        (Inl e, h1) \<Rightarrow> (Inl e, h1)
      | (Inr acc1, h1) \<Rightarrow> list_server_tools x env es server_id ts (Suc j) acc1 h1)"

definition hidden_notice :: "nat \<Rightarrow> string" where
  "hidden_notice pending_approval =
     (if pending_approval > 0 then
        show_nat pending_approval @
        '' tool(s) discovered but hidden until approved (first-seen descriptors are untrusted by default; approve them in the Vigil desktop app, or start with --auto-approve-first-seen for development)''
      else [])"

fun json_as_array :: "json \<Rightarrow> json list option" where
  "json_as_array (JArray vs) = Some vs"
| "json_as_array _ = None"

definition list_one_server ::
  "hub_externs \<Rightarrow> hub_env \<Rightarrow> nat \<Rightarrow> string \<Rightarrow> list_acc \<Rightarrow> hub \<Rightarrow> (hub_error + list_acc) \<times> hub" where
  "list_one_server x env i server_id acc h =
     (if server_id \<notin> set (hub_upstreams h) then (Inr acc, h)
      else
        let h1 = send_upstream server_id ''tools/list'' None h in
        (case he_reply env server_id ''tools/list'' None of
           Inl e \<Rightarrow> (Inr acc, note_tools_list env server_id (''tools/list failed: '' @ upstream_error_display e) h1)
         | Inr result \<Rightarrow>
             (case Option.bind (json_get result ''tools'') json_as_array of
                None \<Rightarrow> (Inr acc, h1)
              | Some tools \<Rightarrow>
                  (case list_server_tools x env (\<lambda>j. he_item env i (Suc j)) server_id tools 0
                          (acc\<lparr>la_hashes := [], la_pending := 0\<rparr>) h1 of
                     (Inl e, h2) \<Rightarrow> (Inl e, h2)
                   | (Inr acc1, h2) \<Rightarrow>
                       let h3 = note_tools_list env server_id (hidden_notice (la_pending acc1)) h2;
                           agg = lx_hex_encode (hx_ledger x) (lx_sha256 (hx_ledger x) (concat (la_hashes acc1)))
                       in (Inr acc1,
                           h3\<lparr>hub_db := snd (set_descriptor_hash (he_item env i 0 0) server_id agg (hub_db h3))\<rparr>)))))"

fun list_servers ::
  "hub_externs \<Rightarrow> hub_env \<Rightarrow> nat \<Rightarrow> string list \<Rightarrow> list_acc \<Rightarrow> hub \<Rightarrow> (hub_error + list_acc) \<times> hub" where
  "list_servers x env i [] acc h = (Inr acc, h)"
| "list_servers x env i (s # ss) acc h =
     (case list_one_server x env i s acc h of
        (Inl e, h1) \<Rightarrow> (Inl e, h1)
      | (Inr acc1, h1) \<Rightarrow> list_servers x env (Suc i) ss acc1 h1)"

definition list_acc_new :: list_acc where
  "list_acc_new = \<lparr>la_tools = [], la_router = router_default, la_hashes = [], la_pending = 0\<rparr>"

definition handle_tools_list ::
  "hub_externs \<Rightarrow> hub_env \<Rightarrow> json_rpc_request \<Rightarrow> hub \<Rightarrow> (hub_error + json_rpc_response option) \<times> hub" where
  "handle_tools_list x env req h =
     (case list_approved_servers (hx_codec x) (he_at env 0) (hub_db h) of
        Inl e \<Rightarrow> (Inl (HE_Audit e), h)
      | Inr approved \<Rightarrow>
          if he_upstreams_poisoned env then (Inl HE_LockPoisoned, h)
          else
            (case list_servers x env 0 (map ssp_server_id approved) list_acc_new h of
               (Inl e, h1) \<Rightarrow> (Inl e, h1)
             | (Inr acc, h1) \<Rightarrow>
                 if he_router_poisoned env then (Inl HE_LockPoisoned, h1)
                 else (Inr (Some (req_success req (JObject [(''tools'', JArray (la_tools acc))]))),
                       h1\<lparr>hub_router := la_router acc\<rparr>)))"

section \<open>Requests\<close>

definition HUB_SERVER_PROTOCOL_VERSIONS :: "string list" where
  "HUB_SERVER_PROTOCOL_VERSIONS = [''2025-11-25'', ''2025-06-18'', ''2025-03-26'', ''2024-11-05'']"

definition HUB_DEFAULT_PROTOCOL_VERSION :: string where
  "HUB_DEFAULT_PROTOCOL_VERSION = ''2025-06-18''"

definition negotiate_legacy_version :: "json option \<Rightarrow> string" where
  "negotiate_legacy_version params =
     (case Option.bind (Option.bind params (\<lambda>p. json_get p ''protocolVersion'')) json_as_str of
        None \<Rightarrow> HUB_DEFAULT_PROTOCOL_VERSION
      | Some v \<Rightarrow>
          (case find (\<lambda>s. s = v) HUB_SERVER_PROTOCOL_VERSIONS of
             None \<Rightarrow> HUB_DEFAULT_PROTOCOL_VERSION
           | Some s \<Rightarrow> s))"

definition legacy_era_discover_hint :: string where
  "legacy_era_discover_hint =
     ''vigil-hub is a legacy-era MCP server: open with `initialize` (supported protocol versions: '' @
     str_join '', '' HUB_SERVER_PROTOCOL_VERSIONS @
     '').          Modern-era (2026-07-28) per-request negotiation is not implemented yet; dual-era clients          should fall back to `initialize` per the 2026-07-28 stdio backward-compatibility rules.''"

definition VIGIL_GOVERNANCE_PREAMBLE :: string where
  "VIGIL_GOVERNANCE_PREAMBLE =
     ''Vigil is a collaborative local security control plane that governs and audits tool calls on the user'' @
     [CHR 0x27] @
     ''s behalf. A denial is not a broken tool or an adversary: a Vigil denial or approval request is a FINAL policy decision, not a transient error. Do not retry, switch tools, change paths, or split the request to bypass it; equivalent attempts are denied too. Instead, stop, tell the user what was blocked and why, and ask them to approve it in Vigil to proceed. Vigil shares your goal: the user'' @
     [CHR 0x27] @ ''s safety.''"

definition handle_initialize ::
  "hub_externs \<Rightarrow> hub_env \<Rightarrow> json_rpc_request \<Rightarrow> hub \<Rightarrow> (hub_error + json_rpc_response option) \<times> hub" where
  "handle_initialize x env req h =
     (case start_session (he_at env 0) ''mcp_hub'' (Some ''vigil-hub'') (hub_db h) of
        (Inl e, db) \<Rightarrow> (Inl (HE_Audit e), h\<lparr>hub_db := db\<rparr>)
      | (Inr sid, db) \<Rightarrow>
          if he_session_poisoned env then (Inl HE_LockPoisoned, h\<lparr>hub_db := db\<rparr>)
          else
            (Inr (Some (req_success req (JObject
               [(''protocolVersion'', JString (negotiate_legacy_version (rq_params req))),
                (''capabilities'', JObject [(''tools'', JObject [(''listChanged'', JBool False)])]),
                (''serverInfo'', JObject [(''name'', JString ''vigil-hub''), (''version'', JString (hx_version x))]),
                (''instructions'', JString VIGIL_GOVERNANCE_PREAMBLE)]))),
             h\<lparr>hub_db := db, hub_session_id := Some sid\<rparr>))"

definition handle_request ::
  "hub_externs \<Rightarrow> hub_env \<Rightarrow> json_rpc_request \<Rightarrow> hub \<Rightarrow> (hub_error + json_rpc_response option) \<times> hub" where
  "handle_request x env req h =
     (if rq_jsonrpc req \<noteq> ''2.0'' then
        (if is_notification req then (Inr None, h)
         else (Inr (Some (req_error req INVALID_REQUEST ''expected jsonrpc=2.0'' None)), h))
      else if rq_method req = ''initialize'' then handle_initialize x env req h
      else if rq_method req = ''initialized'' \<or> rq_method req = ''notifications/initialized'' then (Inr None, h)
      else if rq_method req = ''shutdown'' then (Inr (Some (req_success req JNull)), h)
      else if rq_method req = ''ping'' then (Inr (Some (req_success req (JObject []))), h)
      else if rq_method req = ''notifications/cancelled'' then (Inr None, h)
      else if rq_method req = ''server/discover'' then
        (Inr (Some (req_error req METHOD_NOT_FOUND legacy_era_discover_hint None)), h)
      else if rq_method req = ''tools/list'' then handle_tools_list x env req h
      else if rq_method req = ''tools/call'' then handle_tools_call x env req h
      else (Inr (Some (req_error req METHOD_NOT_FOUND (''method not supported: '' @ rq_method req) None)), h))"

section \<open>What reaches an upstream\<close>

lemma mark_outbox_simps [simp]:
  "hub_sent (mark_outbox mark e oid h) = hub_sent h"
  "hub_secret_aliases (mark_outbox mark e oid h) = hub_secret_aliases h"
  by (simp_all add: mark_outbox_def split: option.splits)

lemma send_upstream_simps [simp]:
  "hub_sent (send_upstream s m p h) = hub_sent h @ [(s, m, p)]"
  "hub_secret_aliases (send_upstream s m p h) = hub_secret_aliases h"
  "hub_db (send_upstream s m p h) = hub_db h"
  "hub_cfg (send_upstream s m p h) = hub_cfg h"
  by (simp_all add: send_upstream_def)

lemma reclaim_sent [simp]: "hub_sent (snd (reclaim_injected x env call d inj0 r h)) = hub_sent h"
  by (simp add: reclaim_injected_def split: prod.splits)

lemma scan_result_sent [simp]: "hub_sent (snd (scan_tool_result x env call d r h)) = hub_sent h"
  by (simp add: scan_tool_result_def audit_result_injection_def Let_def split: option.splits prod.splits)

lemma finish_call_sent [simp]:
  "hub_sent (snd (finish_call x env req call route oid d inj0 span r h)) = hub_sent h"
proof -
  obtain r1 h1 where 1: "reclaim_injected x env call d inj0 r h = (r1, h1)" by force
  obtain r2 h2 where 2: "scan_tool_result x env call d r1 h1 = (r2, h2)" by force
  have "hub_sent h2 = hub_sent h"
    using reclaim_sent [of x env call d inj0 r h] scan_result_sent [of x env call d r1 h1] 1 2 by simp
  then show ?thesis
    by (auto simp: finish_call_def 1 2 split: prod.splits sum.splits option.splits)
qed

lemma fail_call_sent [simp]: "hub_sent (snd (fail_call x env req oid span e h)) = hub_sent h"
  by (auto simp: fail_call_def Let_def split: prod.splits sum.splits)

definition delivers :: "hub_externs \<Rightarrow> tool_invocation \<Rightarrow> tool_route \<Rightarrow> hub \<Rightarrow> hub \<Rightarrow> bool" where
  "delivers x call route h h' \<longleftrightarrow>
     (\<exists>detok_args exposed.
        detokenize_alias_refs (hx_redact x) (hub_secret_aliases h) (rt_server_id route) (ti_args call) [] =
          Inr (detok_args, exposed) \<and>
        hub_sent h' = hub_sent h @
          [(rt_server_id route, ''tools/call'', Some (upstream_params route detok_args))])"

lemma invoke_sent:
  "hub_sent (snd (invoke_upstream x env req call route oid d h)) = hub_sent h \<or>
   delivers x call route h (snd (invoke_upstream x env req call route oid d h))"
  by (auto simp: invoke_upstream_def delivers_def Let_def split: sum.splits prod.splits)

lemma delivers_db [simp]:
  "delivers x call route (h\<lparr>hub_db := db\<rparr>) h' = delivers x call route h h'"
  "delivers x call route (h\<lparr>hub_db := db, hub_scan_persist_failures := n\<rparr>) h' = delivers x call route h h'"
  by (simp_all add: delivers_def)

text \<open>A step that sends nothing, or delivers the call under a condition.\<close>

definition sends_if :: "bool \<Rightarrow> hub_externs \<Rightarrow> tool_invocation \<Rightarrow> tool_route \<Rightarrow> hub \<Rightarrow> hub \<Rightarrow> bool" where
  "sends_if P x call route h h' \<longleftrightarrow> hub_sent h' = hub_sent h \<or> P \<and> delivers x call route h h'"

lemma sends_if_db [simp]:
  "sends_if P x call route (h\<lparr>hub_db := db\<rparr>) h' = sends_if P x call route h h'"
  "sends_if P x call route (h\<lparr>hub_db := db, hub_scan_persist_failures := n\<rparr>) h' = sends_if P x call route h h'"
  by (simp_all add: sends_if_def)

lemma sends_if_none [simp]: "hub_sent h' = hub_sent h \<Longrightarrow> sends_if P x call route h h'"
  by (simp add: sends_if_def)

lemma invoke_sends: "P \<Longrightarrow> sends_if P x call route h (snd (invoke_upstream x env req call route oid d h))"
  using invoke_sent by (auto simp: sends_if_def)

lemma approved_invoke_sends:
  "P \<Longrightarrow> sends_if P x call route h (snd (approved_invoke x env req call route oid d h))"
  using invoke_sends [of P x call route "h\<lparr>hub_db := _\<rparr>"]
  by (auto simp: approved_invoke_def split: prod.splits sum.splits option.splits)

lemma allow_recorded_sends:
  "P \<Longrightarrow> sends_if P x call route h (snd (allow_recorded x env req call route d h))"
  using invoke_sends [of P x call route "h\<lparr>hub_db := _\<rparr>"]
  by (auto simp: allow_recorded_def split: prod.splits sum.splits)

text \<open>The wait of a call ended with an approval.\<close>

definition wait_approved :: "hub_env \<Rightarrow> approval_request \<Rightarrow> registry_db \<Rightarrow> bool" where
  "wait_approved env approval db \<longleftrightarrow>
     (\<exists>res. wait_for_resolution (ar_approval_id approval) (he_wait_entry env, db) (he_wait_slices env db)
              (he_wait_final env db) = Inr (Some res) \<and> res_status res = AS_Approved)"

lemma await_sends:
  "sends_if (wait_approved env approval (hub_db h)) x call route h
     (snd (await_approval x env req call route oid d approval h))"
proof (cases "wait_for_resolution (ar_approval_id approval) (he_wait_entry env, hub_db h)
    (he_wait_slices env (hub_db h)) (he_wait_final env (hub_db h))")
  case (Inr r)
  show ?thesis
  proof (cases r)
    case (Some res)
    then show ?thesis
      using approved_invoke_sends [of "wait_approved env approval (hub_db h)" x call route "h\<lparr>hub_db := _\<rparr>"]
      by (cases "res_status res") (auto simp: await_approval_def Let_def Inr wait_approved_def)
  qed (simp add: await_approval_def Inr)
qed (simp add: await_approval_def)

definition is_drift :: "decision_record \<Rightarrow> bool" where
  "is_drift d \<longleftrightarrow> ''approve-descriptor-drift'' \<in> set (dr_policy_ids d)"

lemma draft_keeps:
  "draft_for_approval x env call route effects approval h = (res, h1) \<Longrightarrow> h1 = h\<lparr>hub_db := hub_db h1\<rparr>"
  by (auto simp: draft_for_approval_def split: if_splits prod.splits sum.splits)

text \<open>What settles the question whether a call that needs an approval may run.\<close>

definition approval_settled ::
  "hub_externs \<Rightarrow> hub_env \<Rightarrow> tool_invocation \<Rightarrow> tool_route \<Rightarrow> decision_record \<Rightarrow> effect_vector \<Rightarrow> approval_request
   \<Rightarrow> hub \<Rightarrow> bool" where
  "approval_settled x env call route d effects approval h \<longleftrightarrow>
     hc_monitor_mode (hub_cfg h) \<and> \<not> is_drift d \<or>
     wait_approved env approval (hub_db (snd (draft_for_approval x env call route effects approval h)))"

lemma settle_approval_sends:
  "sends_if (approval_settled x env call route d effects approval h) x call route h
     (snd (settle_approval x env req call route d effects approval h))"
proof -
  obtain res h1 where dr: "draft_for_approval x env call route effects approval h = (res, h1)" by force
  from draft_keeps [OF dr] obtain db where h1: "h1 = h\<lparr>hub_db := db\<rparr>" by blast
  show ?thesis
  proof (cases res)
    case (Inl e)
    then show ?thesis by (simp add: settle_approval_def dr h1)
  next
    case (Inr oid)
    show ?thesis
    proof (cases "hc_monitor_mode (hub_cfg h) \<and> \<not> is_drift d")
      case True
      then have "approval_settled x env call route d effects approval h" by (simp add: approval_settled_def)
      from approved_invoke_sends [OF this, of x call route "h\<lparr>hub_db := _\<rparr>"] True show ?thesis
        by (auto simp: settle_approval_def dr h1 Inr is_drift_def split: prod.splits sum.splits)
    next
      case False
      with await_sends [of env approval h1 x call route req oid d] show ?thesis
        by (auto simp: settle_approval_def dr Inr is_drift_def h1 sends_if_def approval_settled_def)
    qed
  qed
qed

text \<open>The ways in which a call may come to be sent.\<close>

definition outcome_permits ::
  "hub_externs \<Rightarrow> hub_env \<Rightarrow> tool_invocation \<Rightarrow> tool_route \<Rightarrow> firewall_outcome \<Rightarrow> hub \<Rightarrow> bool" where
  "outcome_permits x env call route outcome h \<longleftrightarrow>
     (case outcome of
        Allowed _ _ \<Rightarrow> True
      | Denied d _ \<Rightarrow> hc_monitor_mode (hub_cfg h) \<and> dr_policy_ids d = [DEFAULT_DENY_POLICY_ID]
      | ApproveOutcome d effects approval \<Rightarrow> approval_settled x env call route d effects approval h)"

definition scope_permits :: "hub_externs \<Rightarrow> hub_env \<Rightarrow> tool_invocation \<Rightarrow> tool_route \<Rightarrow> hub \<Rightarrow> bool" where
  "scope_permits x env call route h \<longleftrightarrow>
     (\<exists>args_hash res. jcs_sha256 (hx_ledger x) (ti_args call) = Some args_hash \<and>
        find_session_scope_allow (he_at env 5) (he_tie env) (ti_session_id call) (rt_server_id route)
          (rt_upstream_tool_name route) args_hash (hub_db h) = Inr (Some res))"

abbreviation hub_evaluates ::
  "hub_externs \<Rightarrow> hub_env \<Rightarrow> tool_invocation \<Rightarrow> tool_route \<Rightarrow> hub \<Rightarrow> (firewall_error + firewall_outcome) \<times> u64 \<times> registry_db" where
  "hub_evaluates x env call route h \<equiv>
     firewall_evaluate (hx_effects x) (hx_ledger x)
       (registry_oracle (hx_codec x) (he_at env 6) (he_at env 7) (hub_db h)) (he_fw env) (hub_firewall h)
       call (scope_context (rt_server_id route) h) (hub_scan_persist_failures h) (hub_db h)"

definition firewall_permits :: "hub_externs \<Rightarrow> hub_env \<Rightarrow> tool_invocation \<Rightarrow> tool_route \<Rightarrow> hub \<Rightarrow> bool" where
  "firewall_permits x env call route h \<longleftrightarrow>
     (\<exists>outcome n db. hub_evaluates x env call route h = (Inr outcome, n, db) \<and>
        outcome_permits x env call route outcome (h\<lparr>hub_db := db, hub_scan_persist_failures := n\<rparr>))"

lemma sends_if_mono: "sends_if P x call route h h' \<Longrightarrow> (P \<Longrightarrow> Q) \<Longrightarrow> sends_if Q x call route h h'"
  by (auto simp: sends_if_def)

lemma settle_outcome_sends:
  "sends_if (outcome_permits x env call route outcome h) x call route h
     (snd (settle_outcome x env req call route outcome h))"
  using invoke_sends [of True] allow_recorded_sends [of True] settle_approval_sends
  by (cases outcome) (auto simp: settle_outcome_def outcome_permits_def sends_if_def)

lemma evaluate_call_sends:
  "sends_if (firewall_permits x env call route h) x call route h (snd (evaluate_call x env req call route h))"
proof (cases "hub_evaluates x env call route h")
  case (fields res n db)
  show ?thesis
  proof (cases res)
    case (Inl e)
    then show ?thesis by (simp add: evaluate_call_def fields)
  next
    case (Inr outcome)
    let ?h = "h\<lparr>hub_db := db, hub_scan_persist_failures := n\<rparr>"
    have "sends_if (firewall_permits x env call route h) x call route ?h (snd (settle_outcome x env req call route outcome ?h))"
      by (rule sends_if_mono [OF settle_outcome_sends]) (use fields Inr in \<open>auto simp: firewall_permits_def\<close>)
    then show ?thesis by (simp add: evaluate_call_def fields Inr)
  qed
qed

lemma record_refusal_sent [simp]: "hub_sent (record_refusal x env call route d ty c h) = hub_sent h"
  by (simp add: record_refusal_def Let_def split: prod.splits)

definition call_authorized :: "hub_externs \<Rightarrow> hub_env \<Rightarrow> tool_invocation \<Rightarrow> tool_route \<Rightarrow> hub \<Rightarrow> bool" where
  "call_authorized x env call route h \<longleftrightarrow>
     \<not> has_raw_secret (hx_redact x) (ti_args call) \<and>
     (scope_permits x env call route h \<or> firewall_permits x env call route h)"

lemma gated_call_sends:
  "sends_if (call_authorized x env call route h) x call route h (snd (gated_call x env req call route h))"
proof (cases "has_raw_secret (hx_redact x) (ti_args call)")
  case True
  with scan_args_raw [of "hx_redact x" "ti_args call"] obtain rule' s
    where "scan_args_for_raw_secrets (hx_redact x) (ti_args call) = RawSecret rule' s" by auto
  then show ?thesis by (simp add: gated_call_def deny_raw_secret_def Let_def)
next
  case False
  have ev: "sends_if (call_authorized x env call route h) x call route h (snd (evaluate_call x env req call route h))"
    by (rule sends_if_mono [OF evaluate_call_sends]) (use False in \<open>simp add: call_authorized_def\<close>)
  have "sends_if (call_authorized x env call route h) x call route h (snd (allow_recorded x env req call route d h))"
    if "scope_permits x env call route h" for d
    using False that by (intro allow_recorded_sends) (simp add: call_authorized_def)
  with False scan_args_raw [of "hx_redact x" "ti_args call"] ev show ?thesis
    by (auto simp: gated_call_def deny_alias_def Let_def scope_permits_def
        split: alias_aware_scan_result.splits sum.splits option.splits)
qed

lemma sent_call_authorized:
  assumes "handle_tools_call x env req h = (res, h')" and "hub_sent h' \<noteq> hub_sent h"
  shows "\<exists>params public_name route call detok_args exposed.
    rq_params req = Some params \<and> json_get params ''name'' = Some (JString public_name) \<and>
    router_resolve public_name (hub_router h) = Some route \<and>
    call = invocation_of env route (or_null (json_get params ''arguments'')) h \<and>
    detokenize_alias_refs (hx_redact x) (hub_secret_aliases h) (rt_server_id route) (ti_args call) [] =
      Inr (detok_args, exposed) \<and>
    hub_sent h' = hub_sent h @ [(rt_server_id route, ''tools/call'', Some (upstream_params route detok_args))] \<and>
    call_authorized x env call route h"
proof -
  obtain params public_name route where r: "rq_params req = Some params"
    "json_get params ''name'' = Some (JString public_name)"
    "router_resolve public_name (hub_router h) = Some route"
    "gated_call x env req (invocation_of env route (or_null (json_get params ''arguments'')) h) route h = (res, h')"
    using assms
    by (auto simp: handle_tools_call_def Let_def or_null_def bind_eq_Some_conv
        split: option.splits if_splits elim!: json_as_str.elims)
  let ?call = "invocation_of env route (or_null (json_get params ''arguments'')) h"
  have "call_authorized x env ?call route h \<and> delivers x ?call route h h'"
    using gated_call_sends [of x env ?call route h req] r(4) assms(2) by (auto simp: sends_if_def)
  with r show ?thesis by (auto simp: delivers_def)
qed

text \<open>
  C2. Nothing reaches an upstream unauthorized. If handling a tool call sends anything to an upstream,
  then it is one \<open>tools/call\<close> to the server the public name routes to, with the arguments of the
  request in which the alias references are resolved and no raw secret occurs; and either an unexpired
  approval for this session and these arguments exists, or the firewall allowed the call, or it asked
  and the wait for the approval ended with an approval. Only in monitor mode may the call also go
  through when no rule matched, or without the wait when the rule that asks is not the one about
  drifted descriptors.
\<close>

theorem upstream_call_was_authorized:
  assumes "handle_tools_call x env req h = (res, h')" and "hub_sent h' \<noteq> hub_sent h"
  shows "\<exists>params public_name route call detok_args exposed.
    rq_params req = Some params \<and> json_get params ''name'' = Some (JString public_name) \<and>
    router_resolve public_name (hub_router h) = Some route \<and>
    call = invocation_of env route (or_null (json_get params ''arguments'')) h \<and>
    detokenize_alias_refs (hx_redact x) (hub_secret_aliases h) (rt_server_id route) (ti_args call) [] =
      Inr (detok_args, exposed) \<and>
    hub_sent h' = hub_sent h @ [(rt_server_id route, ''tools/call'', Some (upstream_params route detok_args))] \<and>
    call_authorized x env call route h"
  using assms by (rule sent_call_authorized)

section \<open>What an answer shows\<close>

lemma value_contains_none [simp]: "\<not> value_contains_injected [] v"
proof (induction v)
  case (JArray vs)
  then show ?case by (auto simp: list_ex_iff)
next
  case (JObject kvs)
  then show ?case by (auto simp: list_ex_iff has_injected_def snds.simps)
qed (auto simp: has_injected_def)

text \<open>
  What is left of an answer: a value without any injected one, or the note that it was withheld;
  with in-band redaction either this value, when its canonical text matches no hard rule, or this
  value with the hard-rule matches scrubbed, when that leaves none, or the note.
\<close>

definition result_protected :: "hub_externs \<Rightarrow> bool \<Rightarrow> injected \<Rightarrow> json \<Rightarrow> bool" where
  "result_protected x redacting exposed r \<longleftrightarrow>
     (\<exists>base. (base = withheld_tool_result INJECTED_NOTE \<or> \<not> value_contains_injected exposed base) \<and>
       (if redacting then
          r = withheld_tool_result LEAK_NOTE \<or>
          r = base \<and> (\<forall>t. lx_jcs (hx_ledger x) r = Some t \<longrightarrow> detect_hard_secret (hx_redact x) t = None) \<or>
          r = scrub_result x base \<and> text_is_clean x r
        else r = base))"

lemma reclaim_clean:
  assumes "reclaim_injected x env call d exposed r h = (r1, h1)"
  shows "(r1 = withheld_tool_result INJECTED_NOTE \<or> \<not> value_contains_injected exposed r1) \<and> hub_cfg h1 = hub_cfg h"
proof (cases "exposed = []")
  case False
  obtain r2 n c where eq: "redact_injected_reflection r exposed = (r2, n, c)" by (cases "redact_injected_reflection r exposed")
  from reflection_clean [OF eq] assms False show ?thesis
    by (auto simp: reclaim_injected_def eq split: if_splits)
qed (use assms in \<open>auto simp: reclaim_injected_def\<close>)

lemma scan_tool_result_fst:
  "fst (scan_tool_result x env call d r h) =
     (case lx_jcs (hx_ledger x) r of
        None \<Rightarrow> r
      | Some t \<Rightarrow> if detect_hard_secret (hx_redact x) t \<noteq> None \<and> hc_redact_tool_results (hub_cfg h)
                 then redact_in_band x r else r)"
  by (auto simp: scan_tool_result_def Let_def split: option.splits prod.splits)

lemma in_band_clean:
  "redact_in_band x r = withheld_tool_result LEAK_NOTE \<or>
   redact_in_band x r = scrub_result x r \<and> text_is_clean x (redact_in_band x r)"
  by (auto simp: redact_in_band_def Let_def)

text \<open>Every result among the responses a step can give has the property.\<close>

definition result_ok :: "(json \<Rightarrow> bool) \<Rightarrow> hub_error + json_rpc_response option \<Rightarrow> bool" where
  "result_ok P res \<longleftrightarrow> (\<forall>resp r. res = Inr (Some resp) \<longrightarrow> rs_result resp = Some r \<longrightarrow> P r)"

lemma result_ok_simps [simp]:
  "result_ok P (Inl e)"
  "result_ok P (Inr (Some (req_error req code msg data)))"
  "result_ok P (Inr (Some (req_success req v))) = P v"
  "result_ok P (Inr (Some (rejected req msg data)))"
  "result_ok P (Inr (Some (deny_outcome req d)))"
  by (auto simp: result_ok_def req_error_def req_success_def rejected_def deny_outcome_def)

lemma finish_call_ok:
  "result_ok (result_protected x (hc_redact_tool_results (hub_cfg h)) exposed)
     (fst (finish_call x env req call route oid d exposed span r h))"
proof -
  obtain r1 h1 where 1: "reclaim_injected x env call d exposed r h = (r1, h1)" by force
  obtain r2 h2 where 2: "scan_tool_result x env call d r1 h1 = (r2, h2)" by force
  have r2: "r2 = (case lx_jcs (hx_ledger x) r1 of None \<Rightarrow> r1
      | Some t \<Rightarrow> if detect_hard_secret (hx_redact x) t \<noteq> None \<and> hc_redact_tool_results (hub_cfg h)
                 then redact_in_band x r1 else r1)"
    using scan_tool_result_fst [of x env call d r1 h1, unfolded conjunct2 [OF reclaim_clean [OF 1]] 2 fst_conv] .
  have "result_protected x (hc_redact_tool_results (hub_cfg h)) exposed r2"
    unfolding result_protected_def
    using conjunct1 [OF reclaim_clean [OF 1]] in_band_clean [of x r1]
    by (intro exI [of _ r1] conjI) (auto simp: r2 split: option.splits)
  then show ?thesis
    by (auto simp: finish_call_def 1 2 split: prod.splits sum.splits option.splits)
qed

definition answers_protected :: "hub_externs \<Rightarrow> tool_invocation \<Rightarrow> tool_route \<Rightarrow> hub \<Rightarrow> json \<Rightarrow> bool" where
  "answers_protected x call route h r \<longleftrightarrow>
     (\<exists>detok_args exposed.
        detokenize_alias_refs (hx_redact x) (hub_secret_aliases h) (rt_server_id route) (ti_args call) [] =
          Inr (detok_args, exposed) \<and>
        result_protected x (hc_redact_tool_results (hub_cfg h)) exposed r)"

lemma answers_protected_db [simp]:
  "answers_protected x call route (h\<lparr>hub_db := db\<rparr>) = answers_protected x call route h"
  "answers_protected x call route (h\<lparr>hub_db := db, hub_scan_persist_failures := n\<rparr>) = answers_protected x call route h"
  by (simp_all add: answers_protected_def fun_eq_iff)

lemma result_ok_mono: "result_ok P res \<Longrightarrow> (\<And>r. P r \<Longrightarrow> Q r) \<Longrightarrow> result_ok Q res"
  by (auto simp: result_ok_def)

lemma invoke_ok:
  "result_ok (answers_protected x call route h) (fst (invoke_upstream x env req call route oid d h))"
proof (cases "detokenize_alias_refs (hx_redact x) (hub_secret_aliases h) (rt_server_id route) (ti_args call) []")
  case (Inr p)
  obtain detok exposed where p: "p = (detok, exposed)" by force
  have "result_ok (answers_protected x call route h)
      (fst (finish_call x env req call route oid d exposed span r
        (send_upstream s m ps (h\<lparr>hub_db := db\<rparr>))))" for span r s m ps db
    by (rule result_ok_mono [OF finish_call_ok]) (auto simp: answers_protected_def Inr p)
  moreover have "result_ok (answers_protected x call route h) (fst (fail_call x env req oid span e h'))" for span e h'
    by (auto simp: fail_call_def Let_def split: prod.splits sum.splits)
  ultimately show ?thesis
    by (auto simp: invoke_upstream_def Inr p Let_def split: sum.splits prod.splits)
qed (simp add: invoke_upstream_def)

lemma invoke_ok_db:
  "result_ok (answers_protected x call route h) (fst (invoke_upstream x env req call route oid d (h\<lparr>hub_db := db\<rparr>)))"
  using invoke_ok [of x call route "h\<lparr>hub_db := db\<rparr>"] by simp

lemma approved_invoke_ok:
  "result_ok (answers_protected x call route h) (fst (approved_invoke x env req call route oid d h))"
  by (auto simp: approved_invoke_def invoke_ok_db split: prod.splits sum.splits)

lemma await_ok:
  "result_ok (answers_protected x call route h) (fst (await_approval x env req call route oid d approval h))"
  using approved_invoke_ok [of x call route "h\<lparr>hub_db := he_after_wait env (hub_db h)\<rparr>" env req oid d]
  by (auto simp: await_approval_def Let_def split: sum.splits option.splits approval_status.splits)

lemma settle_approval_ok:
  "result_ok (answers_protected x call route h) (fst (settle_approval x env req call route d effects approval h))"
proof -
  obtain res h1 where dr: "draft_for_approval x env call route effects approval h = (res, h1)" by force
  have *: "answers_protected x call route h1 = answers_protected x call route h"
    using draft_keeps [OF dr] by (metis answers_protected_db(1))
  have "result_ok (answers_protected x call route h1) (fst (approved_invoke x env req call route oid d (h1\<lparr>hub_db := db\<rparr>)))"
    for oid db using approved_invoke_ok [of x call route "h1\<lparr>hub_db := db\<rparr>"] by simp
  with await_ok [of x call route h1] show ?thesis
    by (auto simp: settle_approval_def dr * split: prod.splits sum.splits)
qed

lemma allow_recorded_ok:
  "result_ok (answers_protected x call route h) (fst (allow_recorded x env req call route d h))"
  by (auto simp: allow_recorded_def invoke_ok_db split: prod.splits sum.splits)

lemma settle_outcome_ok:
  "result_ok (answers_protected x call route h) (fst (settle_outcome x env req call route outcome h))"
  by (cases outcome) (simp_all add: settle_outcome_def invoke_ok allow_recorded_ok settle_approval_ok)

lemma gated_call_ok:
  "result_ok (answers_protected x call route h) (fst (gated_call x env req call route h))"
proof -
  have "result_ok (answers_protected x call route h) (fst (evaluate_call x env req call route h))"
    using settle_outcome_ok [of x call route "h\<lparr>hub_db := _, hub_scan_persist_failures := _\<rparr>"]
    by (auto simp: evaluate_call_def split: prod.splits sum.splits)
  then show ?thesis
    by (auto simp: gated_call_def allow_recorded_ok deny_raw_secret_def deny_alias_def Let_def
        split: alias_aware_scan_result.splits sum.splits option.splits)
qed

text \<open>
  C11. Injected secrets do not come back in a result. Whatever the upstream answers, and whichever
  way the call was permitted, the result that the agent receives rests on a value that contains, in
  no string and no object key, a value that was put in for this call, or that is the note that
  everything was withheld. Without in-band redaction the result is this value. With it the result is
  this value when its canonical text matches no hard rule, this value with its hard-rule matches
  scrubbed when that leaves none, or the note that the result was withheld. Error answers carry no
  upstream data but the display of the transport error and are not the subject of this property.
\<close>

theorem tool_result_reveals_no_injected_secret:
  assumes "handle_tools_call x env req h = (Inr (Some resp), h')" and "rs_result resp = Some r"
  shows "\<exists>params public_name route detok_args exposed base.
    rq_params req = Some params \<and> json_get params ''name'' = Some (JString public_name) \<and>
    router_resolve public_name (hub_router h) = Some route \<and>
    detokenize_alias_refs (hx_redact x) (hub_secret_aliases h) (rt_server_id route)
      (or_null (json_get params ''arguments'')) [] = Inr (detok_args, exposed) \<and>
    (base = withheld_tool_result INJECTED_NOTE \<or> \<not> value_contains_injected exposed base) \<and>
    (if hc_redact_tool_results (hub_cfg h) then
       r = withheld_tool_result LEAK_NOTE \<or>
       r = base \<and> (\<forall>t. lx_jcs (hx_ledger x) r = Some t \<longrightarrow> detect_hard_secret (hx_redact x) t = None) \<or>
       r = scrub_result x base \<and> text_is_clean x r
     else r = base)"
proof -
  obtain params public_name route where p: "rq_params req = Some params"
    "json_get params ''name'' = Some (JString public_name)"
    "router_resolve public_name (hub_router h) = Some route"
    "gated_call x env req (invocation_of env route (or_null (json_get params ''arguments'')) h) route h = (Inr (Some resp), h')"
    using assms
    by (auto simp: handle_tools_call_def Let_def or_null_def bind_eq_Some_conv req_error_def
        split: option.splits if_splits elim!: json_as_str.elims)
  let ?call = "invocation_of env route (or_null (json_get params ''arguments'')) h"
  have "answers_protected x ?call route h r"
    using gated_call_ok [of x ?call route h env req] p(4) assms(2) by (auto simp: result_ok_def)
  then obtain detok_args exposed where d: "detokenize_alias_refs (hx_redact x) (hub_secret_aliases h)
      (rt_server_id route) (or_null (json_get params ''arguments'')) [] = Inr (detok_args, exposed)"
    and "result_protected x (hc_redact_tool_results (hub_cfg h)) exposed r"
    by (auto simp: answers_protected_def invocation_of_def)
  from this(2) obtain base where
    "base = withheld_tool_result INJECTED_NOTE \<or> \<not> value_contains_injected exposed base"
    "if hc_redact_tool_results (hub_cfg h) then
       r = withheld_tool_result LEAK_NOTE \<or>
       r = base \<and> (\<forall>t. lx_jcs (hx_ledger x) r = Some t \<longrightarrow> detect_hard_secret (hx_redact x) t = None) \<or>
       r = scrub_result x base \<and> text_is_clean x r
     else r = base"
    unfolding result_protected_def by blast
  with p(1-3) d show ?thesis by blast
qed

section \<open>A concrete hub\<close>

text \<open>
  A tool pre-approved for the session, one alias, and an upstream that echoes the secret. With these
  parameters no text matches a rule, and an append on a healthy database always succeeds.
\<close>

definition plain_lx :: ledger_externs where
  "plain_lx = witness_qx\<lparr>lx_redact := \<lparr>rx_captures_iter = (\<lambda>_ _. []), rx_base64_decode = (\<lambda>_ _. None)\<rparr>\<rparr>"

lemma plain_no_secret [simp]: "detect_hard_secret (lx_redact plain_lx) t = None"
proof -
  have *: "find (\<lambda>_. False) rs = None" for rs :: "'r list" by (induction rs) auto
  show ?thesis
    by (simp add: plain_lx_def detect_hard_secret_def detect_hard_secret_plain_def regex_is_match_def Let_def *
        detect_hard_secret_in_base64_def base64_runs_def regex_find_iter_def)
qed

definition head_readable :: "'z ledger_scheme \<Rightarrow> bool" where
  "head_readable l \<longleftrightarrow> led_events l = [] \<or> length (er_event_hash (last (led_events l))) = 64"

definition plain_row :: "string \<Rightarrow> string \<Rightarrow> json \<Rightarrow> string option \<Rightarrow> 'z ledger_scheme \<Rightarrow> event_row" where
  "plain_row sid ty p rt l = projr (new_event_row plain_lx witness_env sid ty p rt l)"

lemma plain_new_row:
  assumes "sid \<noteq> []" "ty \<noteq> []" "head_readable l"
  shows "new_event_row plain_lx witness_env sid ty p rt l = Inr (plain_row sid ty p rt l) \<and>
    length (er_event_hash (plain_row sid ty p rt l)) = 64"
proof -
  have u: "utf8_valid (bytes_of ''{}'')" by code_simp
  have "Option.bind rt (detect_hard_secret (lx_redact plain_lx)) = None" by (cases rt) simp_all
  moreover have "\<exists>h. compute_event_hash_v2 plain_lx (head_hash witness_env l) p t sid ty rt = Inr h \<and> length h = 64" for t
    using assms(3)
    by (auto simp: compute_event_hash_v2_def head_hash_def head_readable_def parse_prev_hash_def plain_lx_def
        witness_qx_def witness_lx_def witness_env_def)
  then obtain h where "compute_event_hash_v2 plain_lx (head_hash witness_env l) p 7 sid ty rt = Inr h" "length h = 64" by blast
  ultimately show ?thesis
    using assms u plain_no_secret
    by (simp add: plain_row_def new_event_row_def validate_nonempty_def plain_lx_def witness_qx_def witness_lx_def witness_env_def)
qed

lemma plain_append [simp]:
  assumes "sid \<noteq> []" "ty \<noteq> []" "head_readable l"
  shows "append_event_internal plain_lx witness_env sid ty p rt l =
    (Inr (appended (plain_row sid ty p rt l)), insert_event (plain_row sid ty p rt l) l)"
  using plain_new_row [OF assms] by (simp add: append_event_internal_def)

lemma head_readable_insert [simp]:
  assumes "sid \<noteq> []" "ty \<noteq> []" "head_readable l"
  shows "head_readable (insert_event (plain_row sid ty p rt l) l)"
  using plain_new_row [OF assms] by (simp add: head_readable_def insert_event_def)

definition witness_hx :: hub_externs where
  "witness_hx =
     \<lparr>hx_ledger = plain_lx, hx_effects = witness_externs, hx_codec = witness_codec, hx_to_string = (\<lambda>_. None),
      hx_version = ''1'', hx_resolve_program = Inr\<rparr>"

definition witness_args :: json where
  "witness_args = JObject [(''path'', JString ''/proj/a.txt''), (''key'', JString ''secret://k'')]"

definition witness_grant :: approval_row where
  "witness_grant =
     \<lparr>a_approval_id = ''a'', a_decision_id = ''d'', a_invocation_id = ''i'', a_session_id = ''s'', a_title = [],
      a_summary = [], a_effect_json = [], a_status = ''Approved'', a_scope = Some ''ThisSession'',
      a_args_hash = jcs_sha256 plain_lx witness_args, a_server_id = Some ''fs'', a_tool_name = Some ''read_file'',
      a_expires_at = 100, a_created_at = 1, a_resolved_at = Some 2, a_resolved_by = Some ''u''\<rparr>"

definition witness_route :: tool_route where
  "witness_route =
     \<lparr>rt_public = ''fs__read_file'', rt_server_id = ''fs'', rt_upstream_tool_name = ''read_file'', rt_descriptor_hash = ''h''\<rparr>"

definition witness_hub :: hub where
  "witness_hub =
     (hub_new ((new_registry (new_span_db empty_db))\<lparr>led_approvals := [witness_grant]\<rparr>) witness_firewall
        hub_config_default [(''k'', \<lparr>al_value = ''s3cr3t'', al_server = ''fs''\<rparr>)])
     \<lparr>hub_upstreams := [''fs''], hub_session_id := Some ''s'', hub_router := [(''fs__read_file'', witness_route)]\<rparr>"

definition witness_henv :: hub_env where
  "witness_henv =
     \<lparr>he_router_poisoned = False, he_session_poisoned = False, he_upstreams_poisoned = False,
      he_scopes_poisoned = False, he_attach_poisoned = False, he_notices_poisoned = False,
      he_at = (\<lambda>_. witness_env), he_item = (\<lambda>_ _ _. witness_env), he_fw = witness_fenv, he_tie = 0,
      he_invocation_id = ''i'', he_decision_id = ''d'',
      he_reply = (\<lambda>_ m _. if m = ''tools/call'' then Inr (JObject [(''content'', JString ''got s3cr3t'')])
                  else Inr (JObject [(''tools'', JArray [JObject [(''name'', JString ''read_file'')]])])),
      he_wait_entry = witness_env, he_wait_slices = (\<lambda>_. []), he_wait_final = Pair witness_env, he_after_wait = id\<rparr>"

definition witness_tools_call :: json_rpc_request where
  "witness_tools_call =
     \<lparr>rq_jsonrpc = ''2.0'', rq_id = Some (JNumber ''1''), rq_method = ''tools/call'',
      rq_params = Some (JObject [(''name'', JString ''fs__read_file''), (''arguments'', witness_args)])\<rparr>"

abbreviation witness_call :: tool_invocation where
  "witness_call \<equiv> invocation_of witness_henv witness_route witness_args witness_hub"

lemma witness_gates:
  "(case scan_args_for_raw_secrets (lx_redact plain_lx) witness_args of RawSecret _ _ \<Rightarrow> False | _ \<Rightarrow> True)"
  "validate_alias_refs (lx_redact plain_lx) (hub_secret_aliases witness_hub) ''fs'' witness_args = Inr ()"
  "detokenize_alias_refs (lx_redact plain_lx) (hub_secret_aliases witness_hub) ''fs'' witness_args [] =
     Inr (JObject [(''path'', JString ''/proj/a.txt''), (''key'', JString ''s3cr3t'')], [(''k'', ''s3cr3t'')])"
  "jcs_sha256 plain_lx witness_args \<noteq> None"
  by code_simp+

lemma witness_scope:
  "find_session_scope_allow witness_env 0 ''s'' ''fs'' ''read_file'' (the (jcs_sha256 plain_lx witness_args)) (hub_db witness_hub)
   = Inr (Some \<lparr>res_approval_id = ''a'', res_invocation_id = ''i'', res_status = AS_Approved, res_scope = Some ThisSession,
                 res_resolved_by = Some ''u'', res_resolved_at = 2\<rparr>)"
  by code_simp

lemma plain_record:
  assumes "sid \<noteq> []" "head_readable l"
  obtains a l' where "record_decision plain_lx witness_env sid d ev l = (Inr a, l')" "head_readable l'"
  using assms by (simp add: record_decision_def Let_def)

lemma plain_span:
  assumes "sid \<noteq> []" "head_readable l"
  obtains l' where "ledger_tool_call_span plain_lx witness_env iid sid l =
    (Inr (Opened \<lparr>sp_invocation_id = iid, sp_session_id = sid, sp_finalized = False\<rparr>), l')" "head_readable l'"
  using assms by (simp add: ledger_tool_call_span_def open_span_def)

lemma plain_decided:
  assumes "sp_session_id sp \<noteq> []" "head_readable l"
  obtains l' where "decision_recorded plain_lx witness_env witness_env (Opened sp) d l =
    (Inr (Decided \<lparr>sp_invocation_id = sp_invocation_id sp, sp_session_id = sp_session_id sp, sp_finalized = False\<rparr>), l')"
    "head_readable l'"
  using assms by (simp add: drop_span_def Let_def)

lemma plain_executed:
  assumes "sp_session_id sp \<noteq> []" "head_readable l"
  obtains l' where "executed plain_lx witness_env witness_env (Decided sp) summary l = (Inr (), l')"
  using assms by (simp add: drop_span_def)

lemma plain_log:
  assumes "sid \<noteq> []" "ty \<noteq> []" "head_readable l"
  shows "head_readable (log_hub plain_lx witness_env sid ty p fts l)"
  using assms by (simp add: log_hub_def append_event_def)

abbreviation witness_result :: json where
  "witness_result \<equiv> JObject [(''content'', JString ''got secret://k'')]"

lemma witness_reflection:
  "redact_injected_reflection (JObject [(''content'', JString ''got s3cr3t'')]) [(''k'', ''s3cr3t'')] = (witness_result, 1, False)"
  by code_simp

lemma plain_meta [simp]: "scan_meta_instructions (lx_redact plain_lx) t = []"
  by (simp add: scan_meta_instructions_def plain_lx_def regex_find_iter_def)

lemma witness_scan:
  "scan_tool_result witness_hx witness_henv c d r h = (r, h)"
  by (simp add: scan_tool_result_def witness_hx_def audit_result_injection_def finish_injection_audit_def
      split: option.splits)

lemma witness_at [simp]:
  "he_at witness_henv n = witness_env" "hx_ledger witness_hx = plain_lx" "he_tie witness_henv = 0"
  "\<not> he_upstreams_poisoned witness_henv" "\<not> he_router_poisoned witness_henv" "\<not> he_session_poisoned witness_henv"
  "he_reply witness_henv s ''tools/call'' p = Inr (JObject [(''content'', JString ''got s3cr3t'')])"
  "ti_session_id witness_call = ''s''" "ti_args witness_call = witness_args" "rt_server_id witness_route = ''fs''"
  "rt_upstream_tool_name witness_route = ''read_file''"
  "router_resolve ''fs__read_file'' (hub_router witness_hub) = Some witness_route"
  by (simp_all add: witness_henv_def witness_hx_def invocation_of_def witness_hub_def witness_route_def router_resolve_def)

lemma witness_finish:
  assumes "head_readable (hub_db h)"
  shows "fst (finish_call witness_hx witness_henv req witness_call witness_route None d [(''k'', ''s3cr3t'')]
    (Decided \<lparr>sp_invocation_id = i, sp_session_id = ''s'', sp_finalized = False\<rparr>)
    (JObject [(''content'', JString ''got s3cr3t'')]) h) = Inr (Some (req_success req witness_result))"
proof -
  have "head_readable (log_hub plain_lx witness_env ''s'' EVENT_SECRET_LEAK_DETECTED p fts (hub_db h))"
    for p fts using assms by (intro plain_log) (simp_all add: EVENT_SECRET_LEAK_DETECTED_def)
  then show ?thesis by (simp add: finish_call_def reclaim_injected_def witness_reflection witness_scan)
qed

lemma witness_invoke:
  assumes "head_readable (hub_db h)" "hub_upstreams h = [''fs'']" "hub_secret_aliases h = hub_secret_aliases witness_hub"
  shows "fst (invoke_upstream witness_hx witness_henv req witness_call witness_route None d h) =
      Inr (Some (req_success req witness_result))"
    "hub_sent (snd (invoke_upstream witness_hx witness_henv req witness_call witness_route None d h)) \<noteq> hub_sent h"
proof -
  let ?sp = "\<lparr>sp_invocation_id = ti_invocation_id witness_call, sp_session_id = ''s'', sp_finalized = False\<rparr>"
  obtain l1 where s1: "ledger_tool_call_span plain_lx witness_env (ti_invocation_id witness_call) ''s'' (hub_db h) =
    (Inr (Opened ?sp), l1)" "head_readable l1"
    by (rule plain_span [of "''s''" "hub_db h" "ti_invocation_id witness_call"]) (use assms(1) in auto)
  obtain l2 where s2: "decision_recorded plain_lx witness_env witness_env (Opened ?sp) d l1 = (Inr (Decided ?sp), l2)"
    "head_readable l2"
    by (rule plain_decided [OF _ s1(2), of ?sp d]) simp_all
  note eqs = invoke_upstream_def assms(2,3) witness_gates(3) s1(1) s2(1) Let_def
  from s2(2) show "fst (invoke_upstream witness_hx witness_henv req witness_call witness_route None d h) =
      Inr (Some (req_success req witness_result))" by (simp add: eqs witness_finish del: decision_recorded.simps)
  show "hub_sent (snd (invoke_upstream witness_hx witness_henv req witness_call witness_route None d h)) \<noteq> hub_sent h"
    by (simp add: eqs del: decision_recorded.simps)
qed

lemma witness_run:
  shows "fst (handle_tools_call witness_hx witness_henv witness_tools_call witness_hub) =
      Inr (Some (req_success witness_tools_call witness_result))"
    "hub_sent (snd (handle_tools_call witness_hx witness_henv witness_tools_call witness_hub)) \<noteq> hub_sent witness_hub"
proof -
  define d where "d = hub_decision witness_henv witness_call DK_Allow 0
    (''pre-approved by session scope (approval_id='' @ ''a'' @ '')'') ''session-scope-allow''"
  have hr: "head_readable (hub_db witness_hub)" by code_simp
  obtain a db where rec: "record_decision plain_lx witness_env ''s'' d effect_vector_default (hub_db witness_hub) = (Inr a, db)"
    "head_readable db" by (rule plain_record [OF _ hr, of "''s''"]) simp_all
  obtain hash where hash: "jcs_sha256 plain_lx witness_args = Some hash" using witness_gates(4) by auto
  have "gated_call witness_hx witness_henv witness_tools_call witness_call witness_route witness_hub =
    allow_recorded witness_hx witness_henv witness_tools_call witness_call witness_route d witness_hub"
    using witness_scope witness_gates(1)
    by (cases "scan_args_for_raw_secrets (lx_redact plain_lx) witness_args")
      (simp_all add: gated_call_def witness_gates(2) hash d_def)
  then have run: "handle_tools_call witness_hx witness_henv witness_tools_call witness_hub =
    invoke_upstream witness_hx witness_henv witness_tools_call witness_call witness_route None d (witness_hub\<lparr>hub_db := db\<rparr>)"
    by (simp add: handle_tools_call_def witness_tools_call_def Let_def allow_recorded_def rec(1))
  have "hub_upstreams witness_hub = [''fs'']" by (simp add: witness_hub_def)
  with witness_invoke [of "witness_hub\<lparr>hub_db := db\<rparr>"] rec(2)
  show "fst (handle_tools_call witness_hx witness_henv witness_tools_call witness_hub) =
      Inr (Some (req_success witness_tools_call witness_result))"
    "hub_sent (snd (handle_tools_call witness_hx witness_henv witness_tools_call witness_hub)) \<noteq> hub_sent witness_hub"
    by (simp_all add: run)
qed

theorem upstream_call_was_authorized_witness: "call_authorized witness_hx witness_henv witness_call witness_route witness_hub"
  using upstream_call_was_authorized [OF prod.collapse [symmetric] witness_run(2)]
  by (auto simp: witness_tools_call_def or_null_def)

theorem tool_result_reveals_no_injected_secret_witness:
  "fst (handle_tools_call witness_hx witness_henv witness_tools_call witness_hub) =
     Inr (Some (req_success witness_tools_call witness_result)) \<and>
   \<not> value_contains_injected [(''k'', ''s3cr3t'')] witness_result"
proof -
  have run: "handle_tools_call witness_hx witness_henv witness_tools_call witness_hub =
    (Inr (Some (req_success witness_tools_call witness_result)), snd (handle_tools_call witness_hx witness_henv witness_tools_call witness_hub))"
    using witness_run(1) by (metis prod.collapse)
  have p: "rq_params witness_tools_call = Some (JObject [(''name'', JString ''fs__read_file''), (''arguments'', witness_args)])"
    "\<not> hc_redact_tool_results (hub_cfg witness_hub)"
    by (simp_all add: witness_tools_call_def witness_hub_def hub_new_def hub_config_default_def)
  have "witness_result \<noteq> withheld_tool_result INJECTED_NOTE" by code_simp
  with tool_result_reveals_no_injected_secret [OF run, of witness_result] witness_gates(3) witness_run(1) show ?thesis
    by (auto simp: req_success_def or_null_def p)
qed

end
