(* ===== verification/Hub_List.thy ===== *)
theory Hub_List
  imports Hub
begin

text \<open>
  What \<open>tools/list\<close> exposes (crate \<open>vigil-mcp\<close>, \<open>Hub::handle_tools_list\<close>): after a successful listing
  every route of the hub leads to a tool of an approved server whose approved descriptor is the one the
  server presented in this very listing.
\<close>

section \<open>The registry during a listing\<close>

definition approved_hash :: "'z registry_db_scheme \<Rightarrow> string \<Rightarrow> string \<Rightarrow> string \<Rightarrow> bool" where
  "approved_hash l sid tool hash \<longleftrightarrow>
     list_ex (\<lambda>r. is_tool sid tool r \<and> td_approved_at r \<noteq> None \<and> td_descriptor_hash r = hash) (reg_tools l)"

text \<open>The one row of the tool, approved or not, carries this hash.\<close>

definition row_hash :: "'z registry_db_scheme \<Rightarrow> string \<Rightarrow> string \<Rightarrow> string \<Rightarrow> bool" where
  "row_hash l sid tool hash \<longleftrightarrow> list_all (\<lambda>r. is_tool sid tool r \<longrightarrow> td_descriptor_hash r = hash) (reg_tools l)"

definition keeps_approved :: "registry_db \<Rightarrow> registry_db \<Rightarrow> bool" where
  "keeps_approved l l' \<longleftrightarrow>
     (tools_wf l \<longrightarrow> tools_wf l' \<and> (\<forall>sid tool hash. approved_hash l sid tool hash \<longrightarrow> approved_hash l' sid tool hash))"

lemma keeps_approved_same: "reg_tools l' = reg_tools l \<Longrightarrow> keeps_approved l l'"
  by (simp add: keeps_approved_def approved_hash_def tools_wf_def)

lemma keeps_approved_refl [simp]: "keeps_approved l l"
  by (rule keeps_approved_same) simp

lemma keeps_approved_trans: "keeps_approved l l1 \<Longrightarrow> keeps_approved l1 l2 \<Longrightarrow> keeps_approved l l2"
  by (auto simp: keeps_approved_def)

lemma log_hub_registry [simp]:
  "reg_tools (log_hub x env sid ty p fts l) = reg_tools l"
  "reg_servers (log_hub x env sid ty p fts l) = reg_servers l"
  by (simp_all add: log_hub_def append_event_def)

lemma bump_registry [simp]:
  "reg_tools (snd (bump_session_risk env sid d l)) = reg_tools l"
  by (auto simp: bump_session_risk_def insert_or_ignore_session_def Let_def split: sum.splits option.splits)

lemma injection_audit_registry [simp]:
  "reg_tools (finish_injection_audit x env env2 job d l) = reg_tools l"
  by (auto simp: finish_injection_audit_def Let_def split: injection_job_kind.splits)

lemma descriptor_audit_tools [simp]:
  "reg_tools (hub_db (audit_descriptor_meta_instructions x env e1 e2 sid tool desc schema h)) = reg_tools (hub_db h)"
  by (simp add: audit_descriptor_meta_instructions_def Let_def)

lemma pin_approve_keeps:
  "keeps_approved l (snd (pin_tool_descriptor env sid tool hash l))"
  "keeps_approved l (snd (approve_tool_descriptor x env env2 sid tool l))"
proof -
  have step: "keeps_approved l (run_reg x c op l)"
    if kept: "\<And>r. td_approved_at r \<noteq> None \<Longrightarrow> td_approved_at (tool_change op r) \<noteq> None \<and>
      td_descriptor_hash (tool_change op r) = td_descriptor_hash r" for x c op
  proof -
    have "approved_hash (run_reg x c op l) sid tool hash" if "approved_hash l sid tool hash" for sid tool hash
    proof -
      from that obtain r where r: "r \<in> set (reg_tools l)" "is_tool sid tool r" "td_approved_at r \<noteq> None"
        "td_descriptor_hash r = hash" by (auto simp: approved_hash_def list_ex_iff)
      then have "is_tool sid tool (tool_change op r) \<and> td_approved_at (tool_change op r) \<noteq> None \<and>
          td_descriptor_hash (tool_change op r) = hash"
        using kept [OF r(3)] by (simp add: is_tool_key)
      with r(1) show ?thesis unfolding approved_hash_def list_ex_iff run_reg_tools by auto
    qed
    then show ?thesis using run_reg_wf [of l x c op] by (simp add: keeps_approved_def)
  qed
  show "keeps_approved l (snd (pin_tool_descriptor env sid tool hash l))"
    using step [of "RO_pin env sid tool hash" undefined undefined] by (simp add: pin_known_fields)
  show "keeps_approved l (snd (approve_tool_descriptor x env env2 sid tool l))"
    using step [of "RO_approve_tool env env2 sid tool" x undefined] by simp
qed

text \<open>After a pin that did not report a drift the row of the tool has the pinned hash.\<close>

lemma pin_row_hash:
  assumes "tools_wf l" "pin_tool_descriptor env sid tool hash l = (Inr outcome, l')" "\<And>a b. outcome \<noteq> PO_Drifted a b"
  shows "row_hash l' sid tool hash"
proof (cases "find_tool sid tool l")
  case None
  then have "\<not> is_tool sid tool r" if "r \<in> set (reg_tools l)" for r
    using that by (auto simp: find_tool_def find_None_iff)
  with None assms(2) show ?thesis
    by (auto simp: pin_tool_descriptor_def db_write_def row_hash_def list_all_iff split: if_splits)
next
  case (Some r)
  have r: "r \<in> set (reg_tools l)" "is_tool sid tool r"
    using find_Some_set [OF Some [unfolded find_tool_def]] by auto
  have uniq: "q = r" if "q \<in> set (reg_tools l)" "is_tool sid tool q" for q
    using key_unique [OF assms(1) that(1) r(1)] that(2) r(2) by (simp add: is_tool_key)
  have out: "outcome = fst (pin_known hash (ce_now env) r)"
    "reg_tools l' = map (\<lambda>r. if is_tool sid tool r then snd (pin_known hash (ce_now env) r) else r) (reg_tools l)"
    using assms(2) Some by (auto simp: pin_tool_descriptor_def db_write_def split: if_splits)
  have "td_descriptor_hash (snd (pin_known hash (ce_now env) r)) = hash"
    using assms(3) out(1) by (auto simp: pin_known_def Let_def split: if_splits option.splits)
  then show ?thesis
    using uniq by (auto simp: row_hash_def out(2) list_all_iff)
qed

lemma row_hash_same: "reg_tools l' = reg_tools l \<Longrightarrow> row_hash l' sid tool hash = row_hash l sid tool hash"
  by (simp add: row_hash_def)

lemma approve_row_hash:
  "row_hash l sid tool hash \<Longrightarrow> row_hash (snd (approve_tool_descriptor x env env2 sid tool l)) sid tool hash"
  by (simp add: approve_tool_descriptor_def update_rows_snd row_hash_def list.pred_map comp_def)
    (auto simp: list_all_iff is_tool_def)

section \<open>The listing\<close>

definition routes_approved :: "tool_router \<Rightarrow> registry_db \<Rightarrow> bool" where
  "routes_approved router l \<longleftrightarrow>
     list_all (\<lambda>(_, t). approved_hash l (rt_server_id t) (rt_upstream_tool_name t) (rt_descriptor_hash t)) router"

definition routes_to :: "string set \<Rightarrow> tool_router \<Rightarrow> bool" where
  "routes_to servers router \<longleftrightarrow> list_all (\<lambda>(_, t). rt_server_id t \<in> servers) router"

text \<open>The tools a server sends in this listing, and those of them with this name and this descriptor hash.\<close>

definition offered :: "hub_env \<Rightarrow> string \<Rightarrow> json list" where
  "offered env sid =
     (case he_reply env sid ''tools/list'' None of
        Inl _ \<Rightarrow> []
      | Inr result \<Rightarrow>
          (case Option.bind (json_get result ''tools'') json_as_array of None \<Rightarrow> [] | Some tools \<Rightarrow> tools))"

definition presents :: "hub_externs \<Rightarrow> hub_env \<Rightarrow> string \<Rightarrow> string \<Rightarrow> string \<Rightarrow> json \<Rightarrow> bool" where
  "presents x env sid tool hash t \<longleftrightarrow>
     t \<in> set (offered env sid) \<and> Option.bind (json_get t ''name'') json_as_str = Some tool \<and>
     descriptor_hash (hx_ledger x) sid tool (or_null (json_get t ''inputSchema''))
       (Option.bind (json_get t ''description'') json_as_str) (or_null (json_get t ''annotations'')) = Some hash"

definition routes_presented :: "hub_externs \<Rightarrow> hub_env \<Rightarrow> list_acc \<Rightarrow> bool" where
  "routes_presented x env acc \<longleftrightarrow>
     list_all (\<lambda>(q, r). \<exists>t. presents x env (rt_server_id r) (rt_upstream_tool_name r) (rt_descriptor_hash r) t \<and>
       rename_tool t q \<in> set (la_tools acc)) (la_router acc)"

definition tools_presented ::
  "hub_externs \<Rightarrow> hub_env \<Rightarrow> string set \<Rightarrow> json list \<Rightarrow> registry_db \<Rightarrow> bool" where
  "tools_presented x env servers tools l \<longleftrightarrow>
     list_all (\<lambda>v. \<exists>sid tool hash t q. sid \<in> servers \<and> presents x env sid tool hash t \<and>
       approved_hash l sid tool hash \<and> v = rename_tool t q) tools"

text \<open>What one step of the listing keeps, with the servers seen so far.\<close>

definition list_ok :: "hub_externs \<Rightarrow> hub_env \<Rightarrow> string set \<Rightarrow> list_acc \<Rightarrow> hub \<Rightarrow> bool" where
  "list_ok x env servers acc h \<longleftrightarrow>
     tools_wf (hub_db h) \<and> routes_approved (la_router acc) (hub_db h) \<and> routes_to servers (la_router acc) \<and>
     routes_presented x env acc \<and> tools_presented x env servers (la_tools acc) (hub_db h)"

lemma list_ok_keeps:
  assumes "list_ok x env S acc h" "keeps_approved (hub_db h) (hub_db h')" "la_router acc' = la_router acc"
    "la_tools acc' = la_tools acc"
  shows "list_ok x env S acc' h'"
proof -
  have "tools_presented x env S (la_tools acc') (hub_db h')"
    using assms(1,2,4) unfolding list_ok_def tools_presented_def keeps_approved_def list_all_iff by metis
  then show ?thesis
    using assms by (auto simp: list_ok_def keeps_approved_def routes_approved_def routes_presented_def list_all_iff)
qed

lemma expose_ok:
  assumes "list_ok x env S acc h" "row_hash (hub_db h) sid tool hash" "sid \<in> S" "presents x env sid tool hash t"
    and "expose_tool x e sid tool hash t acc h = (Inr acc', h')"
  shows "list_ok x env S acc' h'"
proof (cases "get_pinned_tool_hash e sid tool (hub_db h)")
  case (Inl err)
  with assms(5) show ?thesis by (simp add: expose_tool_def)
next
  case (Inr p)
  show ?thesis
  proof (cases p)
    case None
    with Inr assms(1,5) show ?thesis by (auto simp: expose_tool_def list_ok_def routes_presented_def)
  next
    case (Some a)
    with Inr obtain r where "r \<in> set (reg_tools (hub_db h))" "is_tool sid tool r" "td_approved_at r \<noteq> None"
      by (auto simp: get_pinned_tool_hash_def db_step_def split: if_splits dest: find_Some_set)
    with assms(2) have appr: "approved_hash (hub_db h) sid tool hash"
      by (auto simp: approved_hash_def row_hash_def list_ex_iff list_all_iff)
    show ?thesis
    proof (cases "hx_redact x" sid tool hash "la_router acc" rule: router_register_cases)
      case (refused err)
      with Inr Some assms(5) show ?thesis by (simp add: expose_tool_def)
    next
      case (added q route)
      with Inr Some assms(5) have acc: "h' = h" "la_router acc' = AList.update q route (la_router acc)"
        "la_tools acc' = la_tools acc @ [rename_tool t q]"
        by (auto simp: expose_tool_def)
      have "routes_approved (la_router acc') (hub_db h')" "routes_to S (la_router acc')"
        using added(3) appr assms(1,3)
        by (auto simp: acc list_ok_def routes_approved_def routes_to_def intro!: list_all_update)
      moreover have "routes_presented x env acc'"
        unfolding routes_presented_def acc
        using assms(1,4) added(3)
        by (intro list_all_update) (auto simp: list_ok_def routes_presented_def list_all_iff; blast)+
      moreover have "tools_presented x env S (la_tools acc') (hub_db h')"
        using assms(1,3,4) appr by (auto simp: acc list_ok_def tools_presented_def) blast
      ultimately show ?thesis using assms(1) by (simp add: list_ok_def acc(1))
    qed
  qed
qed

lemma first_seen_ok:
  assumes "list_ok x env S acc h" "row_hash (hub_db h) sid tool hash"
    and "first_seen_tool x env es sid tool desc schema h = (res, h')"
  shows "list_ok x env S acc h' \<and> row_hash (hub_db h') sid tool hash"
proof -
  let ?h = "audit_descriptor_meta_instructions x env (es 1) (es 2) sid tool desc schema h"
  have same: "reg_tools (hub_db ?h) = reg_tools (hub_db h)" by simp
  have 1: "list_ok x env S acc ?h" "row_hash (hub_db ?h) sid tool hash"
    using list_ok_keeps [OF assms(1) keeps_approved_same [OF same] refl refl] assms(2) row_hash_same [OF same] by blast+
  have "list_ok x env S acc (?h\<lparr>hub_db := snd (approve_tool_descriptor (hx_ledger x) (es 3) (es 4) sid tool (hub_db ?h))\<rparr>)"
    using 1(1) by (rule list_ok_keeps) (simp_all add: pin_approve_keeps)
  with 1 approve_row_hash [OF 1(2), of "hx_ledger x" "es 3" "es 4"] assms(3) show ?thesis
    by (auto simp: first_seen_tool_def Let_def split: if_splits prod.splits)
qed

lemma list_one_tool_ok:
  assumes "list_ok x env S acc h" "sid \<in> S" "t \<in> set (offered env sid)"
    and "list_one_tool x env es sid t acc h = (Inr acc', h')"
  shows "list_ok x env S acc' h'"
proof -
  have wf: "tools_wf (hub_db h)" using assms(1) by (simp add: list_ok_def)
  show ?thesis
  proof (cases "Option.bind (json_get t ''name'') json_as_str")
    case None
    with assms(1,4) show ?thesis by (simp add: list_one_tool_def)
  next
    case (Some tool)
    with assms(4) obtain hash outcome db where
      hash: "descriptor_hash (hx_ledger x) sid tool (or_null (json_get t ''inputSchema''))
        (Option.bind (json_get t ''description'') json_as_str) (or_null (json_get t ''annotations'')) = Some hash"
      and pin: "pin_tool_descriptor (es 0) sid tool hash (hub_db h) = (Inr outcome, db)"
      and rest: "(case outcome of
          PO_FirstSeen \<Rightarrow>
            (case first_seen_tool x env es sid tool (Option.bind (json_get t ''description'') json_as_str)
                    (or_null (json_get t ''inputSchema'')) (h\<lparr>hub_db := db\<rparr>) of
               (Inl e, h1) \<Rightarrow> (Inl e, h1)
             | (Inr _, h1) \<Rightarrow> expose_tool x (es 5) sid tool hash t acc h1) = (Inr acc', h')
        | PO_Unchanged \<Rightarrow> expose_tool x (es 5) sid tool hash t acc (h\<lparr>hub_db := db\<rparr>) = (Inr acc', h')
        | PO_Drifted old new \<Rightarrow> acc' = acc \<and> reg_tools (hub_db h') = reg_tools db)"
      by (auto simp: list_one_tool_def Let_def split: option.splits prod.splits sum.splits pin_outcome.splits)
    have shown: "presents x env sid tool hash t" using assms(3) Some hash by (simp add: presents_def)
    have ok: "list_ok x env S acc (h\<lparr>hub_db := db\<rparr>)"
      using assms(1) pin pin_approve_keeps(1) [of "hub_db h" "es 0" sid tool hash]
      by (auto intro: list_ok_keeps)
    show ?thesis
    proof (cases outcome)
      case PO_FirstSeen
      with rest obtain u h1 where f: "first_seen_tool x env es sid tool (Option.bind (json_get t ''description'') json_as_str)
          (or_null (json_get t ''inputSchema'')) (h\<lparr>hub_db := db\<rparr>) = (Inr u, h1)"
        and e: "expose_tool x (es 5) sid tool hash t acc h1 = (Inr acc', h')"
        by (auto split: prod.splits sum.splits)
      have "row_hash db sid tool hash" using pin_row_hash [OF wf pin] PO_FirstSeen by simp
      with first_seen_ok [OF ok _ f] expose_ok [OF _ _ assms(2) shown e] show ?thesis by simp
    next
      case PO_Unchanged
      have "row_hash db sid tool hash" using pin_row_hash [OF wf pin] PO_Unchanged by simp
      with rest PO_Unchanged expose_ok [OF ok _ assms(2) shown] show ?thesis by simp
    next
      case (PO_Drifted old new)
      with rest have "acc' = acc" "reg_tools (hub_db h') = reg_tools (hub_db (h\<lparr>hub_db := db\<rparr>))" by auto
      with list_ok_keeps [OF ok keeps_approved_same] show ?thesis by simp
    qed
  qed
qed

lemma list_server_tools_ok:
  "list_ok x env S acc h \<Longrightarrow> sid \<in> S \<Longrightarrow> set ts \<subseteq> set (offered env sid) \<Longrightarrow>
   list_server_tools x env es sid ts j acc h = (Inr acc', h') \<Longrightarrow> list_ok x env S acc' h'"
proof (induction ts arbitrary: j acc h)
  case (Cons t ts)
  from Cons.prems(4) obtain acc1 h1 where 1: "list_one_tool x env (es j) sid t acc h = (Inr acc1, h1)"
    "list_server_tools x env es sid ts (Suc j) acc1 h1 = (Inr acc', h')"
    by (auto split: prod.splits sum.splits)
  have "t \<in> set (offered env sid)" "set ts \<subseteq> set (offered env sid)" using Cons.prems(3) by auto
  from Cons.IH [OF list_one_tool_ok [OF Cons.prems(1,2) this(1) 1(1)] Cons.prems(2) this(2) 1(2)] show ?case .
qed auto

lemma note_db [simp]: "hub_db (note_tools_list env sid msg h) = hub_db h"
  by (simp add: note_tools_list_def Let_def)

lemma list_one_server_ok:
  assumes "list_ok x env S acc h" "sid \<in> S" "list_one_server x env i sid acc h = (Inr acc', h')"
  shows "list_ok x env S acc' h'"
proof (cases "\<exists>tools acc1 h2. set tools \<subseteq> set (offered env sid) \<and> list_server_tools x env (\<lambda>j. he_item env i (Suc j)) sid tools 0
    (acc\<lparr>la_hashes := [], la_pending := 0\<rparr>) (send_upstream sid ''tools/list'' None h) = (Inr acc1, h2) \<and>
    acc' = acc1 \<and> reg_tools (hub_db h') = reg_tools (hub_db h2)")
  case True
  then obtain tools h2 where 0: "set tools \<subseteq> set (offered env sid)"
    and 1: "list_server_tools x env (\<lambda>j. he_item env i (Suc j)) sid tools 0
      (acc\<lparr>la_hashes := [], la_pending := 0\<rparr>) (send_upstream sid ''tools/list'' None h) = (Inr acc', h2)"
    and 2: "reg_tools (hub_db h') = reg_tools (hub_db h2)" by blast
  have "list_ok x env S (acc\<lparr>la_hashes := [], la_pending := 0\<rparr>) (send_upstream sid ''tools/list'' None h)"
    using assms(1) by (simp add: list_ok_def routes_presented_def)
  from list_server_tools_ok [OF this assms(2) 0 1] keeps_approved_same [OF 2] show ?thesis
    by (rule list_ok_keeps) simp_all
next
  case False
  with assms(3) have "acc' = acc" "hub_db h' = hub_db h"
    by (auto simp: list_one_server_def Let_def set_descriptor_hash_def offered_def
        split: if_splits sum.splits option.splits prod.splits)
  with assms(1) show ?thesis by (simp add: list_ok_def)
qed

lemma list_servers_ok:
  "list_ok x env S acc h \<Longrightarrow> set ss \<subseteq> S \<Longrightarrow> list_servers x env i ss acc h = (Inr acc', h') \<Longrightarrow> list_ok x env S acc' h'"
proof (induction ss arbitrary: i acc h)
  case (Cons s ss)
  from Cons.prems(3) obtain acc1 h1 where 1: "list_one_server x env i s acc h = (Inr acc1, h1)"
    "list_servers x env (Suc i) ss acc1 h1 = (Inr acc', h')"
    by (auto split: prod.splits sum.splits)
  have "s \<in> S" "set ss \<subseteq> S" using Cons.prems(2) by auto
  from Cons.IH [OF list_one_server_ok [OF Cons.prems(1) this(1) 1(1)] this(2) 1(2)] show ?case .
qed auto

text \<open>
  C10. Only approved tools are exposed. After a successful \<open>tools/list\<close> every public name that routes
  anywhere routes to a server that was approved when the listing began, and to a tool that this
  server presented in this very listing; the hash of the route is the hash of the descriptor
  presented, it is the one that is approved in the registry, and the tool is in the answer under its
  public name. And every tool in the answer is a renamed tool that an approved server presented with
  an approved descriptor. So a tool that was never approved, or whose descriptor changed since, has
  no route and is not listed.
\<close>

theorem listed_tools_are_approved:
  assumes "handle_tools_list x env req h = (Inr resp, h')" and "tools_wf (hub_db h)"
  shows "\<exists>approved tools.
    list_approved_servers (hx_codec x) (he_at env 0) (hub_db h) = Inr approved \<and>
    resp = Some (req_success req (JObject [(''tools'', JArray tools)])) \<and>
    (\<forall>public_name route. router_resolve public_name (hub_router h') = Some route \<longrightarrow>
      rt_server_id route \<in> ssp_server_id ` set approved \<and>
      (\<exists>t. presents x env (rt_server_id route) (rt_upstream_tool_name route) (rt_descriptor_hash route) t \<and>
         rename_tool t public_name \<in> set tools) \<and>
      approved_hash (hub_db h') (rt_server_id route) (rt_upstream_tool_name route) (rt_descriptor_hash route)) \<and>
    (\<forall>v \<in> set tools. \<exists>sid tool hash t q. sid \<in> ssp_server_id ` set approved \<and>
      presents x env sid tool hash t \<and> approved_hash (hub_db h') sid tool hash \<and> v = rename_tool t q)"
proof -
  obtain approved acc h1 where a: "list_approved_servers (hx_codec x) (he_at env 0) (hub_db h) = Inr approved"
    "list_servers x env 0 (map ssp_server_id approved) list_acc_new h = (Inr acc, h1)"
    "h' = h1\<lparr>hub_router := la_router acc\<rparr>"
    "resp = Some (req_success req (JObject [(''tools'', JArray (la_tools acc))]))"
    using assms(1) by (auto simp: handle_tools_list_def split: sum.splits if_splits prod.splits)
  have "list_ok x env (ssp_server_id ` set approved) list_acc_new h"
    using assms(2) by (simp add: list_ok_def list_acc_new_def routes_approved_def routes_to_def router_default_def
        routes_presented_def tools_presented_def)
  from list_servers_ok [OF this _ a(2)] have ok: "list_ok x env (ssp_server_id ` set approved) acc h1" by simp
  have route: "rt_server_id route \<in> ssp_server_id ` set approved \<and>
      (\<exists>t. presents x env (rt_server_id route) (rt_upstream_tool_name route) (rt_descriptor_hash route) t \<and>
         rename_tool t public_name \<in> set (la_tools acc)) \<and>
      approved_hash (hub_db h') (rt_server_id route) (rt_upstream_tool_name route) (rt_descriptor_hash route)"
    if "router_resolve public_name (hub_router h') = Some route" for public_name route
  proof -
    have "(public_name, route) \<in> set (la_router acc)"
      using that a(3) by (auto simp: router_resolve_def dest: map_of_SomeD)
    then show ?thesis
      using ok a(3)
      by (fastforce simp: list_ok_def routes_approved_def routes_to_def routes_presented_def list_all_iff)
  qed
  have "\<forall>v \<in> set (la_tools acc). \<exists>sid tool hash t q. sid \<in> ssp_server_id ` set approved \<and>
      presents x env sid tool hash t \<and> approved_hash (hub_db h') sid tool hash \<and> v = rename_tool t q"
    using ok a(3) by (simp add: list_ok_def tools_presented_def list_all_iff)
  with a(1,4) route show ?thesis by blast
qed

section \<open>A concrete listing\<close>

text \<open>One approved server that presents one approved tool.\<close>

definition witness_captures :: "string \<Rightarrow> string \<Rightarrow> (span \<times> span option list) list" where
  "witness_captures p s = (if p = SERVER_ID_RE \<and> s = ''fs'' then [((0, length s), [])] else [])"

definition witness_nlx :: ledger_externs where
  "witness_nlx =
     \<lparr>lx_redact = \<lparr>rx_captures_iter = witness_captures, rx_base64_decode = (\<lambda>_ _. None)\<rparr>,
      lx_sha256 = (\<lambda>_. ''d''), lx_hex_encode = (\<lambda>b. b), lx_hex_decode = Some, lx_jcs = (\<lambda>_. Some ''{}''),
      lx_json_from_str = (\<lambda>_. None), lx_effects_to_string = (\<lambda>_. None), lx_effects_from_str = (\<lambda>_. None)\<rparr>"

definition witness_lhx :: "externs \<Rightarrow> hub_externs" where
  "witness_lhx ex =
     \<lparr>hx_ledger = witness_nlx, hx_effects = ex, hx_codec = witness_codec, hx_to_string = (\<lambda>_. None),
      hx_version = ''1'', hx_resolve_program = Inr\<rparr>"

definition witness_lhub :: "firewall \<Rightarrow> hub" where
  "witness_lhub fw =
     (hub_new ((new_registry (new_span_db empty_db))
        \<lparr>reg_servers := [\<lparr>sv_server_id = ''fs'', sv_transport = ''Http'', sv_command_json = None, sv_url = Some ''u'',
           sv_first_seen_at = 1, sv_command_hash = None, sv_descriptor_hash = None, sv_trust_level = ''Limited'',
           sv_sandbox_profile_id = None, sv_pending_command_hash = None, sv_last_drift_at = None,
           sv_pending_command_json = None, sv_resolved_program_path = None, sv_pending_resolved_program_path = None\<rparr>],
         reg_tools := [\<lparr>td_server_id = ''fs'', td_tool_name = ''read'', td_descriptor_hash = ''d'',
           td_first_seen_at = 1, td_approved_at = Some 2, td_pending_hash = None,
           td_last_seen_hash = ''d'', td_last_seen_at = 1, td_last_drift_at = None\<rparr>]\<rparr>)
        fw hub_config_default [])\<lparr>hub_upstreams := [''fs'']\<rparr>"

definition witness_lenv_hub :: "firewall_env \<Rightarrow> hub_env" where
  "witness_lenv_hub fe = witness_henv\<lparr>he_fw := fe, he_reply := \<lambda>_ _ _. Inr (JObject [(''tools'', JArray
     [JObject [(''name'', JString ''read'')]])])\<rparr>"

definition witness_tools_list :: json_rpc_request where
  "witness_tools_list =
     \<lparr>rq_jsonrpc = ''2.0'', rq_id = Some (JNumber ''1''), rq_method = ''tools/list'', rq_params = None\<rparr>"

lemma witness_descriptor: "descriptor_hash witness_nlx ''fs'' ''read'' JNull None JNull = Some ''d''"
  by (simp add: descriptor_hash_def witness_nlx_def)

lemma witness_register: "router_register (lx_redact witness_nlx) ''fs'' ''read'' ''d'' [] =
   (Inr ''fs__read'', [(''fs__read'', \<lparr>rt_public = ''fs__read'', rt_server_id = ''fs'', rt_upstream_tool_name = ''read'', rt_descriptor_hash = ''d''\<rparr>)])"
  by code_simp

lemma witness_pin:
  "fst (pin_tool_descriptor witness_env ''fs'' ''read'' ''d'' (hub_db (witness_lhub fw))) = Inr PO_Unchanged"
  "get_pinned_tool_hash witness_env ''fs'' ''read''
     (snd (pin_tool_descriptor witness_env ''fs'' ''read'' ''d'' (hub_db (witness_lhub fw)))) = Inr (Some ''d'')"
  by code_simp+

lemma witness_approved:
  "map_sum id (map ssp_server_id) (list_approved_servers witness_codec witness_env (hub_db (witness_lhub fw))) = Inr [''fs'']"
  by code_simp

lemma witness_listing:
  "\<exists>resp h'. handle_tools_list (witness_lhx ex) (witness_lenv_hub fe) req (witness_lhub fw) = (Inr resp, h') \<and>
     router_resolve ''fs__read'' (hub_router h') =
       Some \<lparr>rt_public = ''fs__read'', rt_server_id = ''fs'', rt_upstream_tool_name = ''read'', rt_descriptor_hash = ''d''\<rparr>"
proof -
  obtain db where pin: "pin_tool_descriptor witness_env ''fs'' ''read'' ''d'' (hub_db (witness_lhub fw)) = (Inr PO_Unchanged, db)"
    "get_pinned_tool_hash witness_env ''fs'' ''read'' db = Inr (Some ''d'')"
    using witness_pin [of fw] by (metis prod.collapse)
  obtain approved where ap: "list_approved_servers witness_codec witness_env (hub_db (witness_lhub fw)) = Inr approved"
    "map ssp_server_id approved = [''fs'']"
    using witness_approved [of fw] by (cases "list_approved_servers witness_codec witness_env (hub_db (witness_lhub fw))") auto
  have env: "he_at (witness_lenv_hub fe) n = witness_env" "he_item (witness_lenv_hub fe) i j k = witness_env"
    "\<not> he_upstreams_poisoned (witness_lenv_hub fe)" "\<not> he_router_poisoned (witness_lenv_hub fe)"
    "he_reply (witness_lenv_hub fe) s m p = Inr (JObject [(''tools'', JArray [JObject [(''name'', JString ''read'')]])])"
    "hx_codec (witness_lhx ex) = witness_codec" "hx_ledger (witness_lhx ex) = witness_nlx"
    "hub_upstreams (witness_lhub fw) = [''fs'']" for n i j k s m p
    by (simp_all add: witness_lenv_hub_def witness_henv_def witness_lhx_def witness_lhub_def)
  show ?thesis
    by (simp add: handle_tools_list_def env ap list_one_server_def Let_def list_one_tool_def or_null_def
        witness_descriptor pin expose_tool_def list_acc_new_def router_default_def witness_register router_resolve_def
        split: sum.splits prod.splits)
qed

theorem listed_tools_are_approved_witness:
  "approved_hash (hub_db (snd (handle_tools_list (witness_lhx witness_externs) (witness_lenv_hub witness_fenv)
     witness_tools_list (witness_lhub witness_firewall)))) ''fs'' ''read'' ''d'' \<and>
   (\<exists>t. presents (witness_lhx witness_externs) (witness_lenv_hub witness_fenv) ''fs'' ''read'' ''d'' t)"
proof -
  obtain resp h' where l: "handle_tools_list (witness_lhx witness_externs) (witness_lenv_hub witness_fenv) witness_tools_list
      (witness_lhub witness_firewall) = (Inr resp, h')"
    "router_resolve ''fs__read'' (hub_router h') =
       Some \<lparr>rt_public = ''fs__read'', rt_server_id = ''fs'', rt_upstream_tool_name = ''read'', rt_descriptor_hash = ''d''\<rparr>"
    using witness_listing by blast
  have "tools_wf (hub_db (witness_lhub fw))" for fw by code_simp
  from listed_tools_are_approved [OF l(1) this] l(2) show ?thesis by (fastforce simp: l(1))
qed

end
