(* ===== verification/Checkpoint.thy ===== *)
theory Checkpoint
  imports Ledger
begin

text \<open>
  The checkpoint sidecar (crate \<open>vigil-audit\<close>, \<open>checkpoint.rs\<close>): an append-only file beside the
  database that anchors the head of the event chain, and the verification of a ledger against it.
  The file is its content, or nothing when it does not exist. A write may stop after some of
  its bytes. The derived JSON reader and writer of a checkpoint are parameters.
\<close>

section \<open>Definitions\<close>

record checkpoint =
  cp_event_id :: int
  cp_event_hash :: string
  cp_prev_hash :: string
  cp_session_id :: string
  cp_event_type :: string
  cp_created_at :: int
  cp_anchored_at :: int

datatype anchored = Verified nat int | Unanchored

record checkpoint_json =
  cj_to_string :: "checkpoint \<Rightarrow> string option"
  cj_from_str :: "string \<Rightarrow> checkpoint option"

text \<open>\<open>se_short_write = Some n\<close>: the file system takes only the first \<open>n\<close> bytes of the line.\<close>

record sidecar_env =
  se_now :: int
  se_read_fault :: bool
  se_open_fault :: bool
  se_short_write :: "nat option"
  se_sync_fault :: bool

type_synonym sidecar = "string option"

definition sidecar_for :: "string \<Rightarrow> string" where
  "sidecar_for ledger_db_path = ledger_db_path @ ''.checkpoints''"

definition is_valid_event_hash :: "string \<Rightarrow> bool" where
  "is_valid_event_hash s \<longleftrightarrow> length s = 64 \<and> list_all is_lower_hex s"

definition corrupt :: "string \<Rightarrow> audit_error" where
  "corrupt reason = CheckpointStoreCorrupt reason"

text \<open>\<open>str::lines\<close>: split at line feeds, no empty last piece, one carriage return cut off each end.\<close>

fun split_lf :: "string \<Rightarrow> string list" where
  "split_lf [] = [[]]"
| "split_lf (c # cs) =
     (if c = CHR 0x0A then [] # split_lf cs
      else case split_lf cs of [] \<Rightarrow> [[c]] | l # ls \<Rightarrow> (c # l) # ls)"

definition strip_cr :: "string \<Rightarrow> string" where
  "strip_cr s = (if s \<noteq> [] \<and> last s = CHR 0x0D then butlast s else s)"

definition rust_lines :: "string \<Rightarrow> string list" where
  "rust_lines s =
     (let ls = split_lf s in
      map strip_cr (if last ls = [] then butlast ls else ls))"

fun load_lines ::
  "checkpoint_json \<Rightarrow> nat \<Rightarrow> int option \<Rightarrow> string list \<Rightarrow> checkpoint list audit_result" where
  "load_lines cj idx last_id [] = Inr []"
| "load_lines cj idx last_id (line # lines) =
     (let lineno = show_nat (idx + 1) in
      if line = [] then Inl (corrupt (''empty line '' @ lineno))
      else
        case cj_from_str cj line of
          None \<Rightarrow> Inl (corrupt (''malformed checkpoint at line '' @ lineno))
        | Some cp \<Rightarrow>
            if \<not> is_valid_event_hash (cp_event_hash cp) then
              Inl (corrupt (''invalid event_hash at line '' @ lineno))
            else if cp_prev_hash cp \<noteq> [] \<and> \<not> is_valid_event_hash (cp_prev_hash cp) then
              Inl (corrupt (''invalid prev_hash at line '' @ lineno))
            else if cp_event_id cp \<le> 0 then
              Inl (corrupt (''non-positive event_id at line '' @ lineno))
            else if (case last_id of None \<Rightarrow> False | Some prev \<Rightarrow> cp_event_id cp \<le> prev) then
              Inl (corrupt (''non-monotonic event_id at line '' @ lineno @ '' (<= previous)''))
            else
              (case load_lines cj (idx + 1) (Some (cp_event_id cp)) lines of
                 Inl e \<Rightarrow> Inl e
               | Inr cps \<Rightarrow> Inr (cp # cps)))"

definition load ::
  "checkpoint_json \<Rightarrow> sidecar_env \<Rightarrow> sidecar \<Rightarrow> checkpoint list audit_result" where
  "load cj env f =
     (case f of
        None \<Rightarrow> Inr []
      | Some content \<Rightarrow>
          if se_read_fault env then Inl Io
          else if content = [] then Inr []
          else if last content \<noteq> CHR 0x0A then
            Inl (corrupt ''unterminated final line (partial write?)'')
          else load_lines cj 0 None (rust_lines content))"

text \<open>Opening with \<open>create\<close> and \<open>append\<close>, one \<open>write_all\<close>, then the flush and the sync.\<close>

definition append_line :: "sidecar_env \<Rightarrow> string \<Rightarrow> sidecar \<Rightarrow> unit audit_result \<times> sidecar" where
  "append_line env line f =
     (if se_open_fault env then (Inl Io, f)
      else
        let old = (case f of None \<Rightarrow> [] | Some content \<Rightarrow> content) in
        case se_short_write env of
          Some n \<Rightarrow> (if n < length line then (Inl Io, Some (old @ take n line))
                     else if se_sync_fault env then (Inl Io, Some (old @ line))
                     else (Inr (), Some (old @ line)))
        | None \<Rightarrow> if se_sync_fault env then (Inl Io, Some (old @ line)) else (Inr (), Some (old @ line)))"

definition checkpoint_of :: "sidecar_env \<Rightarrow> replay_event \<Rightarrow> checkpoint" where
  "checkpoint_of env head =
     \<lparr>cp_event_id = re_event_id head, cp_event_hash = re_event_hash head,
      cp_prev_hash = re_prev_hash head, cp_session_id = re_session_id head,
      cp_event_type = re_event_type head, cp_created_at = re_created_at head,
      cp_anchored_at = se_now env\<rparr>"

definition emit ::
  "ledger_externs \<Rightarrow> checkpoint_json \<Rightarrow> sidecar_env \<Rightarrow> 'z ledger_scheme \<Rightarrow> sidecar
   \<Rightarrow> checkpoint option audit_result \<times> sidecar" where
  "emit x cj env l f =
     (case head_detail x l of Inl e \<Rightarrow> (Inl e, f) | Inr None \<Rightarrow> (Inr None, f) | Inr (Some head) \<Rightarrow>
      case load cj env f of Inl e \<Rightarrow> (Inl e, f) | Inr existing \<Rightarrow>
      if existing \<noteq> [] \<and> re_event_id head \<le> cp_event_id (last existing) then (Inr None, f)
      else
        let cp = checkpoint_of env head in
        case cj_to_string cj cp of None \<Rightarrow> (Inl Json, f) | Some json_line \<Rightarrow>
        case append_line env (json_line @ [CHR 0x0A]) f of
          (Inl e, f') \<Rightarrow> (Inl e, f')
        | (Inr _, f') \<Rightarrow> (Inr (Some cp), f'))"

definition anchors_row :: "checkpoint \<Rightarrow> replay_event \<Rightarrow> bool" where
  "anchors_row cp row \<longleftrightarrow>
     re_event_hash row = cp_event_hash cp \<and> re_prev_hash row = cp_prev_hash cp \<and>
     re_session_id row = cp_session_id cp \<and> re_event_type row = cp_event_type cp \<and>
     re_created_at row = cp_created_at cp"

fun verify_checkpoints ::
  "ledger_externs \<Rightarrow> 'z ledger_scheme \<Rightarrow> int \<Rightarrow> checkpoint list \<Rightarrow> int audit_result" where
  "verify_checkpoints x l through [] = Inr through"
| "verify_checkpoints x l through (cp # cps) =
     (case get_event_detail x (cp_event_id cp) l of
        Inl e \<Rightarrow> Inl e
      | Inr None \<Rightarrow> Inl (CheckpointMismatch (cp_event_id cp))
      | Inr (Some row) \<Rightarrow>
          if \<not> anchors_row cp row then Inl (CheckpointMismatch (cp_event_id cp))
          else verify_checkpoints x l (max through (cp_event_id cp)) cps)"

definition verify_anchored ::
  "ledger_externs \<Rightarrow> checkpoint_json \<Rightarrow> sidecar_env \<Rightarrow> sidecar \<Rightarrow> 'z ledger_scheme \<Rightarrow> anchored audit_result"
  where
  "verify_anchored x cj env f l =
     (case verify_chain x l of Inl e \<Rightarrow> Inl e | Inr _ \<Rightarrow>
      case load cj env f of Inl e \<Rightarrow> Inl e | Inr checkpoints \<Rightarrow>
      if checkpoints = [] then Inr Unanchored
      else
        case verify_checkpoints x l 0 checkpoints of
          Inl e \<Rightarrow> Inl e
        | Inr through \<Rightarrow> Inr (Verified (length checkpoints) through))"

section \<open>Lines\<close>

lemma split_lf_nonempty [simp]: "split_lf s \<noteq> []"
  by (cases s) (auto split: list.splits)

lemma split_lf_line: "CHR 0x0A \<notin> set line \<Longrightarrow> split_lf (line @ CHR 0x0A # rest) = line # split_lf rest"
  by (induction line) auto

lemma split_lf_single: "split_lf s = [a] \<Longrightarrow> CHR 0x0A \<notin> set s"
  by (induction s arbitrary: a) (auto split: if_splits list.splits)

lemma split_lf_append:
  "s = [] \<or> last s = CHR 0x0A \<Longrightarrow> split_lf (s @ t) = butlast (split_lf s) @ split_lf t"
proof (induction s)
  case (Cons c s)
  show ?case
  proof (cases "s = []")
    case True
    then show ?thesis using Cons.prems by simp
  next
    case False
    then have "last s = CHR 0x0A" using Cons.prems by simp
    then have "CHR 0x0A \<in> set s" using False by (metis last_in_set)
    then obtain a b ls where "split_lf s = a # b # ls"
      using split_lf_single [of s] by (metis list.exhaust split_lf_nonempty)
    then show ?thesis using Cons.IH \<open>last s = CHR 0x0A\<close> by simp
  qed
qed simp

lemma rust_lines_snoc:
  assumes "old = [] \<or> last old = CHR 0x0A" "CHR 0x0A \<notin> set line" "line \<noteq> []" "last line \<noteq> CHR 0x0D"
  shows "rust_lines (old @ line @ [CHR 0x0A]) = rust_lines old @ [line]"
proof -
  have "last (split_lf old) = []"
    using split_lf_append [OF assms(1), of "[]"]
    by (cases "split_lf old" rule: rev_cases) simp_all
  moreover have "split_lf (old @ line @ [CHR 0x0A]) = butlast (split_lf old) @ [line, []]"
    using split_lf_append [OF assms(1)] split_lf_line [OF assms(2), of "[]"] by simp
  ultimately show ?thesis
    using assms(3,4) by (simp add: rust_lines_def butlast_append strip_cr_def)
qed

section \<open>Loading what was emitted\<close>

text \<open>
  What is assumed of the derived coding of a checkpoint: the writer's text is one nonempty line,
  not ended by a carriage return, and the reader reads it back.
\<close>

definition checkpoint_json_ok :: "checkpoint_json \<Rightarrow> bool" where
  "checkpoint_json_ok cj \<longleftrightarrow>
     (\<forall>cp line. cj_to_string cj cp = Some line \<longrightarrow>
        cj_from_str cj line = Some cp \<and> line \<noteq> [] \<and> CHR 0x0A \<notin> set line \<and> last line \<noteq> CHR 0x0D)"

definition valid_checkpoint :: "checkpoint \<Rightarrow> bool" where
  "valid_checkpoint cp \<longleftrightarrow>
     is_valid_event_hash (cp_event_hash cp) \<and>
     (cp_prev_hash cp = [] \<or> is_valid_event_hash (cp_prev_hash cp)) \<and> 0 < cp_event_id cp"

lemma load_lines_snoc:
  assumes "load_lines cj idx last_id lines = Inr cps" "line \<noteq> []" "cj_from_str cj line = Some cp"
    "valid_checkpoint cp"
    "case (if cps = [] then last_id else Some (cp_event_id (last cps))) of
       None \<Rightarrow> True | Some prev \<Rightarrow> prev < cp_event_id cp"
  shows "load_lines cj idx last_id (lines @ [line]) = Inr (cps @ [cp])"
  using assms
proof (induction cj idx last_id lines arbitrary: cps rule: load_lines.induct)
  case (1 cj idx last_id)
  then show ?case by (auto simp: valid_checkpoint_def Let_def split: option.splits)
next
  case (2 cj idx last_id l lines)
  obtain c where c: "cj_from_str cj l = Some c"
    using "2.prems"(1) by (auto simp: Let_def split: if_splits option.splits)
  obtain cps' where cps': "load_lines cj (idx + 1) (Some (cp_event_id c)) lines = Inr cps'" "cps = c # cps'"
    using "2.prems"(1) c by (auto simp: Let_def split: if_splits sum.splits)
  have "load_lines cj (idx + 1) (Some (cp_event_id c)) (lines @ [line]) = Inr (cps' @ [cp])"
    using "2.prems" c cps' by (intro "2.IH") (auto simp: Let_def split: if_splits)
  then show ?case using "2.prems"(1) c cps' by (auto simp: Let_def split: if_splits)
qed

definition sidecar_text :: "sidecar \<Rightarrow> string" where
  "sidecar_text f = (case f of None \<Rightarrow> [] | Some content \<Rightarrow> content)"

lemma load_iff:
  assumes "\<not> se_read_fault env"
  shows "load cj env f =
    (if sidecar_text f = [] \<or> last (sidecar_text f) = CHR 0x0A
     then load_lines cj 0 None (rust_lines (sidecar_text f))
     else Inl (corrupt ''unterminated final line (partial write?)''))"
  using assms by (cases f) (auto simp: load_def sidecar_text_def rust_lines_def)

lemma last_take_line:
  assumes "CHR 0x0A \<notin> set line" "0 < n" "n < length (line @ [CHR 0x0A])"
  shows "last (take n (line @ [CHR 0x0A])) \<noteq> CHR 0x0A" "take n (line @ [CHR 0x0A]) \<noteq> []"
proof -
  have "take n (line @ [CHR 0x0A]) = take n line" "take n line \<noteq> []" using assms by auto
  moreover have "last (take n line) \<in> set line"
    using \<open>take n line \<noteq> []\<close> by (meson in_set_takeD last_in_set)
  ultimately show "last (take n (line @ [CHR 0x0A])) \<noteq> CHR 0x0A" "take n (line @ [CHR 0x0A]) \<noteq> []"
    using assms(1) by auto
qed

text \<open>The three contents an append can leave: the old one, the old one and the line, a torn line.\<close>

lemma append_line_text:
  assumes "append_line env line f = (res, f')"
  shows "sidecar_text f' = sidecar_text f @ line \<or>
    res = Inl Io \<and> (\<exists>n < length line. sidecar_text f' = sidecar_text f @ take n line)"
proof (cases "se_open_fault env")
  case True
  then have "res = Inl Io" "f' = f" using assms by (auto simp: append_line_def)
  then show ?thesis by (cases line) (auto intro!: exI [of _ 0])
next
  case False
  then show ?thesis
    using assms
    by (auto simp: append_line_def sidecar_text_def Let_def split: option.splits if_splits intro: exI)
qed

lemma load_after_append:
  assumes "\<not> se_read_fault env" "load cj env f = Inr cps" "cj_from_str cj line = Some cp"
    "line \<noteq> []" "CHR 0x0A \<notin> set line" "last line \<noteq> CHR 0x0D" "valid_checkpoint cp"
    "cps = [] \<or> cp_event_id (last cps) < cp_event_id cp"
    "append_line env (line @ [CHR 0x0A]) f = (res, f')"
  shows "load cj env f' = Inr (cps @ [cp]) \<or>
    res = Inl Io \<and> load cj env f' \<in> {Inr cps, Inl (corrupt ''unterminated final line (partial write?)'')}"
proof -
  have old: "sidecar_text f = [] \<or> last (sidecar_text f) = CHR 0x0A"
    "load_lines cj 0 None (rust_lines (sidecar_text f)) = Inr cps"
    using assms(2) unfolding load_iff [OF assms(1)] by (auto simp: corrupt_def split: if_splits)
  from append_line_text [OF assms(9)] consider
    (full) "sidecar_text f' = sidecar_text f @ line @ [CHR 0x0A]"
    | (nothing) "res = Inl Io" "sidecar_text f' = sidecar_text f"
    | (torn) n where "res = Inl Io" "0 < n" "n < length (line @ [CHR 0x0A])"
      "sidecar_text f' = sidecar_text f @ take n (line @ [CHR 0x0A])"
    by (metis append.right_neutral gr0I take0)
  then show ?thesis
  proof cases
    case full
    have "load_lines cj 0 None (rust_lines (sidecar_text f')) = Inr (cps @ [cp])"
      unfolding full rust_lines_snoc [OF old(1) assms(5,4,6)]
      by (rule load_lines_snoc [OF old(2) assms(4,3,7)]) (use assms(8) in auto)
    then show ?thesis by (simp add: load_iff [OF assms(1)] full)
  next
    case nothing
    then show ?thesis using old by (simp add: load_iff [OF assms(1)])
  next
    case torn
    then show ?thesis
      using last_take_line [OF assms(5) torn(2,3)] by (simp add: load_iff [OF assms(1)])
  qed
qed

section \<open>Anchored rows\<close>

text \<open>Row ids are a primary key and the table is read in their order.\<close>

definition ids_increase :: "event_row list \<Rightarrow> bool" where
  "ids_increase rows \<longleftrightarrow> sorted_wrt (<) (map er_event_id rows)"

lemma fold_max_sorted:
  "sorted_wrt (<) (a # map er_event_id rows) \<Longrightarrow>
   fold (max \<circ> er_event_id) rows a = last (a # map er_event_id rows)"
  by (induction rows arbitrary: a) (auto simp: max_def)

lemma latest_event_id_last:
  "ids_increase (led_events l) \<Longrightarrow> led_events l \<noteq> [] \<Longrightarrow>
   latest_event_id l = Some (er_event_id (last (led_events l)))"
  using fold_max_sorted [of "er_event_id (hd (led_events l))" "tl (led_events l)"]
  by (cases "led_events l") (auto simp: latest_event_id_def ids_increase_def last_map)

lemma find_id:
  "ids_increase rows \<Longrightarrow> r \<in> set rows \<Longrightarrow> find (\<lambda>q. er_event_id q = er_event_id r) rows = Some r"
  by (induction rows) (auto simp: ids_increase_def)

lemma event_detail_fields:
  assumes "event_detail x r = Inr ev"
  shows "re_event_id ev = er_event_id r" "re_event_hash ev = er_event_hash r"
  using assms by (auto simp: event_detail_def to_replay_event_def split: option.splits)

lemma get_event_detail_Some:
  "get_event_detail x i l = Inr (Some ev) \<Longrightarrow>
   \<exists>r \<in> set (led_events l). er_event_id r = i \<and> event_detail x r = Inr ev"
  by (auto simp: get_event_detail_def find_Some_iff split: option.splits sum.splits)

lemma head_detail_last:
  assumes "ids_increase (led_events l)" "head_detail x l = Inr (Some head)"
  shows "led_events l \<noteq> [] \<and> re_event_id head = er_event_id (last (led_events l)) \<and>
    re_event_hash head = er_event_hash (last (led_events l))"
proof -
  have ne: "led_events l \<noteq> []" using assms(2) by (auto simp: head_detail_def latest_event_id_def)
  then have "get_event_detail x (er_event_id (last (led_events l))) l = Inr (Some head)"
    using assms by (simp add: head_detail_def latest_event_id_last)
  then have "event_detail x (last (led_events l)) = Inr head"
    using find_id [OF assms(1), of "last (led_events l)"] ne
    by (auto simp: get_event_detail_def split: sum.splits)
  then show ?thesis using ne event_detail_fields by blast
qed

lemma verify_checkpoints_each:
  "verify_checkpoints x l t cps = Inr t' \<Longrightarrow> cp \<in> set cps \<Longrightarrow>
   \<exists>row. get_event_detail x (cp_event_id cp) l = Inr (Some row) \<and> anchors_row cp row"
  by (induction x l t cps rule: verify_checkpoints.induct)
    (auto split: sum.splits option.splits if_splits)

lemma prefix_up_to:
  assumes "ids_increase rows" "r \<in> set rows"
  obtains rest where "rows = takeWhile (\<lambda>q. er_event_id q \<le> er_event_id r) rows @ rest"
    "takeWhile (\<lambda>q. er_event_id q \<le> er_event_id r) rows \<noteq> []"
    "last (takeWhile (\<lambda>q. er_event_id q \<le> er_event_id r) rows) = r"
proof -
  obtain xs ys where rows: "rows = xs @ r # ys" using assms(2) by (meson split_list)
  have "\<forall>q \<in> set xs. er_event_id q < er_event_id r" "\<forall>q \<in> set ys. er_event_id r < er_event_id q"
    using assms(1) by (auto simp: rows ids_increase_def sorted_wrt_append)
  then have "takeWhile (\<lambda>q. er_event_id q \<le> er_event_id r) rows = xs @ [r]"
    unfolding rows by (cases ys) (auto simp: takeWhile_append)
  then show thesis using that [of ys] by (simp add: rows)
qed

section \<open>Properties\<close>

text \<open>A ledger of one event whose digest is 64 hexadecimal digits, and the coding of its checkpoint.\<close>

definition witness_cx :: ledger_externs where
  "witness_cx = witness_lx\<lparr>lx_sha256 := (\<lambda>_. replicate 32 (CHR ''a''))\<rparr>"

definition witness_hex_row :: event_row where
  "witness_hex_row = (witness_row ''s'')\<lparr>er_event_hash := replicate 64 (CHR ''a'')\<rparr>"

definition witness_hex_ledger :: ledger where
  "witness_hex_ledger = empty_ledger\<lparr>led_events := [witness_hex_row]\<rparr>"

definition witness_senv :: sidecar_env where
  "witness_senv = \<lparr>se_now = 8, se_read_fault = False, se_open_fault = False, se_short_write = None,
     se_sync_fault = False\<rparr>"

definition witness_head :: replay_event where
  "witness_head =
     \<lparr>re_event_id = 1, re_session_id = ''s'', re_event_type = ''note'', re_payload = JObject [],
      re_redacted_text = None, re_event_hash = replicate 64 (CHR ''a''), re_prev_hash = [],
      re_created_at = 7\<rparr>"

definition witness_cj :: checkpoint_json where
  "witness_cj =
     \<lparr>cj_to_string = (\<lambda>cp. if cp = checkpoint_of witness_senv witness_head then Some ''c'' else None),
      cj_from_str = (\<lambda>s. if s = ''c'' then Some (checkpoint_of witness_senv witness_head) else None)\<rparr>"

lemma witness_cj_ok: "checkpoint_json_ok witness_cj"
  by (simp add: checkpoint_json_ok_def witness_cj_def)

lemma witness_head_detail: "head_detail witness_cx witness_hex_ledger = Inr (Some witness_head)"
  by (simp add: head_detail_def latest_event_id_def witness_hex_ledger_def get_event_detail_def
      event_detail_def to_replay_event_def witness_hex_row_def witness_row_def witness_cx_def
      witness_lx_def witness_head_def)

lemma witness_checkpoint_valid: "valid_checkpoint (checkpoint_of witness_senv witness_head)"
proof -
  have "is_lower_hex (CHR ''a'')" by code_simp
  then show ?thesis
    by (simp add: valid_checkpoint_def checkpoint_of_def witness_head_def is_valid_event_hash_def list_all_iff)
qed

lemma witness_emit:
  "emit witness_cx witness_cj witness_senv witness_hex_ledger None =
     (Inr (Some (checkpoint_of witness_senv witness_head)), Some [CHR ''c'', CHR 0x0A])"
  unfolding emit_def witness_head_detail
  by (simp add: load_def witness_cj_def append_line_def witness_senv_def)


text \<open>
  A checkpoint that \<open>emit\<close> reports as written is read back, after all earlier ones, by every later
  load. When \<open>emit\<close> fails, at whatever byte the write stopped, a later load gives the earlier
  checkpoints, or those and the new one, or refuses the file as torn: it never reads part of a record.
\<close>

lemma emitted_checkpoint_loads:
  assumes "checkpoint_json_ok cj" "\<not> se_read_fault env" "load cj env f = Inr cps"
    "head_detail x l = Inr (Some head)" "valid_checkpoint (checkpoint_of env head)"
    "emit x cj env l f = (res, f')"
  shows "case res of
      Inr None \<Rightarrow> f' = f
    | Inr (Some cp) \<Rightarrow> cp = checkpoint_of env head \<and> load cj env f' = Inr (cps @ [cp])
    | Inl _ \<Rightarrow> load cj env f' \<in> {Inr cps, Inr (cps @ [checkpoint_of env head]),
                               Inl (corrupt ''unterminated final line (partial write?)'')}"
proof (cases "cps \<noteq> [] \<and> re_event_id head \<le> cp_event_id (last cps) \<or>
    cj_to_string cj (checkpoint_of env head) = None")
  case True
  then show ?thesis using assms(3,4,6) by (auto simp: emit_def Let_def split: if_splits option.splits)
next
  case False
  then obtain line where line: "cj_to_string cj (checkpoint_of env head) = Some line" by auto
  then have ok: "cj_from_str cj line = Some (checkpoint_of env head)" "line \<noteq> []" "CHR 0x0A \<notin> set line"
    "last line \<noteq> CHR 0x0D" using assms(1) by (simp_all add: checkpoint_json_ok_def)
  obtain r where r: "append_line env (line @ [CHR 0x0A]) f = (r, f')"
    "res = (case r of Inl e \<Rightarrow> Inl e | Inr _ \<Rightarrow> Inr (Some (checkpoint_of env head)))"
    using assms(3,4,6) False line
    by (auto simp: emit_def Let_def split: prod.splits sum.splits)
  have "cps = [] \<or> cp_event_id (last cps) < cp_event_id (checkpoint_of env head)"
    using False by (auto simp: checkpoint_of_def)
  from load_after_append [OF assms(2,3) ok assms(5) this r(1)] show ?thesis
    using r(2) by (cases r) auto
qed

lemma emitted_checkpoint_loads_example:
  "load witness_cj witness_senv (Some [CHR ''c'', CHR 0x0A]) =
     Inr ([] @ [checkpoint_of witness_senv witness_head])"
proof -
  have "\<not> se_read_fault witness_senv" "load witness_cj witness_senv None = Inr []"
    by (simp_all add: witness_senv_def load_def)
  from emitted_checkpoint_loads [OF witness_cj_ok this witness_head_detail witness_checkpoint_valid
      witness_emit] show ?thesis by simp
qed

text \<open>
  C27. An anchored history cannot be rewritten: if the sidecar still holds a checkpoint that was
  emitted on a verified ledger, and a later ledger passes the anchored verification, then the later
  ledger's events up to the anchored one are, column by column of what the digests bind, the
  whole history the checkpoint was taken of, unless two of the digests involved collide. The
  chain alone does not give this: a consistently rewritten chain passes its own verification.
\<close>

theorem anchored_history_is_kept:
  assumes "hash_ok x" "no_collision x (led_events l @ led_events l')"
    "list_all (row_sizes_ok x) (led_events l @ led_events l')"
    "ids_increase (led_events l)" "ids_increase (led_events l')"
    "verify_chain x l = Inr ()" "emit x cj env l f = (Inr (Some cp), f1)"
    "load cj env2 f2 = Inr cps" "cp \<in> set cps" "verify_anchored x cj env2 f2 l' = Inr (Verified n through)"
  shows "map (bound_view x) (led_events l) =
    map (bound_view x) (takeWhile (\<lambda>r. er_event_id r \<le> cp_event_id cp) (led_events l')) \<and>
    n = length cps"
proof -
  obtain head where head: "head_detail x l = Inr (Some head)" "cp = checkpoint_of env head"
    using assms(7) by (auto simp: emit_def Let_def split: sum.splits option.splits if_splits prod.splits)
  have last: "led_events l \<noteq> []" "cp_event_hash cp = er_event_hash (last (led_events l))"
    using head_detail_last [OF assms(4) head(1)] by (simp_all add: head(2) checkpoint_of_def)
  have v: "verify_chain x l' = Inr ()" "verify_checkpoints x l' 0 cps = Inr through" "n = length cps"
    using assms(8,9,10) by (auto simp: verify_anchored_def split: sum.splits if_splits)
  obtain row where row: "get_event_detail x (cp_event_id cp) l' = Inr (Some row)" "anchors_row cp row"
    using verify_checkpoints_each [OF v(2) assms(9)] by blast
  obtain r where r: "r \<in> set (led_events l')" "er_event_id r = cp_event_id cp" "event_detail x r = Inr row"
    using get_event_detail_Some [OF row(1)] by blast
  have hash: "er_event_hash r = cp_event_hash cp"
    using row(2) event_detail_fields [OF r(3)] by (simp add: anchors_row_def)
  let ?pre = "takeWhile (\<lambda>q. er_event_id q \<le> er_event_id r) (led_events l')"
  obtain rest where pre: "led_events l' = ?pre @ rest" "?pre \<noteq> []" "last ?pre = r"
    using prefix_up_to [OF assms(5) r(1)] .
  have "verify_rows x [] 1 ?pre = Inr ()"
    using v(1) unfolding verify_chain_def by (subst (asm) pre(1)) (simp add: verify_rows_append)
  moreover have "tip [] (led_events l) = tip [] ?pre" using last hash pre by (simp add: tip_def)
  moreover have "set ?pre \<subseteq> set (led_events l @ led_events l')" by (auto dest: set_takeWhileD)
  ultimately have "map (bound_view x) (led_events l) = map (bound_view x) ?pre"
    using assms(3,6)
    by (intro same_tip_same_views [OF assms(1,2)]) (auto simp: list_all_iff verify_chain_def)
  then show ?thesis using v(3) r(2) by simp
qed

theorem anchored_history_is_kept_witness:
  "map (bound_view witness_cx) (led_events witness_hex_ledger) =
    map (bound_view witness_cx)
      (takeWhile (\<lambda>r. er_event_id r \<le> cp_event_id (checkpoint_of witness_senv witness_head))
        (led_events witness_hex_ledger)) \<and>
   1 = length [checkpoint_of witness_senv witness_head]"
proof -
  let ?pre = "DOMAIN_TAG @ chain_fields GENESIS_PREV_HASH_BYTES ''{}'' 7"
  let ?rows = "led_events witness_hex_ledger @ led_events witness_hex_ledger"
  let ?cps = "[checkpoint_of witness_senv witness_head]"
  have pre: "preimage witness_cx witness_hex_row = Some ?pre"
    by (simp add: preimage_def witness_hex_row_def witness_row_def parse_prev_hash_def witness_cx_def
        witness_lx_def)
  have ok: "hash_ok witness_cx" by (simp add: hash_ok_def witness_cx_def witness_lx_def)
  have "{p. Some p \<in> preimage witness_cx ` set ?rows} = {?pre}"
    by (simp add: witness_hex_ledger_def pre)
  then have nc: "no_collision witness_cx ?rows"
    by (simp add: no_collision_def witness_cx_def GENESIS_PREV_HASH_BYTES_def)
  have sizes: "list_all (row_sizes_ok witness_cx) ?rows"
    by (simp add: witness_hex_ledger_def row_sizes_ok_def witness_hex_row_def witness_row_def
        fits_u64_def i64_range_def witness_cx_def witness_lx_def)
  have ids: "ids_increase (led_events witness_hex_ledger)"
    by (simp add: ids_increase_def witness_hex_ledger_def)
  have ver: "verify_chain witness_cx witness_hex_ledger = Inr ()"
    by (simp add: verify_chain_def witness_hex_ledger_def verify_rows_Cons linked_def pre
        del: verify_rows.simps(2))
      (simp add: witness_hex_row_def witness_row_def witness_cx_def witness_lx_def flip: replicate_add)
  have ld: "load witness_cj witness_senv (Some [CHR ''c'', CHR 0x0A]) = Inr ?cps"
    using witness_checkpoint_valid
    by (simp add: load_def witness_senv_def rust_lines_def strip_cr_def witness_cj_def valid_checkpoint_def Let_def)
  have "get_event_detail witness_cx (cp_event_id (checkpoint_of witness_senv witness_head))
      witness_hex_ledger = Inr (Some witness_head)"
    using witness_head_detail
    by (simp add: head_detail_def latest_event_id_def witness_hex_ledger_def checkpoint_of_def
        witness_head_def witness_hex_row_def witness_row_def)
  then have va: "verify_anchored witness_cx witness_cj witness_senv (Some [CHR ''c'', CHR 0x0A])
      witness_hex_ledger = Inr (Verified 1 (max 0 (cp_event_id (checkpoint_of witness_senv witness_head))))"
    by (simp add: verify_anchored_def ver ld anchors_row_def checkpoint_of_def)
  show ?thesis
    by (rule anchored_history_is_kept [OF ok nc sizes ids ids ver witness_emit ld _ va]) simp
qed

end
