(* ===== verification/Serve.thy ===== *)
theory Serve
  imports Hub_List Checkpoint
begin

text \<open>
  The gateway process (\<open>apps/vigil-hub-cli/src/serve.rs\<close>): how it chooses the engines, checks the
  upstreams' configuration, reads the secrets behind the aliases, builds the hub, and runs the loop
  over standard input and output. The default build is modelled, without the feature \<open>ort\<close>. Parsing
  of URLs (crate \<open>url\<close>), DNS, the process environment, the key ring, the HTTP client and \<open>serde\<close> are
  parameters.
\<close>

unbundle bit_operations_syntax

section \<open>Errors\<close>

datatype serve_error =
    SE_Audit audit_error
  | SE_Hub hub_error
  | SE_Io
  | SE_Protocol protocol_error
  | SE_Json
  | SE_InvalidUpstream string string
  | SE_InvalidSecretDecl string string
  | SE_PrivacyFilterUnavailable
  | SE_InjectionClassifierUnavailable

section \<open>Engine selection\<close>

datatype engine_mode = EM_Hardfp | EM_Ml | EM_Auto

fun engine_mode_str :: "engine_mode \<Rightarrow> string" where
  "engine_mode_str EM_Hardfp = ''hardfp''"
| "engine_mode_str EM_Ml = ''ml''"
| "engine_mode_str EM_Auto = ''auto''"

record engine_selection =
  es_privacy_filter :: bool
  es_injection_classifier :: bool

definition resolve_engine_selection ::
  "engine_mode option \<Rightarrow> bool \<Rightarrow> bool \<Rightarrow> bool \<Rightarrow> bool \<Rightarrow> bool \<Rightarrow> engine_selection" where
  "resolve_engine_selection engine ort_compiled pf_ready ic_ready bare_privacy bare_injection =
     (case engine of
        None \<Rightarrow> \<lparr>es_privacy_filter = bare_privacy, es_injection_classifier = bare_injection\<rparr>
      | Some EM_Hardfp \<Rightarrow> \<lparr>es_privacy_filter = False, es_injection_classifier = False\<rparr>
      | Some EM_Ml \<Rightarrow> \<lparr>es_privacy_filter = True, es_injection_classifier = True\<rparr>
      | Some EM_Auto \<Rightarrow>
          if ort_compiled then \<lparr>es_privacy_filter = pf_ready, es_injection_classifier = ic_ready\<rparr>
          else \<lparr>es_privacy_filter = False, es_injection_classifier = False\<rparr>)"

section \<open>Upstream entries\<close>

datatype http_auth = HA_None | HA_Bearer string | HA_OAuth string string

datatype http_transport_hint = Streamable | LegacySse

datatype upstream_entry =
    UE_Stdio string "string list"
  | UE_Http string string http_auth "http_transport_hint option"

record upstream_entry_raw =
  ur_name :: string
  ur_argv :: "string list option"
  ur_url :: "string option"
  ur_auth :: "http_auth option"
  ur_transport_hint :: "http_transport_hint option"

text \<open>The hand-written \<open>Deserialize\<close>: exactly one of \<open>argv\<close> and \<open>url\<close>; \<open>Inl\<close> is the message.\<close>

definition deserialize_entry :: "upstream_entry_raw \<Rightarrow> string + upstream_entry" where
  "deserialize_entry raw =
     (case (ur_argv raw, ur_url raw) of
        (Some argv, None) \<Rightarrow>
          if ur_auth raw \<noteq> None \<or> ur_transport_hint raw \<noteq> None then
            Inl ''`auth`/`transport_hint` are only valid for http upstreams (this entry has `argv` = stdio)''
          else Inr (UE_Stdio (ur_name raw) argv)
      | (None, Some url) \<Rightarrow>
          Inr (UE_Http (ur_name raw) url (case ur_auth raw of None \<Rightarrow> HA_None | Some a \<Rightarrow> a) (ur_transport_hint raw))
      | (Some _, Some _) \<Rightarrow>
          Inl ''upstream entry has both `argv` (stdio) and `url` (http); specify exactly one''
      | (None, None) \<Rightarrow> Inl ''upstream entry needs either `argv` (stdio) or `url` (http)'')"

section \<open>Secrets behind aliases\<close>

record secret_decl =
  sd_source :: string
  sd_server :: string

record upstreams_config =
  uc_upstreams :: "upstream_entry list"
  uc_secrets :: "(string \<times> secret_decl) list"

record secret_sources =
  ss_env_var :: "string \<Rightarrow> string option"
  ss_keyring_get :: "string \<Rightarrow> string \<Rightarrow> string + string"

fun str_split_once :: "char \<Rightarrow> string \<Rightarrow> (string \<times> string) option" where
  "str_split_once c [] = None"
| "str_split_once c (x # s) =
     (if x = c then Some ([], s)
      else (case str_split_once c s of None \<Rightarrow> None | Some (a, b) \<Rightarrow> Some (x # a, b)))"

definition resolve_secret_source :: "secret_sources \<Rightarrow> string \<Rightarrow> string \<Rightarrow> serve_error + string" where
  "resolve_secret_source ss name source =
     (let bad = (\<lambda>reason. Inl (SE_InvalidSecretDecl name reason)) in
      case str_strip_prefix source ''env:'' of
        Some var \<Rightarrow>
          if var = [] then bad ''empty env var name (expected `env:<VAR>`)''
          else
            (case ss_env_var ss var of
               None \<Rightarrow> bad ''environment variable referenced by `env:` source is not set''
             | Some v \<Rightarrow> Inr v)
      | None \<Rightarrow>
          (case str_strip_prefix source ''keyring:'' of
             Some rest \<Rightarrow>
               (case str_split_once (CHR ''/'') rest of
                  None \<Rightarrow> bad ''keyring source must be `keyring:<service>/<account>`''
                | Some (service, account) \<Rightarrow>
                    if service = [] \<or> account = [] then
                      bad ''keyring source must be `keyring:<service>/<account>` (non-empty)''
                    else
                      (case ss_keyring_get ss service account of
                         Inl e \<Rightarrow> bad (''keyring read failed: '' @ e)
                       | Inr v \<Rightarrow> Inr v))
           | None \<Rightarrow>
               if str_starts_with source ''literal:'' then
                 bad ''`literal:` source is refused (secrets-in-config is an anti-pattern; use `env:` or `keyring:`)''
               else
                 bad ''unknown secret source scheme (expected `env:<VAR>` or `keyring:<service>/<account>`)''))"

fun build_secret_aliases ::
  "secret_sources \<Rightarrow> (string \<times> secret_decl) list \<Rightarrow> secret_alias_map \<Rightarrow> serve_error + secret_alias_map" where
  "build_secret_aliases ss [] m = Inr m"
| "build_secret_aliases ss ((name, decl) # ds) m =
     (if str_trim (sd_server decl) = [] then
        Inl (SE_InvalidSecretDecl name
          ''missing required `server` scope (Slice 2 requires every alias to name a server)'')
      else
        (case resolve_secret_source ss name (sd_source decl) of
           Inl e \<Rightarrow> Inl e
         | Inr v \<Rightarrow> build_secret_aliases ss ds (alias_insert name v (sd_server decl) m)))"

definition build_secret_alias_map ::
  "secret_sources \<Rightarrow> (string \<times> secret_decl) list \<Rightarrow> serve_error + secret_alias_map" where
  "build_secret_alias_map ss secrets = build_secret_aliases ss secrets []"

section \<open>Addresses and URLs\<close>

type_synonym u16 = "16 word"

datatype ipv4 = IPv4 u8 u8 u8 u8

datatype ipv6 = IPv6 u16 u16 u16 u16 u16 u16 u16 u16

datatype ip_addr = V4 ipv4 | V6 ipv6

text \<open>The predicates of \<open>std::net\<close>.\<close>

fun v4_is_private :: "ipv4 \<Rightarrow> bool" where
  "v4_is_private (IPv4 a b c d) \<longleftrightarrow> a = 10 \<or> (a = 172 \<and> 16 \<le> b \<and> b \<le> 31) \<or> (a = 192 \<and> b = 168)"

fun v4_is_link_local :: "ipv4 \<Rightarrow> bool" where
  "v4_is_link_local (IPv4 a b c d) \<longleftrightarrow> a = 169 \<and> b = 254"

fun v4_is_unspecified :: "ipv4 \<Rightarrow> bool" where
  "v4_is_unspecified (IPv4 a b c d) \<longleftrightarrow> a = 0 \<and> b = 0 \<and> c = 0 \<and> d = 0"

fun v4_is_broadcast :: "ipv4 \<Rightarrow> bool" where
  "v4_is_broadcast (IPv4 a b c d) \<longleftrightarrow> a = 255 \<and> b = 255 \<and> c = 255 \<and> d = 255"

fun is_loopback :: "ip_addr \<Rightarrow> bool" where
  "is_loopback (V4 (IPv4 a b c d)) \<longleftrightarrow> a = 127"
| "is_loopback (V6 v6) \<longleftrightarrow> v6 = IPv6 0 0 0 0 0 0 0 1"

definition hi_byte :: "u16 \<Rightarrow> u8" where
  "hi_byte w = ucast (drop_bit 8 w)"

definition lo_byte :: "u16 \<Rightarrow> u8" where
  "lo_byte w = ucast w"

fun to_ipv4 :: "ipv6 \<Rightarrow> ipv4 option" where
  "to_ipv4 (IPv6 s0 s1 s2 s3 s4 s5 ab cd) =
     (if s0 = 0 \<and> s1 = 0 \<and> s2 = 0 \<and> s3 = 0 \<and> s4 = 0 \<and> (s5 = 0 \<or> s5 = 0xFFFF) then
        Some (IPv4 (hi_byte ab) (lo_byte ab) (hi_byte cd) (lo_byte cd))
      else None)"

fun blocked_v4 :: "ipv4 \<Rightarrow> bool" where
  "blocked_v4 (IPv4 a b c d) \<longleftrightarrow>
     v4_is_private (IPv4 a b c d) \<or> v4_is_link_local (IPv4 a b c d) \<or> v4_is_unspecified (IPv4 a b c d) \<or>
     v4_is_broadcast (IPv4 a b c d) \<or> a = 0 \<or> (a = 100 \<and> b AND 0xC0 = 0x40)"

fun blocked_v6 :: "ipv6 \<Rightarrow> bool" where
  "blocked_v6 (IPv6 s0 s1 s2 s3 s4 s5 s6 s7) \<longleftrightarrow>
     IPv6 s0 s1 s2 s3 s4 s5 s6 s7 = IPv6 0 0 0 0 0 0 0 0 \<or> s0 AND 0xFFC0 = 0xFE80 \<or> s0 AND 0xFE00 = 0xFC00 \<or>
     (s0 = 0x0064 \<and> s1 = 0xFF9B)"

function is_blocked_ssrf_ip :: "ip_addr \<Rightarrow> bool" where
  "is_blocked_ssrf_ip (V4 v4) \<longleftrightarrow> \<not> is_loopback (V4 v4) \<and> blocked_v4 v4"
| "is_blocked_ssrf_ip (V6 v6) \<longleftrightarrow>
     \<not> is_loopback (V6 v6) \<and>
     (case to_ipv4 v6 of Some v4 \<Rightarrow> is_blocked_ssrf_ip (V4 v4) | None \<Rightarrow> blocked_v6 v6)"
  by pat_completeness auto

termination
  by (relation "measure (\<lambda>ip. case ip of V4 _ \<Rightarrow> 0 | V6 _ \<Rightarrow> 1)") auto

datatype url_host = Host_Ipv4 ipv4 | Host_Ipv6 ipv6 | Host_Domain string

record parsed_url =
  pu_scheme :: string
  pu_host_str :: "string option"
  pu_host :: "url_host option"
  pu_port :: "nat option"
  pu_port_or_known_default :: "nat option"
  pu_origin :: string

record net_externs =
  nx_parse :: "string \<Rightarrow> parsed_url option"
  nx_resolve :: "string \<Rightarrow> nat \<Rightarrow> ip_addr list option"

definition LOOPBACK_HOSTS :: "string list" where
  "LOOPBACK_HOSTS = [''127.0.0.1'', ''localhost'', ''::1'', ''[::1]'', ''0:0:0:0:0:0:0:1'']"

definition SSRF_REASON :: string where
  "SSRF_REASON = ''upstream url resolves to a private/link-local/reserved IP (SSRF guard)''"

definition check_scheme :: "string \<Rightarrow> parsed_url \<Rightarrow> serve_error + unit" where
  "check_scheme name u =
     (let host = (case pu_host_str u of None \<Rightarrow> [] | Some h \<Rightarrow> h) in
      if pu_scheme u = ''https'' then Inr ()
      else if pu_scheme u = ''http'' then
        (if host \<in> set LOOPBACK_HOSTS then Inr ()
         else Inl (SE_InvalidUpstream name ''http:// upstream allowed only for loopback (use https://)''))
      else Inl (SE_InvalidUpstream name ''upstream url scheme must be https (or http loopback)''))"

definition check_host :: "net_externs \<Rightarrow> string \<Rightarrow> parsed_url \<Rightarrow> serve_error + unit" where
  "check_host nx name u =
     (let invalid = (\<lambda>reason. Inl (SE_InvalidUpstream name reason)) in
      case pu_host u of
        Some (Host_Ipv4 v4) \<Rightarrow> if is_blocked_ssrf_ip (V4 v4) then invalid SSRF_REASON else Inr ()
      | Some (Host_Ipv6 v6) \<Rightarrow> if is_blocked_ssrf_ip (V6 v6) then invalid SSRF_REASON else Inr ()
      | Some (Host_Domain d) \<Rightarrow>
          (case nx_resolve nx d (case pu_port_or_known_default u of None \<Rightarrow> 443 | Some p \<Rightarrow> p) of
             None \<Rightarrow> invalid ''upstream host failed to resolve''
           | Some addrs \<Rightarrow>
               if addrs = [] then invalid ''upstream host resolved to no address''
               else if list_ex is_blocked_ssrf_ip addrs then invalid SSRF_REASON
               else Inr ())
      | None \<Rightarrow> invalid ''upstream url has no host'')"

definition assert_url_safe :: "net_externs \<Rightarrow> string \<Rightarrow> string \<Rightarrow> serve_error + parsed_url" where
  "assert_url_safe nx name url =
     (case nx_parse nx url of
        None \<Rightarrow> Inl (SE_InvalidUpstream name ''url is not a valid absolute URL'')
      | Some u \<Rightarrow>
          (case check_scheme name u of
             Inl e \<Rightarrow> Inl e
           | Inr _ \<Rightarrow> (case check_host nx name u of Inl e \<Rightarrow> Inl e | Inr _ \<Rightarrow> Inr u)))"

definition check_auth :: "string \<Rightarrow> http_auth \<Rightarrow> serve_error + unit" where
  "check_auth name auth =
     (case auth of
        HA_None \<Rightarrow> Inr ()
      | HA_Bearer source \<Rightarrow>
          if str_starts_with source ''env:'' \<or> str_starts_with source ''keyring:'' then Inr ()
          else Inl (SE_InvalidUpstream name ''bearer source must be env:<VAR> or keyring:<svc>/<acct> (literal rejected)'')
      | HA_OAuth resource client_id \<Rightarrow>
          if resource = [] \<or> client_id = [] then
            Inl (SE_InvalidUpstream name ''oauth auth requires non-empty resource and client_id'')
          else Inr ())"

definition validate_http_upstream_config ::
  "net_externs \<Rightarrow> string \<Rightarrow> string \<Rightarrow> http_auth \<Rightarrow> http_transport_hint option \<Rightarrow> serve_error + parsed_url" where
  "validate_http_upstream_config nx name url auth transport_hint =
     (if name = [] then Inl (SE_InvalidUpstream name ''name is empty'')
      else
        (case assert_url_safe nx name url of
           Inl e \<Rightarrow> Inl e
         | Inr u \<Rightarrow>
             (case check_auth name auth of
                Inl e \<Rightarrow> Inl e
              | Inr _ \<Rightarrow>
                  if transport_hint = Some LegacySse then
                    Inl (SE_InvalidUpstream name ''legacy HTTP+SSE transport lands in ADR 0021 Slice 5'')
                  else Inr u)))"

definition upstream_origin_for_log :: "net_externs \<Rightarrow> string \<Rightarrow> string" where
  "upstream_origin_for_log nx url =
     (case nx_parse nx url of
        None \<Rightarrow> ''<unparsable url>''
      | Some u \<Rightarrow>
          (case (pu_host_str u, pu_port u) of
             (Some h, Some p) \<Rightarrow> pu_scheme u @ ''://'' @ h @ '':'' @ show_nat p
           | (Some h, None) \<Rightarrow> pu_scheme u @ ''://'' @ h
           | _ \<Rightarrow> pu_scheme u))"

section \<open>The address guard\<close>

definition ip_number :: "ipv4 \<Rightarrow> nat" where
  "ip_number v = (case v of IPv4 a b c d \<Rightarrow> unat a * 2 ^ 24 + unat b * 2 ^ 16 + unat c * 2 ^ 8 + unat d)"

definition in_block :: "ipv4 \<Rightarrow> ipv4 \<Rightarrow> nat \<Rightarrow> bool" where
  "in_block v net bits \<longleftrightarrow> ip_number v div 2 ^ (32 - bits) = ip_number net div 2 ^ (32 - bits)"

lemma and_C0: "(b :: u8) AND 0xC0 = 0x40 \<longleftrightarrow> unat b div 64 = 1"
proof -
  have eq: "v = w \<longleftrightarrow> (\<forall>n<8. bit v n = bit w n)" for v w :: u8
    using bit_word_eqI [of v w] by auto
  have "(b AND 0xC0 = 0x40) = (bit b 6 \<and> \<not> bit b 7)"
    by (auto simp: eq All_less_Suc eval_nat_numeral bit_simps)
  moreover have "(drop_bit 6 b = 1) = (bit b 6 \<and> \<not> bit b 7)"
    by (auto simp: eq All_less_Suc eval_nat_numeral bit_simps dest: bit_imp_le_length)
  moreover have "(drop_bit 6 b = 1) = (unat b div 64 = 1)"
    by (simp add: word_unat_eq_iff unsigned_drop_bit_eq drop_bit_eq_div unat_div)
  ultimately show ?thesis by simp
qed

text \<open>The blocks of addresses the guard refuses, as the comments of the code write them.\<close>

definition REFUSED_BLOCKS :: "(ipv4 \<times> nat) list" where
  "REFUSED_BLOCKS =
     [(IPv4 10 0 0 0, 8), (IPv4 172 16 0 0, 12), (IPv4 192 168 0 0, 16), (IPv4 169 254 0 0, 16), (IPv4 0 0 0 0, 8),
      (IPv4 100 64 0 0, 10), (IPv4 255 255 255 255, 32)]"

lemma byte_bound: "unat (b :: u8) < 256"
  using unsigned_less [of b] by simp

lemma ip_number_div:
  "ip_number (IPv4 a b c d) div 2 ^ 24 = unat a"
  "ip_number (IPv4 a b c d) div 2 ^ 22 = unat a * 4 + unat b div 64"
  "ip_number (IPv4 a b c d) div 2 ^ 20 = unat a * 16 + unat b div 16"
  "ip_number (IPv4 a b c d) div 2 ^ 16 = unat a * 256 + unat b"
  using byte_bound [of b] byte_bound [of c] byte_bound [of d] by (simp_all add: ip_number_def)

lemma two_bytes: "m * 256 + unat b = n * 256 + unat c \<longleftrightarrow> m = n \<and> b = c" for b c :: u8
proof
  assume eq: "m * 256 + unat b = n * 256 + unat c"
  have "(m * 256 + unat b) div 256 = m" "(n * 256 + unat c) div 256 = n"
    using byte_bound [of b] byte_bound [of c] by simp_all
  with eq show "m = n \<and> b = c" by (metis add_left_cancel word_unat_eq_iff)
qed simp

lemma ip_number_bytes: "ip_number (IPv4 a b c d) = ((unat a * 256 + unat b) * 256 + unat c) * 256 + unat d"
  by (simp add: ip_number_def)

lemma ip_number_inj: "ip_number v = ip_number w \<Longrightarrow> v = w"
  by (cases v, cases w, simp only: ip_number_bytes two_bytes) (simp add: word_unat_eq_iff)

lemma quarter_eq: "q < 4 \<Longrightarrow> n * 4 + q = 401 \<longleftrightarrow> n = 100 \<and> q = 1" for n q :: nat
  by presburger

lemma sixteenth_eq: "q < 16 \<Longrightarrow> n * 16 + q = 2753 \<longleftrightarrow> n = 172 \<and> q = 1" for n q :: nat
  by presburger

lemma second_sixteenth: "n div 16 = 1 \<longleftrightarrow> 16 \<le> n \<and> n \<le> 31" for n :: nat
  by presburger

lemma in_block_simps:
  "in_block (IPv4 a b c d) (IPv4 e 0 0 0) 8 \<longleftrightarrow> a = e"
  "in_block (IPv4 a b c d) (IPv4 e f 0 0) 16 \<longleftrightarrow> a = e \<and> b = f"
  "in_block (IPv4 a b c d) (IPv4 100 64 0 0) 10 \<longleftrightarrow> a = 100 \<and> unat b div 64 = 1"
  "in_block (IPv4 a b c d) (IPv4 172 16 0 0) 12 \<longleftrightarrow> a = 172 \<and> 16 \<le> b \<and> b \<le> 31"
  "in_block v w 32 \<longleftrightarrow> v = w"
proof -
  show "in_block (IPv4 a b c d) (IPv4 e 0 0 0) 8 \<longleftrightarrow> a = e"
    by (simp add: in_block_def ip_number_div [simplified] word_unat_eq_iff)
  show "in_block (IPv4 a b c d) (IPv4 e f 0 0) 16 \<longleftrightarrow> a = e \<and> b = f"
    using two_bytes [of "unat a" b "unat e" f] by (simp add: in_block_def ip_number_div [simplified] word_unat_eq_iff)
  show "in_block (IPv4 a b c d) (IPv4 100 64 0 0) 10 \<longleftrightarrow> a = 100 \<and> unat b div 64 = 1"
  proof -
    have "unat b div 64 < 4" using byte_bound [of b] by simp
    then have "unat a * 4 + unat b div 64 = 401 \<longleftrightarrow> unat a = 100 \<and> unat b div 64 = 1" by (rule quarter_eq)
    then show ?thesis by (simp add: in_block_def ip_number_div [simplified] word_unat_eq_iff)
  qed
  show "in_block (IPv4 a b c d) (IPv4 172 16 0 0) 12 \<longleftrightarrow> a = 172 \<and> 16 \<le> b \<and> b \<le> 31"
  proof -
    have "unat b div 16 < 16" using byte_bound [of b] by simp
    then have "unat a * 16 + unat b div 16 = 2753 \<longleftrightarrow> unat a = 172 \<and> unat b div 16 = 1" by (rule sixteenth_eq)
    moreover have "unat b div 16 = 1 \<longleftrightarrow> 16 \<le> unat b \<and> unat b \<le> 31" by (rule second_sixteenth)
    ultimately show ?thesis by (simp add: in_block_def ip_number_div [simplified] word_unat_eq_iff word_le_nat_alt)
  qed
  show "in_block v w 32 \<longleftrightarrow> v = w"
    by (cases v, cases w) (auto simp: in_block_def dest: ip_number_inj)
qed

definition refused_v4 :: "ipv4 \<Rightarrow> bool" where
  "refused_v4 v \<longleftrightarrow> list_ex (\<lambda>(net, bits). in_block v net bits) REFUSED_BLOCKS"

lemma blocked_v4_iff: "is_blocked_ssrf_ip (V4 v) \<longleftrightarrow> refused_v4 v"
  by (cases v) (auto simp: refused_v4_def REFUSED_BLOCKS_def in_block_simps and_C0)

text \<open>The addresses a checked URL stands for, and the IPv4 address an address carries.\<close>

definition url_addresses :: "net_externs \<Rightarrow> parsed_url \<Rightarrow> ip_addr list" where
  "url_addresses nx u =
     (case pu_host u of
        None \<Rightarrow> []
      | Some (Host_Ipv4 v4) \<Rightarrow> [V4 v4]
      | Some (Host_Ipv6 v6) \<Rightarrow> [V6 v6]
      | Some (Host_Domain d) \<Rightarrow>
          (case nx_resolve nx d (case pu_port_or_known_default u of None \<Rightarrow> 443 | Some p \<Rightarrow> p) of
             None \<Rightarrow> [] | Some addrs \<Rightarrow> addrs))"

fun carried_v4 :: "ip_addr \<Rightarrow> ipv4 option" where
  "carried_v4 (V4 v4) = Some v4"
| "carried_v4 (V6 v6) = (if v6 = IPv6 0 0 0 0 0 0 0 1 then None else to_ipv4 v6)"

lemma unblocked_carries: "\<not> is_blocked_ssrf_ip ip \<Longrightarrow> carried_v4 ip = Some v4 \<Longrightarrow> \<not> refused_v4 v4"
  by (cases ip) (auto simp: blocked_v4_iff [symmetric] split: if_splits)

lemma check_host_ok:
  "check_host nx name u = Inr () \<Longrightarrow>
     url_addresses nx u \<noteq> [] \<and> list_all (\<lambda>ip. \<not> is_blocked_ssrf_ip ip) (url_addresses nx u)"
  by (auto simp: check_host_def url_addresses_def Let_def list_all_iff list_ex_iff
      split: option.splits url_host.splits if_splits)

text \<open>
  C29. The guard against requests into the private network. A URL that passes is \<open>https\<close>, or \<open>http\<close> to a
  loopback name; it stands for at least one address, and no address it stands for carries, as such or
  in an IPv4-mapped or IPv4-compatible IPv6 address, an IPv4 address of the private, link-local
  (cloud metadata), carrier-grade NAT, broadcast or zero blocks.
\<close>

theorem accepted_url_is_public:
  assumes "assert_url_safe nx name url = Inr u"
  shows "nx_parse nx url = Some u \<and>
    (pu_scheme u = ''https'' \<or> pu_scheme u = ''http'' \<and> (\<exists>h. pu_host_str u = Some h \<and> h \<in> set LOOPBACK_HOSTS)) \<and>
    url_addresses nx u \<noteq> [] \<and>
    list_all (\<lambda>ip. \<not> is_blocked_ssrf_ip ip \<and> (\<forall>v4. carried_v4 ip = Some v4 \<longrightarrow> \<not> refused_v4 v4)) (url_addresses nx u)"
proof -
  have u: "nx_parse nx url = Some u" "check_scheme name u = Inr ()" "check_host nx name u = Inr ()"
    using assms by (auto simp: assert_url_safe_def split: option.splits sum.splits)
  have "pu_scheme u = ''https'' \<or> pu_scheme u = ''http'' \<and> (\<exists>h. pu_host_str u = Some h \<and> h \<in> set LOOPBACK_HOSTS)"
    using u(2) by (auto simp: check_scheme_def Let_def LOOPBACK_HOSTS_def split: if_splits option.splits)
  with u(1) check_host_ok [OF u(3)] unblocked_carries show ?thesis by (auto simp: list_all_iff)
qed

definition witness_net :: net_externs where
  "witness_net =
     \<lparr>nx_parse = (\<lambda>_. Some \<lparr>pu_scheme = ''https'', pu_host_str = Some ''mcp.example'', pu_host = Some (Host_Domain ''mcp.example''),
        pu_port = None, pu_port_or_known_default = Some 443, pu_origin = ''https://mcp.example''\<rparr>),
      nx_resolve = (\<lambda>_ _. Some [V4 (IPv4 93 184 216 34), V6 (IPv6 0 0 0 0 0 0xFFFF 0x0808 0x0808)])\<rparr>"

theorem accepted_url_is_public_witness: "\<not> refused_v4 (IPv4 93 184 216 34) \<and> \<not> refused_v4 (IPv4 8 8 8 8)"
proof -
  have byte: "(2056 :: u8) = 8" by code_simp
  have "assert_url_safe witness_net ''n'' ''u'' = Inr (the (nx_parse witness_net ''u''))" by code_simp
  from accepted_url_is_public [OF this] show ?thesis
    by (simp add: witness_net_def url_addresses_def hi_byte_def lo_byte_def byte)
qed

section \<open>The loop over standard input and output\<close>

text \<open>
  \<open>vx_decode\<close> is the derived decoding of a request with its error text, \<open>vx_show\<close> the text of a hub
  error.
\<close>

record serve_externs =
  vx_from_str :: "string \<Rightarrow> json option"
  vx_to_vec :: "json \<Rightarrow> string option"
  vx_decode :: "json \<Rightarrow> string + json_rpc_request"
  vx_show :: "hub_error \<Rightarrow> string"

definition opt_field :: "string \<Rightarrow> json option \<Rightarrow> (string \<times> json) list" where
  "opt_field k v = (case v of None \<Rightarrow> [] | Some j \<Rightarrow> [(k, j)])"

definition error_value :: "json_rpc_error \<Rightarrow> json" where
  "error_value e =
     JObject ([(''code'', JNumber (show_i64 (je_code e))), (''message'', JString (je_message e))] @
       opt_field ''data'' (je_data e))"

definition response_value :: "json_rpc_response \<Rightarrow> json" where
  "response_value r =
     JObject ([(''jsonrpc'', JString (rs_jsonrpc r)), (''id'', rs_id r)] @ opt_field ''result'' (rs_result r) @
       opt_field ''error'' (map_option error_value (rs_error r)))"

definition raw_error :: "json \<Rightarrow> int \<Rightarrow> string \<Rightarrow> json" where
  "raw_error raw code message =
     JObject [(''jsonrpc'', JString ''2.0''), (''id'', or_null (json_get raw ''id'')),
       (''error'', JObject [(''code'', JNumber (show_i64 code)), (''message'', JString message)])]"

text \<open>What one message is answered with.\<close>

definition answer_message ::
  "serve_externs \<Rightarrow> hub_externs \<Rightarrow> hub_env \<Rightarrow> json \<Rightarrow> hub \<Rightarrow> json option \<times> hub" where
  "answer_message vx x env raw h =
     (case vx_decode vx raw of
        Inl e \<Rightarrow> (Some (raw_error raw (- 32700) (''parse error: '' @ e)), h)
      | Inr req \<Rightarrow>
          (case handle_request x env req h of
             (Inr (Some resp), h') \<Rightarrow> (Some (response_value resp), h')
           | (Inr None, h') \<Rightarrow> (None, h')
           | (Inl e, h') \<Rightarrow> (Some (raw_error raw (- 32603) (''internal: '' @ vx_show vx e)), h')))"

text \<open>\<open>envs n\<close> and \<open>accepts n\<close> belong to the \<open>n\<close>-th message.\<close>

function run_stdio_loop ::
  "serve_externs \<Rightarrow> hub_externs \<Rightarrow> (nat \<Rightarrow> hub_env) \<Rightarrow> (nat \<Rightarrow> nat option) \<Rightarrow> nat \<Rightarrow> reader \<Rightarrow> string \<Rightarrow> hub
   \<Rightarrow> (serve_error + unit) \<times> string \<times> hub" where
  "run_stdio_loop vx x envs accepts n r out h =
     (case read_message (vx_from_str vx) r of
        (Inl e, r') \<Rightarrow> (if e = PE_Eof then Inr () else Inl (SE_Protocol e), out, h)
      | (Inr raw, r') \<Rightarrow>
          (case answer_message vx x (envs n) raw h of
             (None, h') \<Rightarrow> run_stdio_loop vx x envs accepts (Suc n) r' out h'
           | (Some v, h') \<Rightarrow>
               (case write_message (vx_to_vec vx) (accepts n) v out of
                  (Inl e, out') \<Rightarrow> (Inl (SE_Protocol e), out', h')
                | (Inr _, out') \<Rightarrow> run_stdio_loop vx x envs accepts (Suc n) r' out' h')))"
  by pat_completeness auto

termination
  by (relation "measure (\<lambda>(_, _, _, _, _, r, _, _). length (rd_bytes r))")
    (auto dest!: sym [of "(_, _)" "read_message _ _"] read_message_shrinks)

declare run_stdio_loop.simps [simp del]

text \<open>The specification: the messages in their order, each answered before the next is looked at.\<close>

fun serve_messages ::
  "serve_externs \<Rightarrow> hub_externs \<Rightarrow> (nat \<Rightarrow> hub_env) \<Rightarrow> nat \<Rightarrow> json list \<Rightarrow> hub \<Rightarrow> json list \<times> hub" where
  "serve_messages vx x envs n [] h = ([], h)"
| "serve_messages vx x envs n (m # ms) h =
     (case answer_message vx x (envs n) m h of (a, h1) \<Rightarrow>
      case serve_messages vx x envs (Suc n) ms h1 of (as, h2) \<Rightarrow>
        ((case a of None \<Rightarrow> as | Some v \<Rightarrow> v # as), h2))"

definition frames :: "string list \<Rightarrow> string" where
  "frames bs = concat (map (\<lambda>b. b @ [newline]) bs)"

lemma frames_simps [simp]: "frames [] = []" "frames (b # bs) = b @ newline # frames bs"
  by (simp_all add: frames_def)

definition printable :: "serve_externs \<Rightarrow> json list \<Rightarrow> bool" where
  "printable vx vs \<longleftrightarrow> list_all (\<lambda>v. vx_to_vec vx v \<noteq> None) vs"

lemma loop_serves:
  assumes "compact_json (vx_from_str vx) (vx_to_vec vx)" "\<And>n. accepts n = None"
  shows "printable vx (ms @ as) \<Longrightarrow> serve_messages vx x envs n ms h = (as, h') \<Longrightarrow>
    run_stdio_loop vx x envs accepts n \<lparr>rd_bytes = frames (map (\<lambda>m. the (vx_to_vec vx m)) ms) @ rest, rd_fault = f\<rparr> out h =
    run_stdio_loop vx x envs accepts (n + length ms) \<lparr>rd_bytes = rest, rd_fault = f\<rparr>
      (out @ frames (map (\<lambda>a. the (vx_to_vec vx a)) as)) h'"
proof (induction ms arbitrary: n h as out)
  case (Cons m ms)
  obtain a h1 where a: "answer_message vx x (envs n) m h = (a, h1)" by force
  obtain as1 where s: "serve_messages vx x envs (Suc n) ms h1 = (as1, h')"
    "as = (case a of None \<Rightarrow> as1 | Some v \<Rightarrow> v # as1)"
    using Cons.prems(2) a by (auto split: prod.splits)
  obtain b where b: "vx_to_vec vx m = Some b" using Cons.prems(1) by (auto simp: printable_def)
  note step = read_frame_message [OF assms(1) b]
  have w: "write_message (vx_to_vec vx) None v out = (Inr (), out @ the (vx_to_vec vx v) @ [newline])" if "a = Some v" for v out
    using Cons.prems(1) s(2) that by (auto simp: printable_def write_message_def Let_def)
  have "printable vx (ms @ as1)" using Cons.prems(1) s(2) by (auto simp: printable_def split: option.splits)
  from Cons.IH [OF this s(1)] show ?case
    by (subst run_stdio_loop.simps) (cases a, simp_all add: step b a s(2) w assms(2) [of n])
qed simp

lemma read_eof: "read_message from_str \<lparr>rd_bytes = [], rd_fault = False\<rparr> = (Inl PE_Eof, \<lparr>rd_bytes = [], rd_fault = False\<rparr>)"
proof -
  have "utf8_valid (bytes_of [])" by code_simp
  then show ?thesis by (subst read_message.simps) (simp add: read_line_def next_line_def Let_def)
qed

text \<open>
  C25. The gateway answers every message, once and in order. Take any messages a client writes on the
  stream before it closes it, and a client that keeps reading. The loop over the bytes ends, without an
  error, in the state that the messages lead to one after the other, whatever the hub makes of them (a
  hub error is an answer, not the end); and reading the output back gives the answers of the
  specification, each once and in order.
\<close>

theorem stdio_loop_refines_messages:
  assumes "compact_json (vx_from_str vx) (vx_to_vec vx)" and "\<And>n. accepts n = None"
    and "printable vx (ms @ as)" and "serve_messages vx x envs 0 ms h = (as, h')"
  shows "\<exists>out. run_stdio_loop vx x envs accepts 0
      \<lparr>rd_bytes = frames (map (\<lambda>m. the (vx_to_vec vx m)) ms), rd_fault = False\<rparr> [] h = (Inr (), out, h') \<and>
    read_messages (vx_from_str vx) (length as) \<lparr>rd_bytes = out, rd_fault = False\<rparr> =
      (map Inr as, \<lparr>rd_bytes = [], rd_fault = False\<rparr>)"
proof -
  let ?out = "frames (map (\<lambda>a. the (vx_to_vec vx a)) as)"
  have "run_stdio_loop vx x envs accepts 0
      \<lparr>rd_bytes = frames (map (\<lambda>m. the (vx_to_vec vx m)) ms), rd_fault = False\<rparr> [] h = (Inr (), ?out, h')"
    using loop_serves [OF assms, where rest = "[]" and f = False and out = "[]"] by (simp add: run_stdio_loop.simps [of _ _ _ _ _ _ ?out] read_eof)
  moreover have "map (vx_to_vec vx) as = map Some (map (\<lambda>a. the (vx_to_vec vx a)) as)" using assms(3) by (auto simp: printable_def list_all_iff)
  from read_written [OF assms(1) this, of "[]" False]
  have "read_messages (vx_from_str vx) (length as) \<lparr>rd_bytes = ?out, rd_fault = False\<rparr> =
      (map Inr as, \<lparr>rd_bytes = [], rd_fault = False\<rparr>)" by (simp add: frames_def)
  ultimately show ?thesis by blast
qed

definition witness_vx :: serve_externs where
  "witness_vx =
     \<lparr>vx_from_str = (\<lambda>s. if s = ''1'' then Some (JNumber ''1'') else if s = ''2'' then Some (raw_error (JNumber ''1'') (- 32700) ''parse error: bad'') else None),
      vx_to_vec = (\<lambda>v. if v = JNumber ''1'' then Some ''1'' else if v = raw_error (JNumber ''1'') (- 32700) ''parse error: bad'' then Some ''2'' else None),
      vx_decode = (\<lambda>_. Inl ''bad''), vx_show = (\<lambda>_. [])\<rparr>"

theorem stdio_loop_refines_messages_witness:
  "\<exists>out. run_stdio_loop witness_vx witness_hx (\<lambda>_. witness_henv) (\<lambda>_. None) 0
     \<lparr>rd_bytes = ''1'' @ [newline], rd_fault = False\<rparr> [] witness_hub = (Inr (), out, witness_hub)"
proof -
  let ?a = "raw_error (JNumber ''1'') (- 32700) ''parse error: bad''"
  have ne: "?a \<noteq> JNumber ''1''" by (simp add: raw_error_def)
  have p: "vx_to_vec witness_vx (JNumber ''1'') = Some ''1''" "vx_to_vec witness_vx ?a = Some ''2''"
    using ne by (simp_all add: witness_vx_def)
  have l: "utf8_valid (bytes_of (''1'' @ [newline]))" "utf8_valid (bytes_of (''2'' @ [newline]))"
    "str_trim (''1'' @ [newline]) = ''1''" "str_trim (''2'' @ [newline]) = ''2''" by code_simp+
  have c: "compact_json (vx_from_str witness_vx) (vx_to_vec witness_vx)"
    using l by (auto simp: compact_json_def witness_vx_def split: if_splits)
  have s: "serve_messages witness_vx witness_hx (\<lambda>_. witness_henv) 0 [JNumber ''1''] witness_hub = ([?a], witness_hub)"
    by (simp add: answer_message_def witness_vx_def)
  have "printable witness_vx ([JNumber ''1''] @ [?a])" by (simp add: printable_def p)
  from stdio_loop_refines_messages [OF c refl this s] show ?thesis by (auto simp: p)
qed

section \<open>Attaching the configured upstreams\<close>

text \<open>
  \<open>sv_at i k\<close> is the database environment of the \<open>k\<close>-th access while the \<open>i\<close>-th entry is attached,
  \<open>sv_hub i\<close> that of the hub. \<open>sv_spawn\<close> and the handshakes are what happens outside the process,
  \<open>sv_as_metadata\<close> the issuer and key-set address an authorization server publishes.
\<close>

record serve_env =
  sv_session :: call_env
  sv_now :: "nat \<Rightarrow> int"
  sv_at :: "nat \<Rightarrow> nat \<Rightarrow> call_env"
  sv_hub :: "nat \<Rightarrow> hub_env"
  sv_spawn :: "string \<Rightarrow> string \<Rightarrow> string + unit"
  sv_handshake :: "string \<Rightarrow> string + unit"
  sv_http_handshake :: "string \<Rightarrow> string + unit"
  sv_http_client :: "nat \<Rightarrow> bool"
  sv_oauth_client :: "nat \<Rightarrow> bool"
  sv_as_metadata :: "string \<Rightarrow> (string \<times> string) option"

definition upstream_profile ::
  "string \<Rightarrow> transport_kind \<Rightarrow> string list option \<Rightarrow> string option \<Rightarrow> int \<Rightarrow> string option \<Rightarrow> server_profile" where
  "upstream_profile name transport command url now command_hash =
     \<lparr>sp_server_id = name, sp_transport = transport, sp_command = command, sp_url = url, sp_first_seen_at = now,
      sp_command_hash = command_hash, sp_descriptor_hash = None, sp_trust_level = Untrusted, sp_sandbox_profile_id = None\<rparr>"

text \<open>Both kinds of upstream are registered and given limited trust before they are attached.\<close>

definition onboard ::
  "hub_externs \<Rightarrow> serve_env \<Rightarrow> nat \<Rightarrow> server_profile \<Rightarrow> hub \<Rightarrow> (serve_error + unit) \<times> hub" where
  "onboard x env i p h =
     (case register_server (hx_ledger x) (hx_codec x) (sv_at env i 0) (sv_at env i 1) p (hub_db h) of
        (Inl e, db) \<Rightarrow> (Inl (SE_Audit e), h\<lparr>hub_db := db\<rparr>)
      | (Inr _, db) \<Rightarrow>
          (case approve_server (sv_at env i 2) (sp_server_id p) Limited db of
             (Inl e, db1) \<Rightarrow> (Inl (SE_Audit e), h\<lparr>hub_db := db1\<rparr>)
           | (Inr _, db1) \<Rightarrow> (Inr (), h\<lparr>hub_db := db1\<rparr>)))"

definition attach_stdio_upstream ::
  "hub_externs \<Rightarrow> serve_env \<Rightarrow> nat \<Rightarrow> string \<Rightarrow> string list \<Rightarrow> hub \<Rightarrow> (serve_error + unit) \<times> hub" where
  "attach_stdio_upstream x env i name argv h =
     (if argv = [] then (Inl (SE_InvalidUpstream name ''argv is empty''), h)
      else if name = [] then (Inl (SE_InvalidUpstream [] ''name is empty''), h)
      else
        (case compute_argv_hash (hx_ledger x) argv of
           None \<Rightarrow> (Inl SE_Json, h)
         | Some command_hash \<Rightarrow>
             (case onboard x env i (upstream_profile name Stdio (Some argv) None (sv_now env i) (Some command_hash)) h of
                (Inl e, h1) \<Rightarrow> (Inl e, h1)
              | (Inr _, h1) \<Rightarrow>
                  (case spawn_attach_stdio_upstream x (sv_hub env i) (sv_spawn env name) (sv_handshake env name) name argv h1 of
                     (Inl e, h2) \<Rightarrow> (Inl (SE_Hub e), h2)
                   | (Inr _, h2) \<Rightarrow> (Inr (), h2)))))"

subsection \<open>OAuth\<close>

definition sha256_hex :: "ledger_externs \<Rightarrow> string \<Rightarrow> string" where
  "sha256_hex x s = lx_hex_encode x (lx_sha256 x s)"

definition token_ref_for_access :: "ledger_externs \<Rightarrow> string \<Rightarrow> string \<Rightarrow> string" where
  "token_ref_for_access x resource client_id =
     ''token://oauth/access/'' @ sha256_hex x resource @ ''/'' @ sha256_hex x client_id"

datatype token_kind = TK_Access | TK_Refresh

record oauth_token_metadata =
  tm_token_ref :: string
  tm_resource :: string
  tm_authorization_server :: string
  tm_issuer :: string
  tm_scope_set :: "string list"
  tm_token_kind :: token_kind
  tm_expires_at :: "int option"
  tm_created_at :: int

text \<open>\<open>Inl\<close> is the reason code of the \<open>TokenStoreError\<close>.\<close>

definition row_to_typed :: "oauth_token_metadata_row \<Rightarrow> string + oauth_token_metadata" where
  "row_to_typed r =
     (if om_token_kind r \<noteq> ''access'' \<and> om_token_kind r \<noteq> ''refresh'' then Inl ''unknown_token_kind''
      else
        (case om_issuer r of
           None \<Rightarrow> Inl ''issuer_missing_legacy_row''
         | Some issuer \<Rightarrow>
             Inr \<lparr>tm_token_ref = om_token_ref r, tm_resource = om_resource r,
                  tm_authorization_server = om_authorization_server r, tm_issuer = issuer, tm_scope_set = om_scope_set r,
                  tm_token_kind = (if om_token_kind r = ''access'' then TK_Access else TK_Refresh),
                  tm_expires_at = om_expires_at r, tm_created_at = om_created_at r\<rparr>))"

definition get_metadata ::
  "hub_externs \<Rightarrow> call_env \<Rightarrow> call_env \<Rightarrow> string \<Rightarrow> registry_db \<Rightarrow> string + oauth_token_metadata option" where
  "get_metadata x e1 e2 token_ref db =
     (case get_oauth_token_metadata (hx_ledger x) (hx_codec x) e1 e2 token_ref db of
        Inl _ \<Rightarrow> Inl ''metadata_query_failed''
      | Inr None \<Rightarrow> Inr None
      | Inr (Some r) \<Rightarrow> map_sum id Some (row_to_typed r))"

definition build_oauth_upstream ::
  "hub_externs \<Rightarrow> net_externs \<Rightarrow> serve_env \<Rightarrow> nat \<Rightarrow> string \<Rightarrow> parsed_url \<Rightarrow> string \<Rightarrow> string \<Rightarrow> registry_db
   \<Rightarrow> serve_error + string list" where
  "build_oauth_upstream x nx env i name mcp_url resource client_id db =
     (let invalid = (\<lambda>reason. Inl (SE_InvalidUpstream name reason)) in
      case get_metadata x (sv_at env i 3) (sv_at env i 4) (token_ref_for_access (hx_ledger x) resource client_id) db of
        Inl _ \<Rightarrow> invalid ''oauth token metadata query failed''
      | Inr None \<Rightarrow>
          invalid (''oauth upstream not onboarded '' @ em_dash @ '' run `add-remote-mcp` first (same --ledger)'')
      | Inr (Some meta) \<Rightarrow>
          (case nx_parse nx (tm_resource meta) of
             None \<Rightarrow> invalid ''onboarded oauth resource is not a valid URL''
           | Some resource_url \<Rightarrow>
               if pu_origin resource_url \<noteq> pu_origin mcp_url then
                 invalid ''oauth upstream url origin != onboarded resource origin (audience mismatch)''
               else
                 (case assert_url_safe nx name (tm_authorization_server meta) of
                    Inl e \<Rightarrow> Inl e
                  | Inr _ \<Rightarrow>
                      (case sv_as_metadata env (tm_authorization_server meta) of
                         None \<Rightarrow> invalid ''oauth AS metadata discovery failed at startup''
                       | Some (issuer, jwks_uri) \<Rightarrow>
                           if issuer \<noteq> tm_issuer meta then
                             invalid (''oauth AS issuer changed since onboarding (refusing '' @ em_dash @
                               '' possible AS compromise)'')
                           else
                             (case assert_url_safe nx name jwks_uri of
                                Inl e \<Rightarrow> Inl e
                              | Inr _ \<Rightarrow> Inr (tm_scope_set meta))))))"

text \<open>The upstream an entry describes: the scopes of its token when it uses OAuth.\<close>

definition http_upstream_scopes ::
  "hub_externs \<Rightarrow> net_externs \<Rightarrow> secret_sources \<Rightarrow> serve_env \<Rightarrow> nat \<Rightarrow> string \<Rightarrow> parsed_url \<Rightarrow> http_auth \<Rightarrow> registry_db
   \<Rightarrow> serve_error + string list option" where
  "http_upstream_scopes x nx ss env i name parsed auth db =
     (case auth of
        HA_Bearer source \<Rightarrow> map_sum id (\<lambda>_. None) (resolve_secret_source ss name source)
      | HA_OAuth resource client_id \<Rightarrow>
          if \<not> sv_oauth_client env i then Inl (SE_InvalidUpstream name ''failed to build https client'')
          else map_sum id Some (build_oauth_upstream x nx env i name parsed resource client_id db)
      | HA_None \<Rightarrow> Inr None)"

definition attach_http_upstream ::
  "hub_externs \<Rightarrow> net_externs \<Rightarrow> secret_sources \<Rightarrow> serve_env \<Rightarrow> nat \<Rightarrow> string \<Rightarrow> string \<Rightarrow> http_auth
   \<Rightarrow> http_transport_hint option \<Rightarrow> hub \<Rightarrow> (serve_error + unit) \<times> hub" where
  "attach_http_upstream x nx ss env i name url auth transport_hint h =
     (case validate_http_upstream_config nx name url auth transport_hint of
        Inl e \<Rightarrow> (Inl e, h)
      | Inr parsed \<Rightarrow>
          if \<not> sv_http_client env i then (Inl (SE_InvalidUpstream name ''failed to build https client''), h)
          else
            (case http_upstream_scopes x nx ss env i name parsed auth (hub_db h) of
               Inl e \<Rightarrow> (Inl e, h)
             | Inr oauth_scopes \<Rightarrow>
                 (case onboard x env i (upstream_profile name Http None (Some url) (sv_now env i) None) h of
                    (Inl e, h1) \<Rightarrow> (Inl e, h1)
                  | (Inr _, h1) \<Rightarrow>
                      let h2 = h1\<lparr>hub_stderr := hub_stderr h1 @
                            (case sv_http_handshake env name of
                               Inr _ \<Rightarrow> []
                             | Inl e \<Rightarrow>
                                 [''[vigil-hub] upstream '' @ quoted name @ '' MCP initialize handshake failed: '' @
                                  scrub_text (hx_redact x) e @
                                  '' (attached anyway; its tools will be unavailable until it initializes)'']) @
                            [''vigil-hub serve: upstream '' @ quoted name @ '' attached over http ('' @
                             upstream_origin_for_log nx url @ '')'']\<rparr>
                      in
                      (case (case oauth_scopes of
                               Some scopes \<Rightarrow> attach_upstream_with_oauth_scopes x (sv_hub env i) name [] scopes h2
                             | None \<Rightarrow> attach_upstream x (sv_hub env i) name [] h2) of
                         (Inl e, h3) \<Rightarrow> (Inl (SE_Hub e), h3)
                       | (Inr _, h3) \<Rightarrow> (Inr (), h3)))))"

section \<open>Building the hub\<close>

record serve_args =
  sa_auto_approve_first_seen :: bool
  sa_dev_permissive_firewall :: bool
  sa_enable_privacy_filter :: bool
  sa_redact_tool_results :: bool
  sa_monitor :: bool
  sa_project_roots :: "string list"
  sa_enable_injection_classifier :: bool
  sa_ml_best_effort :: bool

definition resolve_project_roots :: "externs \<Rightarrow> string option \<Rightarrow> string list \<Rightarrow> string list" where
  "resolve_project_roots fx cwd cli_roots =
     (if cli_roots = [] then (case cwd of Some d \<Rightarrow> [normalize_project_root fx cwd d] | None \<Rightarrow> [])
      else map (normalize_project_root fx cwd) cli_roots)"

definition dev_catchall :: policy_rule where
  "dev_catchall =
     \<lparr>pr_id = ''dev-catchall-approve'', pr_match_effects = [], pr_conditions = [], pr_action = PA_Approve, pr_priority = 1\<rparr>"

definition serve_policy :: "serve_args \<Rightarrow> policy_engine" where
  "serve_policy args =
     (let policy = policy_engine_new default_ruleset in
      if sa_dev_permissive_firewall args then add_rule policy dev_catchall else policy)"

definition serve_hub_config :: "serve_args \<Rightarrow> hub_config" where
  "serve_hub_config args =
     hub_config_default\<lparr>hc_auto_approve_first_seen_tools := sa_auto_approve_first_seen args,
       hc_redact_tool_results := sa_redact_tool_results args, hc_monitor_mode := sa_monitor args\<rparr>"

fun attach_entries ::
  "hub_externs \<Rightarrow> net_externs \<Rightarrow> secret_sources \<Rightarrow> serve_env \<Rightarrow> nat \<Rightarrow> upstream_entry list \<Rightarrow> hub \<Rightarrow> (serve_error + unit) \<times> hub" where
  "attach_entries x nx ss env i [] h = (Inr (), h)"
| "attach_entries x nx ss env i (e # es) h =
     (case (case e of
              UE_Stdio name argv \<Rightarrow> attach_stdio_upstream x env i name argv h
            | UE_Http name url auth hint \<Rightarrow> attach_http_upstream x nx ss env i name url auth hint h) of
        (Inl err, h1) \<Rightarrow> (Inl err, h1)
      | (Inr _, h1) \<Rightarrow> attach_entries x nx ss env (Suc i) es h1)"

text \<open>
  The build without \<open>ort\<close>, from the opened database; the result is the hub or the error, with the
  database. \<open>sv_hub env 0\<close> also stands for the lock of the session id.
\<close>

definition build_hub_with_config ::
  "hub_externs \<Rightarrow> net_externs \<Rightarrow> secret_sources \<Rightarrow> serve_env \<Rightarrow> serve_args \<Rightarrow> upstreams_config option \<Rightarrow> registry_db
   \<Rightarrow> (serve_error + hub) \<times> registry_db" where
  "build_hub_with_config x nx ss env args cfg db =
     (case start_session (sv_session env) ''vigil-hub-serve'' (Some ''vigil-hub'') db of
        (Inl e, db1) \<Rightarrow> (Inl (SE_Audit e), db1)
      | (Inr session_id, db1) \<Rightarrow>
          if sa_enable_privacy_filter args \<and> \<not> sa_ml_best_effort args then (Inl SE_PrivacyFilterUnavailable, db1)
          else
            let fw = firewall_new (hx_redact x) (serve_policy args)
                       (firewall_config_default\<lparr>fc_project_roots := sa_project_roots args\<rparr>) in
            (case (case cfg of None \<Rightarrow> Inr [] | Some c \<Rightarrow> build_secret_alias_map ss (uc_secrets c)) of
               Inl e \<Rightarrow> (Inl e, db1)
             | Inr secret_aliases \<Rightarrow>
                 if sa_enable_injection_classifier args \<and> \<not> sa_ml_best_effort args then
                   (Inl SE_InjectionClassifierUnavailable, db1)
                 else if he_session_poisoned (sv_hub env 0) then (Inl (SE_Hub HE_LockPoisoned), db1)
                 else
                   let h = (hub_new db1 fw (serve_hub_config args) secret_aliases)\<lparr>hub_session_id := Some session_id\<rparr> in
                   (case attach_entries x nx ss env 0 (case cfg of None \<Rightarrow> [] | Some c \<Rightarrow> uc_upstreams c) h of
                      (Inl e, h1) \<Rightarrow> (Inl e, hub_db h1)
                    | (Inr _, h1) \<Rightarrow> (Inr h1, hub_db h1))))"

section \<open>Start and stop\<close>

definition report_mark :: "bool \<Rightarrow> string" where
  "report_mark good = (if good then [CHR 0xE2, CHR 0x9C, CHR 0x93] else [CHR 0xE2, CHR 0x9A, CHR 0xA0])"

text \<open>\<open>show\<close> is the text of any other audit error.\<close>

definition format_anchor_startup_message ::
  "(audit_error \<Rightarrow> string) \<Rightarrow> anchored audit_result \<Rightarrow> bool \<Rightarrow> string option" where
  "format_anchor_startup_message show result has_events =
     (case result of
        Inr (Verified checkpoints through_event_id) \<Rightarrow>
          Some (report_mark True @ '' audit chain verified against '' @ show_nat checkpoints @
            '' checkpoint(s) (through event #'' @ show_i64 through_event_id @ '')'')
      | Inr Unanchored \<Rightarrow>
          if has_events then
            Some (''audit chain not yet anchored (no checkpoints found). It anchors automatically on clean shutdown; if you expected anchors, the `.checkpoints` sidecar may be missing '' @
              em_dash @ '' run `vigil-hub verify`.'')
          else None
      | Inl (CheckpointMismatch event_id) \<Rightarrow>
          Some (report_mark False @ '' AUDIT TAMPER '' @ em_dash @ '' full-chain rewrite detected at event #'' @
            show_i64 event_id @
            '' vs checkpoint anchor; historical audit is compromised. Run `vigil-hub verify` for detail. (the firewall still protects this session)'')
      | Inl (ChainBroken event_id) \<Rightarrow>
          Some (report_mark False @ '' AUDIT CHAIN BROKEN at event #'' @ show_i64 event_id @ '' '' @ em_dash @
            '' audit log integrity failure. Run `vigil-hub verify`.'')
      | Inl (CheckpointStoreCorrupt reason) \<Rightarrow>
          Some (report_mark False @ '' audit checkpoint sidecar damaged ('' @ reason @
            ''); anchor protection reduced (the audit chain itself passed its internal check).'')
      | Inl e \<Rightarrow> Some (''audit anchor verify skipped (non-fatal): '' @ show e))"

text \<open>An anchor that is missing while there are events, or any failure, is always reported.\<close>

lemma startup_silence_iff:
  "format_anchor_startup_message show result has_events = None \<longleftrightarrow> result = Inr Unanchored \<and> \<not> has_events"
  by (simp add: format_anchor_startup_message_def split: sum.splits anchored.splits audit_error.splits)

section \<open>What the built hub keeps\<close>

text \<open>The firewall, the configuration and the aliases are those of the start.\<close>

definition same_setup :: "hub \<Rightarrow> hub \<Rightarrow> bool" where
  "same_setup h h' \<longleftrightarrow>
     hub_firewall h' = hub_firewall h \<and> hub_cfg h' = hub_cfg h \<and> hub_secret_aliases h' = hub_secret_aliases h"

lemma same_setup_refl [simp]: "same_setup h h"
  by (simp add: same_setup_def)

lemma same_setup_trans: "same_setup h h1 \<Longrightarrow> same_setup h1 h2 \<Longrightarrow> same_setup h h2"
  by (simp add: same_setup_def)

lemma same_setup_upd [simp]:
  "same_setup h (h'\<lparr>hub_db := db\<rparr>) = same_setup h h'"
  "same_setup h (h'\<lparr>hub_scan_persist_failures := n\<rparr>) = same_setup h h'"
  "same_setup h (h'\<lparr>hub_router := r\<rparr>) = same_setup h h'"
  "same_setup h (h'\<lparr>hub_upstreams := u\<rparr>) = same_setup h h'"
  "same_setup h (h'\<lparr>hub_oauth_scopes := s\<rparr>) = same_setup h h'"
  "same_setup h (h'\<lparr>hub_session_id := sid\<rparr>) = same_setup h h'"
  "same_setup h (h'\<lparr>hub_stderr := e\<rparr>) = same_setup h h'"
  "same_setup h (h'\<lparr>hub_leak_detected_count := c\<rparr>) = same_setup h h'"
  "same_setup h (h'\<lparr>hub_tools_list_notices := t\<rparr>) = same_setup h h'"
  "same_setup h (h'\<lparr>hub_sent := m\<rparr>) = same_setup h h'"
  by (simp_all add: same_setup_def)

lemma send_setup [simp]: "same_setup h (send_upstream s m p h') = same_setup h h'"
  by (simp add: send_upstream_def)

lemma mark_setup [simp]: "same_setup h (mark_outbox mark e oid h') = same_setup h h'"
  by (simp add: mark_outbox_def split: option.splits)

lemma reclaim_setup: "same_setup h (snd (reclaim_injected x env call d exposed r h))"
  by (simp add: reclaim_injected_def split: prod.splits)

lemma scan_setup: "same_setup h (snd (scan_tool_result x env call d r h))"
  by (auto simp: scan_tool_result_def audit_result_injection_def Let_def split: option.splits prod.splits)

lemma finish_setup: "same_setup h (snd (finish_call x env req call route oid d exposed span r h))"
proof -
  obtain r1 h1 where 1: "reclaim_injected x env call d exposed r h = (r1, h1)" by force
  obtain r2 h2 where 2: "scan_tool_result x env call d r1 h1 = (r2, h2)" by force
  have "same_setup h h2"
    using reclaim_setup [of h x env call d exposed r] scan_setup [of h1 x env call d r1] 1 2 by (auto intro: same_setup_trans)
  then show ?thesis by (auto simp: finish_call_def 1 2 split: prod.splits sum.splits option.splits)
qed

lemma fail_setup: "same_setup h (snd (fail_call x env req oid span e h))"
  by (auto simp: fail_call_def Let_def split: prod.splits sum.splits)

lemma invoke_setup: "same_setup h (snd (invoke_upstream x env req call route oid d h))"
proof -
  have "same_setup h (snd (finish_call x env req call route oid d exposed span r (send_upstream s m p (h\<lparr>hub_db := db\<rparr>))))"
    "same_setup h (snd (fail_call x env req oid span e (send_upstream s m p (h\<lparr>hub_db := db\<rparr>))))" for exposed span r s m p db e
    by (rule same_setup_trans [OF _ finish_setup], simp) (rule same_setup_trans [OF _ fail_setup], simp)
  then show ?thesis by (auto simp: invoke_upstream_def Let_def split: sum.splits prod.splits)
qed

lemma invoke_setup_db: "same_setup h (snd (invoke_upstream x env req call route oid d (h\<lparr>hub_db := db\<rparr>)))"
  by (rule same_setup_trans [OF _ invoke_setup]) simp

lemma allow_setup: "same_setup h (snd (allow_recorded x env req call route d h))"
  by (auto simp: allow_recorded_def invoke_setup_db split: prod.splits sum.splits)

lemma approved_setup: "same_setup h (snd (approved_invoke x env req call route oid d h))"
  by (auto simp: approved_invoke_def invoke_setup_db split: prod.splits sum.splits option.splits)

lemma approved_setup_db: "same_setup h (snd (approved_invoke x env req call route oid d (h\<lparr>hub_db := db\<rparr>)))"
  by (rule same_setup_trans [OF _ approved_setup]) simp

lemma await_setup: "same_setup h (snd (await_approval x env req call route oid d approval h))"
  by (auto simp: await_approval_def Let_def approved_setup_db split: sum.splits option.splits approval_status.splits)

lemma settle_approval_setup: "same_setup h (snd (settle_approval x env req call route d effects approval h))"
proof -
  obtain res h1 where dr: "draft_for_approval x env call route effects approval h = (res, h1)" by force
  from draft_keeps [OF dr] have h1: "same_setup h h1" by (metis same_setup_refl same_setup_upd(1))
  note chain = same_setup_trans [OF h1]
  show ?thesis using h1 chain [OF approved_setup_db] chain [OF await_setup]
    by (auto simp: settle_approval_def dr split: prod.splits sum.splits)
qed

lemma settle_setup: "same_setup h (snd (settle_outcome x env req call route outcome h))"
  by (cases outcome) (simp_all add: settle_outcome_def invoke_setup allow_setup settle_approval_setup)

lemma evaluate_setup: "same_setup h (snd (evaluate_call x env req call route h))"
proof -
  have "same_setup h (snd (settle_outcome x env req call route outcome (h\<lparr>hub_db := db, hub_scan_persist_failures := n\<rparr>)))"
    for outcome db n by (rule same_setup_trans [OF _ settle_setup]) simp
  then show ?thesis by (auto simp: evaluate_call_def split: prod.splits sum.splits)
qed

lemma call_setup: "same_setup h (snd (handle_tools_call x env req h))"
proof -
  have "same_setup h (snd (gated_call x env req call route h))" for call route
    by (auto simp: gated_call_def allow_setup evaluate_setup deny_raw_secret_def deny_alias_def record_refusal_def Let_def
        split: alias_aware_scan_result.splits sum.splits option.splits prod.splits)
  then show ?thesis by (auto simp: handle_tools_call_def Let_def split: option.splits)
qed

lemma note_setup [simp]: "same_setup h (note_tools_list env sid msg h') = same_setup h h'"
  by (simp add: note_tools_list_def Let_def)

lemma one_tool_setup: "same_setup h (snd (list_one_tool x env es sid t acc h))"
proof -
  have e: "same_setup h' (snd (expose_tool x e sid tool hash t acc h'))" for e tool hash h'
    by (auto simp: expose_tool_def split: sum.splits option.splits prod.splits)
  have f: "same_setup h' (snd (first_seen_tool x env es sid tool dsc schema h'))" for tool dsc schema h'
    by (auto simp: first_seen_tool_def audit_descriptor_meta_instructions_def Let_def split: prod.splits)
  have "same_setup h (snd (expose_tool x e sid tool hash t acc (h\<lparr>hub_db := db\<rparr>)))" for e tool hash db
    by (rule same_setup_trans [OF _ e]) simp
  moreover have "same_setup h h1" if "first_seen_tool x env es sid tool dsc schema (h\<lparr>hub_db := db\<rparr>) = (res, h1)"
    for tool dsc schema db res h1 using f [of "h\<lparr>hub_db := db\<rparr>" tool dsc schema] that by (auto simp: same_setup_def)
  ultimately show ?thesis using e
    by (auto simp: list_one_tool_def Let_def split: option.splits prod.splits sum.splits pin_outcome.splits)
      (meson same_setup_trans)
qed

lemma tools_setup: "same_setup h (snd (list_server_tools x env es sid ts j acc h))"
proof (induction ts arbitrary: j acc h)
  case (Cons t ts)
  from one_tool_setup [of h x env "es j" sid t acc] Cons show ?case
    by (auto split: prod.splits sum.splits intro: same_setup_trans)
qed simp

lemma server_setup: "same_setup h (snd (list_one_server x env i sid acc h))"
proof -
  have "same_setup h h1" if "list_server_tools x env es sid ts j acc' (send_upstream s m p h) = (res, h1)"
    for es ts j acc' s m p res h1
    using tools_setup [of "send_upstream s m p h" x env es sid ts j acc'] that by (auto simp: same_setup_def send_upstream_def)
  then show ?thesis
    by (auto simp: list_one_server_def Let_def split: sum.splits option.splits prod.splits)
qed

lemma servers_setup: "same_setup h (snd (list_servers x env i ss acc h))"
proof (induction ss arbitrary: i acc h)
  case (Cons s ss)
  from server_setup [of h x env i s acc] Cons show ?case
    by (auto split: prod.splits sum.splits intro: same_setup_trans)
qed simp

lemma list_setup: "same_setup h (snd (handle_tools_list x env req h))"
  using servers_setup [of h x env 0]
  by (auto simp: handle_tools_list_def split: sum.splits prod.splits) (metis snd_conv)+

lemma request_setup: "same_setup h (snd (handle_request x env req h))"
  by (auto simp: handle_request_def call_setup list_setup handle_initialize_def split: prod.splits sum.splits)

lemma serve_messages_setup: "serve_messages vx x envs n ms h = (as, h') \<Longrightarrow> same_setup h h'"
proof (induction ms arbitrary: n h as)
  case (Cons m ms)
  have "same_setup h (snd (answer_message vx x (envs n) m h))"
    using request_setup [of h x "envs n"] by (auto simp: answer_message_def split: sum.splits prod.splits option.splits) (metis snd_conv)+
  with Cons show ?case by (auto split: prod.splits intro: same_setup_trans)
qed simp

end
