(* ===== verification/Gateway.thy ===== *)
theory Gateway
  imports Serve
begin

text \<open>
  The gateway as a whole: the hub that \<open>serve\<close> builds, after any messages of a client, when the next
  tool call arrives. The firewall's contract about its oracle is taken up here for the registry as it
  is stored.
\<close>

section \<open>The stored registry as oracle\<close>

definition registry_holds :: "registry_db \<Rightarrow> string \<Rightarrow> string \<Rightarrow> string \<Rightarrow> bool" where
  "registry_holds l sid tool hash \<longleftrightarrow>
     list_ex (\<lambda>r. is_tool sid tool r \<and> td_approved_at r \<noteq> None \<and> td_descriptor_hash r = hash) (reg_tools l) \<and>
     list_ex (\<lambda>s. sv_server_id s = sid \<and> sv_trust_level s \<noteq> ''Untrusted'') (reg_servers l)"

interpretation stored: descriptor_oracle "registry_oracle codec env env2 l" "registry_holds l" for codec env env2 l
proof
  fix sid tool h
  assume "registry_oracle codec env env2 l sid tool h = DS_ApprovedStable"
  then show "registry_holds l sid tool h"
    by (rule registry_oracle_stable) (auto simp: registry_holds_def list_ex_iff)
qed

section \<open>What serve builds\<close>

lemma onboard_setup: "same_setup h (snd (onboard x env i p h))"
  by (auto simp: onboard_def split: prod.splits sum.splits)

lemma command_drift_setup: "same_setup h (snd (check_upstream_command_drift x env sid argv h))"
  by (auto simp: check_upstream_command_drift_def split: option.splits prod.splits sum.splits)

lemma program_drift_setup: "same_setup h (snd (check_upstream_resolved_program_drift x env sid p r h))"
  by (auto simp: check_upstream_resolved_program_drift_def
      split: prod.splits sum.splits resolved_program_outcome.splits)

lemma attach_upstream_setup: "same_setup h (snd (attach_upstream x env sid argv h))"
  using command_drift_setup [of h x env sid argv]
  by (auto simp: attach_upstream_def split: sum.splits prod.splits)

lemma attach_scopes_setup: "same_setup h (snd (attach_upstream_with_oauth_scopes x env sid argv scopes h))"
  using attach_upstream_setup [of h x env sid argv]
  by (auto simp: attach_upstream_with_oauth_scopes_def split: sum.splits prod.splits)

lemma spawn_attach_setup: "same_setup h (snd (spawn_attach_stdio_upstream x env spawn handshake sid argv h))"
proof -
  have "same_setup h h2" if "check_upstream_command_drift x env sid argv h = (r1, h1)"
    "check_upstream_resolved_program_drift x env sid p r h1 = (r2, h2)" for h1 h2 r1 r2 p r
    using command_drift_setup [of h x env sid argv] program_drift_setup [of h1 x env sid p r] that
    by (auto intro: same_setup_trans)
  moreover have "same_setup h h1" if "check_upstream_command_drift x env sid argv h = (r1, h1)" for h1 r1
    using command_drift_setup [of h x env sid argv] that by simp
  ultimately show ?thesis
    by (auto simp: spawn_attach_stdio_upstream_def split: sum.splits prod.splits list.splits)
qed

lemma attach_stdio_setup: "same_setup h (snd (attach_stdio_upstream x env i name argv h))"
proof -
  have "same_setup h h1" if "onboard x env i p h = (r, h1)" for p r h1
    using onboard_setup [of h x env i p] that by simp
  then show ?thesis
    using same_setup_trans [OF _ spawn_attach_setup]
    by (auto simp: attach_stdio_upstream_def split: option.splits prod.splits sum.splits) (metis snd_conv)+
qed

lemma attach_http_setup: "same_setup h (snd (attach_http_upstream x nx ss env i name url auth hint h))"
proof -
  have "same_setup h h3" if "onboard x env i p h = (r, h1)"
    "(case scopes of Some s \<Rightarrow> attach_upstream_with_oauth_scopes x (sv_hub env i) name [] s (h1\<lparr>hub_stderr := e\<rparr>)
      | None \<Rightarrow> attach_upstream x (sv_hub env i) name [] (h1\<lparr>hub_stderr := e\<rparr>)) = (r3, h3)" for p r h1 scopes e r3 h3
    using onboard_setup [of h x env i p] that attach_scopes_setup [of "h1\<lparr>hub_stderr := e\<rparr>" x "sv_hub env i" name "[]"]
      attach_upstream_setup [of "h1\<lparr>hub_stderr := e\<rparr>" x "sv_hub env i" name "[]"]
    by (cases scopes) (auto simp: same_setup_def, (metis snd_conv)+)
  moreover have "same_setup h h1" if "onboard x env i p h = (r, h1)" for p r h1
    using onboard_setup [of h x env i p] that by simp
  ultimately show ?thesis
    by (auto simp: attach_http_upstream_def Let_def split: sum.splits prod.splits) 
qed

lemma attach_entries_setup: "same_setup h (snd (attach_entries x nx ss env i es h))"
proof (induction es arbitrary: i h)
  case (Cons e es)
  have "same_setup h (snd (case e of UE_Stdio name argv \<Rightarrow> attach_stdio_upstream x env i name argv h
      | UE_Http name url auth hint \<Rightarrow> attach_http_upstream x nx ss env i name url auth hint h))"
    by (cases e) (simp_all add: attach_stdio_setup attach_http_setup)
  with Cons show ?case by (auto split: prod.splits sum.splits intro: same_setup_trans)
qed simp

lemma built_hub_setup:
  assumes "build_hub_with_config x nx ss env args cfg db = (Inr h, db')"
  shows "fw_policy (hub_firewall h) = serve_policy args \<and>
    fw_config (hub_firewall h) = firewall_config_default\<lparr>fc_project_roots := sa_project_roots args\<rparr> \<and>
    hub_cfg h = serve_hub_config args"
  using assms attach_entries_setup
  by (auto simp: build_hub_with_config_def Let_def same_setup_def hub_new_def firewall_new_def with_scanner_def
      split: prod.splits sum.splits if_splits) (metis hub.simps snd_conv firewall.simps)+

section \<open>Properties\<close>

text \<open>The hub runs with the rules, the firewall configuration and the modes that the arguments ask for.\<close>

definition serves_as :: "serve_args \<Rightarrow> hub \<Rightarrow> bool" where
  "serves_as args h \<longleftrightarrow>
     fw_policy (hub_firewall h) = serve_policy args \<and>
     fw_config (hub_firewall h) = firewall_config_default\<lparr>fc_project_roots := sa_project_roots args\<rparr> \<and>
     hub_cfg h = serve_hub_config args"

text \<open>
  C17. Clients cannot change the rules. Whatever upstreams were attached when the hub was built and
  whatever messages it has answered since, its firewall still evaluates the policy of the command line
  with the project roots of the command line, its modes are those of the command line, and the secret
  aliases are the ones it was built with.
\<close>

theorem served_hub_keeps_setup:
  assumes "build_hub_with_config x nx ss env args cfg db = (Inr h0, db0)"
    and "serve_messages vx x envs n ms h0 = (answers, h)"
  shows "serves_as args h \<and> hub_secret_aliases h = hub_secret_aliases h0"
  using built_hub_setup [OF assms(1)] serve_messages_setup [OF assms(2)]
  by (simp add: same_setup_def serves_as_def)

text \<open>An approval the call had to wait for: the firewall asked, and the wait ended with a yes.\<close>

definition approved_while_waiting :: "hub_externs \<Rightarrow> hub_env \<Rightarrow> tool_invocation \<Rightarrow> tool_route \<Rightarrow> hub \<Rightarrow> bool" where
  "approved_while_waiting x env call route h \<longleftrightarrow>
     (\<exists>d effects approval n db. hub_evaluates x env call route h = (Inr (ApproveOutcome d effects approval), n, db) \<and>
        wait_approved env approval (hub_db (snd (draft_for_approval x env call route effects approval
          (h\<lparr>hub_db := db, hub_scan_persist_failures := n\<rparr>)))))"

lemma enforced_permit:
  assumes "firewall_permits x env call route h" and "serves_as args h"
    and "\<not> sa_monitor args" and "\<not> sa_dev_permissive_firewall args"
  shows "registry_holds (hub_db h) (ti_server_id call) (ti_tool_name call) (ti_descriptor_hash call) \<or>
    approved_while_waiting x env call route h"
proof -
  from assms have mode: "\<not> hc_monitor_mode (hub_cfg h)"
    and rules: "fw_policy (hub_firewall h) = policy_engine_new default_ruleset"
    by (simp_all add: serves_as_def serve_hub_config_def serve_policy_def)
  from assms(1) obtain outcome n db where ev: "hub_evaluates x env call route h = (Inr outcome, n, db)"
    and ok: "outcome_permits x env call route outcome (h\<lparr>hub_db := db, hub_scan_persist_failures := n\<rparr>)"
    by (auto simp: firewall_permits_def)
  show ?thesis
  proof (cases outcome)
    case (Allowed d e)
    then show ?thesis using stored.allowed_approved [OF ev [unfolded Allowed] rules] by simp
  next
    case (Denied d e)
    with ok mode show ?thesis by (simp add: outcome_permits_def)
  next
    case (ApproveOutcome d e a)
    with ok mode ev show ?thesis by (auto simp: outcome_permits_def approval_settled_def approved_while_waiting_def)
  qed
qed

text \<open>
  C3. In the mode that enforces, somebody said yes to every call that goes out. With neither the monitor
  mode nor the permissive development rule, a tool call sends nothing unless it routes to a tool, its
  arguments contain no raw secret, and one of three grants exists: an approval of this session for this
  tool and these arguments; in the registry, the approval of the descriptor the route was made from,
  on a server with some trust; or an approval that was given while the call waited for it.
\<close>

theorem enforced_call_was_granted:
  assumes "serves_as args h" and "\<not> sa_monitor args" and "\<not> sa_dev_permissive_firewall args"
    and "handle_tools_call x env req h = (res, h')" and "hub_sent h' \<noteq> hub_sent h"
  shows "\<exists>params public_name route call.
    rq_params req = Some params \<and> json_get params ''name'' = Some (JString public_name) \<and>
    router_resolve public_name (hub_router h) = Some route \<and>
    call = invocation_of env route (or_null (json_get params ''arguments'')) h \<and>
    \<not> has_raw_secret (hx_redact x) (ti_args call) \<and>
    (scope_permits x env call route h \<or>
     registry_holds (hub_db h) (rt_server_id route) (rt_upstream_tool_name route) (rt_descriptor_hash route) \<or>
     approved_while_waiting x env call route h)"
proof -
  obtain params public_name route where r: "rq_params req = Some params"
    "json_get params ''name'' = Some (JString public_name)" "router_resolve public_name (hub_router h) = Some route"
    and auth: "call_authorized x env (invocation_of env route (or_null (json_get params ''arguments'')) h) route h"
    using sent_call_authorized [OF assms(4,5)] by blast
  let ?call = "invocation_of env route (or_null (json_get params ''arguments'')) h"
  have "ti_server_id ?call = rt_server_id route" "ti_tool_name ?call = rt_upstream_tool_name route"
    "ti_descriptor_hash ?call = rt_descriptor_hash route"
    by (simp_all add: invocation_of_def)
  with auth enforced_permit [OF _ assms(1-3), of x env ?call route] r show ?thesis
    by (auto simp: call_authorized_def)
qed

definition witness_serve_args :: serve_args where
  "witness_serve_args =
     \<lparr>sa_auto_approve_first_seen = False, sa_dev_permissive_firewall = False, sa_enable_privacy_filter = False,
      sa_redact_tool_results = False, sa_monitor = False, sa_project_roots = [''/proj''],
      sa_enable_injection_classifier = False, sa_ml_best_effort = False\<rparr>"

definition witness_serve_env :: serve_env where
  "witness_serve_env =
     \<lparr>sv_session = witness_env, sv_now = (\<lambda>_. 7), sv_at = (\<lambda>_ _. witness_env), sv_hub = (\<lambda>_. witness_henv),
      sv_spawn = (\<lambda>_ _. Inr ()), sv_handshake = (\<lambda>_. Inr ()), sv_http_handshake = (\<lambda>_. Inr ()),
      sv_http_client = (\<lambda>_. True), sv_oauth_client = (\<lambda>_. True), sv_as_metadata = (\<lambda>_. None)\<rparr>"

text \<open>The hub of the tool-call witness is one that serves as these arguments say.\<close>

lemma witness_serves: "serves_as witness_serve_args witness_hub"
  by (simp add: serves_as_def witness_hub_def witness_serve_args_def hub_new_def witness_firewall_def
      firewall_new_def with_scanner_def witness_config_def serve_policy_def serve_hub_config_def hub_config_default_def)

theorem enforced_call_was_granted_witness:
  "scope_permits witness_hx witness_henv witness_call witness_route witness_hub \<or>
   registry_holds (hub_db witness_hub) (rt_server_id witness_route) (rt_upstream_tool_name witness_route)
     (rt_descriptor_hash witness_route) \<or>
   approved_while_waiting witness_hx witness_henv witness_call witness_route witness_hub"
  using enforced_call_was_granted [OF witness_serves _ _ prod.collapse [symmetric] witness_run(2)]
  by (auto simp: witness_serve_args_def witness_tools_call_def or_null_def)

theorem served_hub_keeps_setup_witness:
  "\<exists>h0 db0. build_hub_with_config witness_hx witness_net
      \<lparr>ss_env_var = (\<lambda>_. None), ss_keyring_get = (\<lambda>_ _. Inl [])\<rparr> witness_serve_env witness_serve_args None
      (new_registry (new_span_db empty_db)) = (Inr h0, db0) \<and>
    serves_as witness_serve_args (snd (serve_messages witness_vx witness_hx (\<lambda>_. witness_henv) 0 [JNumber ''1''] h0))"
proof -
  have "find_session ''u-1'' (new_registry (new_span_db empty_db)) = None" by code_simp
  then obtain h0 db0 where built: "build_hub_with_config witness_hx witness_net
      \<lparr>ss_env_var = (\<lambda>_. None), ss_keyring_get = (\<lambda>_ _. Inl [])\<rparr> witness_serve_env witness_serve_args None
      (new_registry (new_span_db empty_db)) = (Inr h0, db0)"
    by (auto simp: build_hub_with_config_def start_session_def validate_nonempty_def witness_serve_env_def
        witness_serve_args_def witness_env_def witness_henv_def Let_def)
  with served_hub_keeps_setup [OF built prod.collapse [symmetric]] show ?thesis by blast
qed

end
