(* ===== verification/Wire.thy ===== *)
theory Wire
  imports Scan Rpc
begin

text \<open>
  Talking to the warm scanner process (crate \<open>vigil-daemon-ipc\<close>): the findings it returns and how they
  are applied to a text (\<open>wire.rs\<close>), and the messages with their length-prefixed framing
  (\<open>protocol.rs\<close>). A result \<open>None\<close> of a string operation is a panic; that none happens is proved.
\<close>

section \<open>Findings on the wire\<close>

record wire_finding =
  wf_label :: string
  wf_start :: nat
  wf_end :: nat

fun cap_loop :: "string \<Rightarrow> nat \<Rightarrow> nat" where
  "cap_loop s 0 = 0"
| "cap_loop s (Suc n) = (if is_char_boundary s (Suc n) then Suc n else cap_loop s n)"

definition cap_to_char_boundary :: "string \<Rightarrow> nat \<Rightarrow> string" where
  "cap_to_char_boundary s cap = (if length s \<le> cap then s else take (cap_loop s cap) s)"

definition safe_label :: "string \<Rightarrow> string" where
  "safe_label label =
     (let cleaned = take 32 (filter (\<lambda>c. is_ascii_alphanumeric c \<or> c = CHR ''_'') label) in
      if cleaned = [] then ''pii'' else cleaned)"

text \<open>\<open>String::replace_range\<close>.\<close>

definition checked_replace_range :: "string \<Rightarrow> nat \<Rightarrow> nat \<Rightarrow> string \<Rightarrow> string option" where
  "checked_replace_range s a b r =
     (if a \<le> b \<and> b \<le> length s \<and> is_char_boundary s a \<and> is_char_boundary s b
      then Some (take a s @ r @ drop b s) else None)"

fun uncovered :: "span list \<Rightarrow> nat \<times> span list \<Rightarrow> nat \<times> span list" where
  "uncovered [] st = st"
| "uncovered ((a, b) # blocks) (cursor, out) =
     uncovered blocks (if b > cursor then b else cursor, if a > cursor then out @ [(cursor, a)] else out)"

definition subtract_ranges :: "nat \<Rightarrow> nat \<Rightarrow> span list \<Rightarrow> span list" where
  "subtract_ranges start fin protected =
     (if start \<ge> fin then []
      else
        let blocks = filter (\<lambda>(a, b). a < b) (map (\<lambda>(a, b). (max a start, min b fin)) protected) in
        if blocks = [] then [(start, fin)]
        else
          (case uncovered (sort blocks) (start, []) of
             (cursor, out) \<Rightarrow> if cursor < fin then out @ [(cursor, fin)] else out))"

definition wire_span_ok :: "string \<Rightarrow> nat \<Rightarrow> wire_finding \<Rightarrow> bool" where
  "wire_span_ok seg scanned_len f \<longleftrightarrow>
     wf_start f < wf_end f \<and> wf_end f \<le> scanned_len \<and>
     is_char_boundary seg (wf_start f) \<and> is_char_boundary seg (wf_end f)"

definition merge_wire_span ::
  "(nat \<times> nat \<times> string) list \<Rightarrow> nat \<times> nat \<times> string \<Rightarrow> (nat \<times> nat \<times> string) list" where
  "merge_wire_span merged sp =
     (case sp of (start, fin, label) \<Rightarrow>
        if merged \<noteq> [] \<and> start < fst (snd (last merged)) then
          (if fin > fst (snd (last merged))
           then butlast merged @ [(fst (last merged), fin, snd (snd (last merged)))] else merged)
        else merged @ [sp])"

definition wire_spans :: "string \<Rightarrow> nat \<Rightarrow> wire_finding list \<Rightarrow> span list \<Rightarrow> (nat \<times> nat \<times> string) list" where
  "wire_spans seg scanned_len findings protected =
     (let spans = map (\<lambda>f. (wf_start f, wf_end f, wf_label f)) (filter (wire_span_ok seg scanned_len) findings);
          sorted_spans = sort_key (\<lambda>(a, b, l). (int a, - int b)) spans;
          merged = foldl merge_wire_span [] sorted_spans in
      concat (map (\<lambda>(start, fin, label). map (\<lambda>(ss, se). (ss, se, label)) (subtract_ranges start fin protected)) merged))"

definition apply_wire_spans ::
  "string \<Rightarrow> nat \<Rightarrow> wire_finding list \<Rightarrow> span list \<Rightarrow> (string \<times> nat) option" where
  "apply_wire_spans seg scanned_len findings protected =
     (if filter (wire_span_ok seg scanned_len) findings = [] then Some (seg, 0)
      else
        let final_spans = wire_spans seg scanned_len findings protected in
        map_option (\<lambda>out. (out, length final_spans))
          (foldr (\<lambda>(a, b, label) out. Option.bind out (\<lambda>t. checked_replace_range t a b (placeholder (safe_label label))))
             final_spans (Some seg)))"

section \<open>Union and difference of spans\<close>

definition clipped :: "nat \<Rightarrow> span list \<Rightarrow> bool" where
  "clipped fin ss \<longleftrightarrow> (\<forall>(a, b) \<in> set ss. b \<le> fin)"

lemma sep_end_cons: "sep_end lo ((a, b) # ms) = sep_end b ms"
  by (simp add: sep_end_def)

lemma sep_end_ge: "sep lo ms \<Longrightarrow> lo \<le> sep_end lo ms"
proof (induction lo ms rule: sep.induct)
  case (2 lo a b ms)
  then show ?case by (simp add: sep_end_cons)
qed (simp add: sep_end_def)

lemma sep_upper: "sep lo ms \<Longrightarrow> (a, b) \<in> set ms \<Longrightarrow> b \<le> sep_end lo ms"
proof (induction lo ms rule: sep.induct)
  case (2 lo a' b' ms)
  then show ?case using sep_end_ge [of b' ms] by (auto simp: sep_end_cons)
qed simp

lemma uncovered_spec:
  assumes "uncovered blocks (cursor, out) = (cursor', out')"
    and "sorted (map fst blocks)" and "sep start out" and "sep_end start out \<le> cursor" and "start \<le> cursor"
    and "\<forall>(a, b) \<in> set blocks. start \<le> a \<and> a < b \<and> b \<le> fin" and "cursor \<le> fin"
  shows "sep start out' \<and> sep_end start out' \<le> cursor' \<and> start \<le> cursor' \<and> cursor' \<le> fin \<and>
    cover out' = cover out \<union> ({cursor..<cursor'} - cover blocks) \<and> cursor \<le> cursor' \<and>
    (\<forall>(a, b) \<in> set blocks. b \<le> cursor')"
  using assms
proof (induction blocks arbitrary: cursor out)
  case (Cons ab blocks)
  obtain a b where ab: "ab = (a, b)" by force
  let ?c = "if b > cursor then b else cursor"
  let ?o = "if a > cursor then out @ [(cursor, a)] else out"
  have pre: "start \<le> a" "a < b" "b \<le> fin" "\<forall>(a', b') \<in> set blocks. a \<le> a'"
    using Cons.prems by (auto simp: ab)
  have sep: "sep start ?o" "sep_end start ?o \<le> ?c"
    using Cons.prems(3-5) pre by (auto simp: sep_append sep_end_def split: if_splits)
  have r: "uncovered blocks (?c, ?o) = (cursor', out')" using Cons.prems(1) by (simp add: ab)
  have IH: "sep start out' \<and> sep_end start out' \<le> cursor' \<and> start \<le> cursor' \<and> cursor' \<le> fin \<and>
      cover out' = cover ?o \<union> ({?c..<cursor'} - cover blocks) \<and> ?c \<le> cursor' \<and> (\<forall>(a, b) \<in> set blocks. b \<le> cursor')"
    using Cons.IH [OF r] Cons.prems(2,5-7) pre sep by (auto simp: ab)
  have "cover ?o \<union> ({?c..<cursor'} - cover blocks) = cover out \<union> ({cursor..<cursor'} - cover (ab # blocks))"
  proof -
    have low: "i \<notin> cover blocks" if "i < a" for i
      using pre(4) that by (fastforce simp: cover_def)
    show ?thesis using IH pre low by (auto simp: ab cover_simps split: if_splits)
  qed
  with IH show ?case by (auto simp: ab split: if_splits)
qed auto

lemma subtract_ranges_spec:
  assumes "start \<le> fin"
  shows "sep start (subtract_ranges start fin protected) \<and> clipped fin (subtract_ranges start fin protected) \<and>
    cover (subtract_ranges start fin protected) = {start..<fin} - cover protected"
proof -
  define blocks where "blocks = filter (\<lambda>(a, b). a < b) (map (\<lambda>(a, b). (max a start, min b fin)) protected)"
  have cov: "cover blocks = cover protected \<inter> {start..<fin}"
    by (auto simp: blocks_def cover_def)
  show ?thesis
  proof (cases "start < fin \<and> blocks \<noteq> []")
    case True
    obtain c out where u: "uncovered (sort blocks) (start, []) = (c, out)" by force
    have "sorted (map fst (sort blocks))"
      by (rule sorted_map_mono) (auto simp: mono_on_def less_eq_prod_def)
    moreover have "\<forall>(a, b) \<in> set (sort blocks). start \<le> a \<and> a < b \<and> b \<le> fin"
      by (auto simp: blocks_def)
    ultimately have sp: "sep start out \<and> sep_end start out \<le> c \<and> start \<le> c \<and> c \<le> fin \<and>
        cover out = {start..<c} - cover (sort blocks) \<and> (\<forall>(a, b) \<in> set (sort blocks). b \<le> c)"
      using uncovered_spec [OF u, of start fin] True by (simp add: sep_end_def)
    have cs: "cover (sort blocks) = cover blocks" by (rule cover_set) simp
    have above: "i \<notin> cover blocks" if "c \<le> i" for i using sp that by (fastforce simp: cover_def)
    have "clipped fin out" using sp sep_upper [of start out] by (fastforce simp: clipped_def)
    moreover have "{start..<fin} - cover protected = {start..<c} - cover blocks \<union> {c..<fin}"
      using sp above by (auto simp: cov)
    ultimately show ?thesis using True sp cs
      by (auto simp: subtract_ranges_def blocks_def [symmetric] u sep_append clipped_def)
  next
    case False
    then show ?thesis using assms cov
      by (auto simp: subtract_ranges_def blocks_def [symmetric] clipped_def)
  qed
qed

lemma merge_wire_is_push: "merge_wire_span merged (h_start h, h_end h, h_name h) = push_merged merged h"
  by (cases merged rule: rev_cases) (auto simp: merge_wire_span_def push_merged_def split: prod.splits)

definition hit_of :: "nat \<times> nat \<times> string \<Rightarrow> hit" where
  "hit_of sp = \<lparr>h_start = fst sp, h_end = fst (snd sp), h_name = snd (snd sp), h_order = 0\<rparr>"

lemma merge_wire_fold: "foldl merge_wire_span merged sps = foldl push_merged merged (map hit_of sps)"
proof (induction sps arbitrary: merged)
  case (Cons sp sps)
  have "merge_wire_span merged sp = push_merged merged (hit_of sp)"
    using merge_wire_is_push [of merged "hit_of sp"] by (simp add: hit_of_def)
  with Cons show ?case by simp
qed simp

lemma difference_spans:
  assumes "sep lo (map iv merged)"
  shows "sep lo (map iv (concat (map (\<lambda>(start, fin, label). map (\<lambda>(ss, se). (ss, se, label)) (subtract_ranges start fin protected)) merged))) \<and>
    cover (map iv (concat (map (\<lambda>(start, fin, label). map (\<lambda>(ss, se). (ss, se, label)) (subtract_ranges start fin protected)) merged))) =
      cover (map iv merged) - cover protected"
  using assms
proof (induction merged arbitrary: lo)
  case (Cons m merged)
  obtain a b l where m: "m = (a, b, l)" by (cases m) auto
  let ?d = "subtract_ranges a b protected"
  have ab: "lo \<le> a" "a \<le> b" "sep b (map iv merged)" using Cons.prems by (auto simp: m)
  have d: "sep a ?d" "clipped b ?d" "cover ?d = {a..<b} - cover protected"
    using subtract_ranges_spec [OF ab(2)] by auto
  have iv: "map iv (map (\<lambda>(ss, se). (ss, se, l)) ?d) = ?d" by (simp add: case_prod_beta comp_def)
  have "sep_end lo ?d \<le> b"
    using d(2) ab by (cases ?d rule: rev_cases) (auto simp: sep_end_def clipped_def)
  with ab d(1) have "sep lo ?d" "sep (sep_end lo ?d) (map iv ms)" if "sep b (map iv ms)" for ms
    using that by (auto intro: sep_mono)
  with Cons.IH [OF ab(3)] d(3) show ?case
    by (simp add: m iv sep_append del: map_map) blast
qed simp

lemma wire_spans_spec:
  "sep 0 (map iv (wire_spans seg n findings protected))"
  "cover (map iv (wire_spans seg n findings protected)) =
     cover (map (\<lambda>f. (wf_start f, wf_end f)) (filter (wire_span_ok seg n) findings)) - cover protected"
proof -
  define sps where "sps = map (\<lambda>f. (wf_start f, wf_end f, wf_label f)) (filter (wire_span_ok seg n) findings)"
  define hs where "hs = map hit_of (sort_key (\<lambda>(a, b, l). (int a, - int b)) sps)"
  have "sorted (map (\<lambda>(a, b, l). (int a, - int b)) (sort_key (\<lambda>(a, b, l). (int a, - int b)) sps))" by simp
  then have "sorted (map h_start hs)"
    by (auto simp: hs_def sorted_iff_nth_mono hit_of_def case_prod_beta less_eq_prod_def) (meson less_imp_le)
  moreover have "\<forall>h \<in> set hs. h_start h \<le> h_end h"
    by (auto simp: hs_def sps_def hit_of_def wire_span_ok_def)
  ultimately have m: "sep 0 (map iv (foldl push_merged [] hs))"
    "cover (map iv (foldl push_merged [] hs)) = cover (map hit_span hs)"
    using merge_fold [of hs "[]"] by simp_all
  have "cover (map hit_span hs) = cover (map (\<lambda>f. (wf_start f, wf_end f)) (filter (wire_span_ok seg n) findings))"
    by (rule cover_set) (force simp: hs_def sps_def hit_of_def)
  with difference_spans [OF m(1), of protected] m(2)
  show "sep 0 (map iv (wire_spans seg n findings protected))"
    "cover (map iv (wire_spans seg n findings protected)) =
     cover (map (\<lambda>f. (wf_start f, wf_end f)) (filter (wire_span_ok seg n) findings)) - cover protected"
    by (simp_all add: wire_spans_def Let_def merge_wire_fold hs_def sps_def)
qed

section \<open>Replacing from the right\<close>

text \<open>
  Replacing disjoint spans one after the other, the last one first, renders the text with all of them
  replaced; no replacement splits a character when the spans do not.
\<close>

lemma boundary_prefix:
  assumes "i \<le> c" "c \<le> length s" "is_char_boundary s i"
    and "i = c \<Longrightarrow> 0 < c \<Longrightarrow> rest = [] \<or> \<not> utf8_cont (of_char (hd rest))"
  shows "is_char_boundary (take c s @ rest) i"
proof (cases "i = c")
  case True
  then show ?thesis using assms by (cases rest) (auto simp: is_char_boundary_def nth_append)
next
  case False
  then show ?thesis using assms by (auto simp: is_char_boundary_def nth_append)
qed

lemma render_head:
  assumes "sep c (map iv ms)" "c \<le> length s" "is_char_boundary s c" "0 < c" "\<forall>m \<in> set ms. fst (snd m) \<le> length s"
  shows "fst (render_merged s c ms [] []) = [] \<or> \<not> utf8_cont (of_char (hd (fst (render_merged s c ms [] []))))"
proof -
  have slice: "t = [] \<or> \<not> utf8_cont (of_char (hd t))" if "t = str_slice s c a" "a \<le> length s" for t a
    using assms(2-4) that by (cases "c < a") (auto simp: str_slice_def is_char_boundary_def hd_drop_conv_nth)
  show ?thesis
  proof (cases ms)
    case Nil
    then show ?thesis using slice [of "drop c s" "length s"] by (simp add: str_slice_def)
  next
    case (Cons m ms')
    obtain a b n where m: "m = (a, b, n)" by (cases m) auto
    have "\<not> utf8_cont (of_char (CHR ''[''))" by code_simp
    then show ?thesis using slice [of "str_slice s c a" a] assms(1,5) Cons m
      by (cases "str_slice s c a") (auto simp: render_cons Let_def placeholder_def simp del: render_merged.simps)
  qed
qed

lemma replace_all:
  assumes "sep c (map iv ms)" "c \<le> length s"
    and "\<forall>m \<in> set ms. fst (snd m) \<le> length s \<and> is_char_boundary s (fst m) \<and> is_char_boundary s (fst (snd m))"
  shows "foldr (\<lambda>(a, b, name) out. Option.bind out (\<lambda>t. checked_replace_range t a b (placeholder name))) ms (Some s) =
    Some (take c s @ fst (render_merged s c ms [] []))"
  using assms
proof (induction ms arbitrary: c)
  case (Cons m ms)
  obtain a b n where m: "m = (a, b, n)" by (cases m) auto
  have ab: "c \<le> a" "a \<le> b" "b \<le> length s" "is_char_boundary s a" "is_char_boundary s b" "sep b (map iv ms)"
    using Cons.prems by (auto simp: m)
  let ?r = "fst (render_merged s b ms [] [])"
  have "?r = [] \<or> \<not> utf8_cont (of_char (hd ?r))" if "0 < b"
    using render_head [OF ab(6,3,5) that] Cons.prems(3) by simp
  then have "is_char_boundary (take b s @ ?r) a" "is_char_boundary (take b s @ ?r) b"
    using boundary_prefix [of a b s ?r] boundary_prefix [of b b s ?r] ab by auto
  then have "checked_replace_range (take b s @ ?r) a b (placeholder n) = Some (take a s @ placeholder n @ ?r)"
    using ab by (simp add: checked_replace_range_def min_def)
  moreover have "take a s = take c s @ str_slice s c a"
    using take_add [of c "a - c" s] ab(1) by (simp add: str_slice_def)
  ultimately show ?case
    using Cons.IH [OF ab(6,3)] Cons.prems(3) by (simp add: m render_cons Let_def del: render_merged.simps)
qed simp

section \<open>Properties\<close>

lemma uncovered_ends:
  assumes "uncovered blocks (cursor, out) = (cursor', out')" "P cursor" "list_all (\<lambda>(a, b). P a \<and> P b) (blocks @ out)"
  shows "P cursor' \<and> list_all (\<lambda>(a, b). P a \<and> P b) out'"
  using assms
proof (induction blocks arbitrary: cursor out)
  case (Cons ab blocks)
  then show ?case by (cases ab) (auto split: if_splits)
qed simp

lemma subtract_ends:
  assumes "P start" "P fin" "list_all (\<lambda>(a, b). P a \<and> P b) protected"
  shows "list_all (\<lambda>(a, b). P a \<and> P b) (subtract_ranges start fin protected)"
proof -
  define blocks where "blocks = filter (\<lambda>(a, b). a < b) (map (\<lambda>(a, b). (max a start, min b fin)) protected)"
  have "list_all (\<lambda>(a, b). P a \<and> P b) (sort blocks @ [])"
    using assms by (fastforce simp: blocks_def list_all_iff max_def min_def)
  moreover obtain c out where u: "uncovered (sort blocks) (start, []) = (c, out)" by force
  ultimately have "P c \<and> list_all (\<lambda>(a, b). P a \<and> P b) out" using uncovered_ends [OF u, of P] assms(1) by simp
  then show ?thesis using assms by (simp add: subtract_ranges_def blocks_def [symmetric] u)
qed

lemma merge_ends:
  assumes "list_all (\<lambda>m. P (fst m) \<and> P (fst (snd m))) (merged @ sps)"
  shows "list_all (\<lambda>m. P (fst m) \<and> P (fst (snd m))) (foldl merge_wire_span merged sps)"
  using assms
proof (induction sps arbitrary: merged)
  case (Cons sp sps)
  have "list_all (\<lambda>m. P (fst m) \<and> P (fst (snd m))) (merge_wire_span merged sp)"
    using Cons.prems by (cases merged rule: rev_cases) (auto simp: merge_wire_span_def split: prod.splits)
  with Cons show ?case by simp
qed simp

lemma replaced_ends:
  assumes "m \<in> set (wire_spans seg n findings protected)"
    and "\<forall>(p, q) \<in> set protected. is_char_boundary seg p \<and> is_char_boundary seg q"
  shows "is_char_boundary seg (fst m) \<and> is_char_boundary seg (fst (snd m))"
proof -
  let ?sps = "map (\<lambda>f. (wf_start f, wf_end f, wf_label f)) (filter (wire_span_ok seg n) findings)"
  let ?merged = "foldl merge_wire_span [] (sort_key (\<lambda>(a, b, l). (int a, - int b)) ?sps)"
  have "list_all (\<lambda>m. is_char_boundary seg (fst m) \<and> is_char_boundary seg (fst (snd m))) ?merged"
    by (rule merge_ends) (auto simp: list_all_iff wire_span_ok_def)
  moreover obtain a b l where "(a, b, l) \<in> set ?merged" "(fst m, fst (snd m)) \<in> set (subtract_ranges a b protected)"
    using assms(1) by (auto simp: wire_spans_def Let_def)
  moreover have "list_all (\<lambda>(a, b). is_char_boundary seg a \<and> is_char_boundary seg b) protected"
    using assms(2) by (auto simp: list_all_iff)
  ultimately show ?thesis using subtract_ends [of "is_char_boundary seg" a b protected]
    by (fastforce simp: list_all_iff)
qed

definition wire_hits :: "string \<Rightarrow> nat \<Rightarrow> wire_finding list \<Rightarrow> nat set" where
  "wire_hits seg n findings = cover (map (\<lambda>f. (wf_start f, wf_end f)) (filter (wire_span_ok seg n) findings))"

lemma apply_wire_spans_render:
  assumes "n \<le> length seg"
    and "\<forall>(p, q) \<in> set protected. is_char_boundary seg p \<and> is_char_boundary seg q"
  shows "\<exists>out ms spans. apply_wire_spans seg n findings protected = Some (out, length ms) \<and>
    sep 0 (map iv ms) \<and> cover (map iv ms) = wire_hits seg n findings - cover protected \<and>
    render_merged seg 0 ms [] [] = (out, spans) \<and>
    nths out (- cover spans) = nths seg (- (wire_hits seg n findings - cover protected))"
proof -
  define fs where "fs = wire_spans seg n findings protected"
  define ms where "ms = map (\<lambda>(a, b, l). (a, b, safe_label l)) fs"
  have iv: "map iv ms = map iv fs" by (simp add: ms_def case_prod_beta)
  have sp: "sep 0 (map iv ms)" "cover (map iv ms) = wire_hits seg n findings - cover protected"
    using wire_spans_spec [of seg n findings protected] by (simp_all add: iv fs_def wire_hits_def)
  have ends: "\<forall>m \<in> set ms. fst (snd m) \<le> length seg \<and> is_char_boundary seg (fst m) \<and> is_char_boundary seg (fst (snd m))"
    using replaced_ends [OF _ assms(2)] by (fastforce simp: ms_def fs_def is_char_boundary_def)
  obtain out spans where r: "render_merged seg 0 ms [] [] = (out, spans)" by force
  have "foldr (\<lambda>(a, b, l) out. Option.bind out (\<lambda>t. checked_replace_range t a b (placeholder (safe_label l)))) fs (Some seg) = Some out"
    using replace_all [OF sp(1) _ ends] r by (simp add: ms_def foldr_map comp_def case_prod_unfold)
  moreover have "fs = []" if "filter (wire_span_ok seg n) findings = []" using that by (simp add: fs_def wire_spans_def)
  ultimately have "apply_wire_spans seg n findings protected = Some (out, length ms)"
    by (auto simp: apply_wire_spans_def fs_def [symmetric] Let_def ms_def)
  with sp r render_outside [OF sp(1), of seg] ends show ?thesis by (auto simp del: render_merged.simps)
qed

lemma wire_spans_total:
  assumes "n \<le> length seg"
    and "\<forall>(p, q) \<in> set protected. is_char_boundary seg p \<and> is_char_boundary seg q"
  shows "\<exists>out hits. apply_wire_spans seg n findings protected = Some (out, hits)"
  using apply_wire_spans_render [OF assms] by blast

text \<open>
  C32. Applying the findings of the scanner process hides all it found and leaves what is hidden alone.
  For a prefix that ends inside the text and protected ranges that do not split a character, nothing
  panics, and the output is the text in which disjoint ranges are replaced by placeholders: exactly the
  bytes that some well-formed finding covers, however the findings overlap or are nested, except the
  bytes of the protected ranges. The count is the number of ranges replaced.
\<close>

theorem wire_spans_hide_all_findings:
  assumes "n \<le> length seg"
    and "\<forall>(p, q) \<in> set protected. is_char_boundary seg p \<and> is_char_boundary seg q"
  shows "\<exists>out ms spans. apply_wire_spans seg n findings protected = Some (out, length ms) \<and>
    sep 0 (map iv ms) \<and> cover (map iv ms) = wire_hits seg n findings - cover protected \<and>
    render_merged seg 0 ms [] [] = (out, spans) \<and>
    nths out (- cover spans) = nths seg (- (wire_hits seg n findings - cover protected))"
  using assms by (rule apply_wire_spans_render)

text \<open>Two overlapping findings, one of them reaching into a placeholder.\<close>

abbreviation witness_seg :: string where
  "witness_seg \<equiv> ''ann lee [REDACTED x] bob''"

definition witness_findings :: "wire_finding list" where
  "witness_findings =
     [\<lparr>wf_label = ''person'', wf_start = 4, wf_end = 10\<rparr>, \<lparr>wf_label = ''name'', wf_start = 0, wf_end = 7\<rparr>]"

theorem wire_spans_hide_all_findings_witness:
  "apply_wire_spans witness_seg 24 witness_findings [(8, 20)] = Some (''[REDACTED name][REDACTED x] bob'', 1) \<and>
   (\<exists>ms. length ms = 1 \<and> cover (map iv ms) = wire_hits witness_seg 24 witness_findings - cover [(8, 20)])"
proof -
  have run: "apply_wire_spans witness_seg 24 witness_findings [(8, 20)] = Some (''[REDACTED name][REDACTED x] bob'', 1)"
    by code_simp
  have "is_char_boundary witness_seg 8" "is_char_boundary witness_seg 20" by code_simp+
  with wire_spans_hide_all_findings [of 24 witness_seg "[(8, 20)]" witness_findings] run show ?thesis by auto
qed

section \<open>Reading whole buffers\<close>

text \<open>
  What successive calls of \<open>read\<close> return: some bytes (none means the end of the stream), an
  interruption, or an error; after the last event the stream has ended. A call with a smaller buffer
  leaves the rest of the bytes for the next one. \<open>fill_buf\<close> is the loop of \<open>read_exact\<close>.
\<close>

datatype read_event = RE_Data string | RE_Interrupted | RE_Error

datatype filled = Filled string | Ran_Out string | Read_Failed

fun fill_buf :: "read_event list \<Rightarrow> nat \<Rightarrow> string \<Rightarrow> filled \<times> read_event list" where
  "fill_buf evs 0 buf = (Filled buf, evs)"
| "fill_buf [] (Suc n) buf = (Ran_Out buf, [])"
| "fill_buf (RE_Interrupted # evs) (Suc n) buf = fill_buf evs (Suc n) buf"
| "fill_buf (RE_Error # evs) (Suc n) buf = (Read_Failed, evs)"
| "fill_buf (RE_Data s # evs) (Suc n) buf =
     (if s = [] then (Ran_Out buf, evs)
      else if length s \<le> Suc n then fill_buf evs (Suc n - length s) (buf @ s)
      else (Filled (buf @ take (Suc n) s), RE_Data (drop (Suc n) s) # evs))"

definition le_bytes :: "nat \<Rightarrow> string" where
  "le_bytes n = map (\<lambda>k. char_of (k :: nat)) [n mod 256, n div 256 mod 256, n div 65536 mod 256, n div 16777216 mod 256]"

definition from_le_bytes :: "string \<Rightarrow> nat" where
  "from_le_bytes s = foldr (\<lambda>c n. of_char c + 256 * n) s 0"

lemma length_le_bytes [simp]: "length (le_bytes n) = 4"
  by (simp add: le_bytes_def)

lemma from_le_bytes [simp]: "n < 2 ^ 32 \<Longrightarrow> from_le_bytes (le_bytes n) = n"
proof -
  assume n: "n < 2 ^ 32"
  have "n div 65536 = n div 256 div 256" "n div 16777216 = n div 256 div 256 div 256"
    by (simp_all flip: div_mult2_eq)
  moreover have "n mod 256 + 256 * (n div 256) = n"
    "n div 256 mod 256 + 256 * (n div 256 div 256) = n div 256"
    "n div 256 div 256 mod 256 + 256 * (n div 256 div 256 div 256) = n div 256 div 256"
    by (rule mod_mult_div_eq)+
  moreover have "n div 256 div 256 div 256 < 256" using n by (simp flip: div_mult2_eq)
  then have "n div 256 div 256 div 256 mod 256 = n div 256 div 256 div 256" by (rule mod_less)
  ultimately show ?thesis unfolding le_bytes_def from_le_bytes_def by simp
qed

text \<open>The bytes of a stream that neither fails nor ends early, however they are cut into reads.\<close>

fun stream_bytes :: "read_event list \<Rightarrow> string option" where
  "stream_bytes [] = Some []"
| "stream_bytes (RE_Data s # evs) = (if s = [] then None else map_option ((@) s) (stream_bytes evs))"
| "stream_bytes (RE_Interrupted # evs) = stream_bytes evs"
| "stream_bytes (RE_Error # evs) = None"

lemma fill_buf_enough:
  assumes "stream_bytes evs = Some bs" "n \<le> length bs"
  shows "\<exists>evs'. fill_buf evs n buf = (Filled (buf @ take n bs), evs') \<and> stream_bytes evs' = Some (drop n bs)"
  using assms
proof (induction evs n buf arbitrary: bs rule: fill_buf.induct)
  case (5 s evs n buf)
  then obtain bs' where bs: "stream_bytes evs = Some bs'" "bs = s @ bs'" "s \<noteq> []" by (auto split: if_splits)
  show ?case
  proof (cases "length s \<le> Suc n")
    case True
    with 5 bs show ?thesis by fastforce
  next
    case False
    with bs show ?thesis by auto
  qed
qed auto

lemma fill_buf_short:
  assumes "stream_bytes evs = Some bs" "length bs < n"
  shows "fill_buf evs n buf = (Ran_Out (buf @ bs), [])"
  using assms
proof (induction evs n buf arbitrary: bs rule: fill_buf.induct)
  case (5 s evs n buf)
  then obtain bs' where bs: "stream_bytes evs = Some bs'" "bs = s @ bs'" "s \<noteq> []" by (auto split: if_splits)
  with 5 show ?case by fastforce
qed auto

section \<open>Messages\<close>

definition PROTOCOL_VERSION :: nat where
  "PROTOCOL_VERSION = 1"

definition MAX_FRAME_BYTES :: nat where
  "MAX_FRAME_BYTES = 4 * 1024 * 1024"

record hello =
  hl_version :: nat
  hl_token :: string

datatype scan_kind = SK_Result | SK_Descriptor | SK_Args

datatype ipc_request =
    RedactScan scan_kind string
  | ClassifyInjection string string
  | StatusQuery

datatype ipc_response =
    HelloOk nat bool bool
  | Findings "wire_finding list"
  | Ack
  | StatusReport bool bool u64 u32
  | ErrorReply string

datatype frame_error = FrE_Io | FrE_TooLarge nat | FrE_Codec

text \<open>
  A connection: what will be read, what was written, and which of the coming frame writes succeed (the
  list running out means that they do). The derived coders of the messages are parameters.
\<close>

record connection =
  cn_reads :: "read_event list"
  cn_written :: string
  cn_writes :: "bool list"

record ipc_codec =
  ic_hello :: "hello \<Rightarrow> string option"
  ic_request :: "ipc_request \<Rightarrow> string option"
  ic_response :: "string \<Rightarrow> ipc_response option"

definition write_frame :: "string option \<Rightarrow> connection \<Rightarrow> (frame_error + unit) \<times> connection" where
  "write_frame encoded cn =
     (case encoded of
        None \<Rightarrow> (Inl FrE_Codec, cn)
      | Some body \<Rightarrow>
          if length body > MAX_FRAME_BYTES then (Inl (FrE_TooLarge MAX_FRAME_BYTES), cn)
          else if cn_writes cn \<noteq> [] \<and> \<not> hd (cn_writes cn) then (Inl FrE_Io, cn\<lparr>cn_writes := tl (cn_writes cn)\<rparr>)
          else (Inr (), cn\<lparr>cn_written := cn_written cn @ le_bytes (length body) @ body, cn_writes := tl (cn_writes cn)\<rparr>))"

definition read_exact :: "nat \<Rightarrow> connection \<Rightarrow> (frame_error + string) \<times> connection" where
  "read_exact n cn =
     (case fill_buf (cn_reads cn) n [] of
        (Filled buf, evs) \<Rightarrow> (Inr buf, cn\<lparr>cn_reads := evs\<rparr>)
      | (_, evs) \<Rightarrow> (Inl FrE_Io, cn\<lparr>cn_reads := evs\<rparr>))"

definition read_frame :: "(string \<Rightarrow> 'm option) \<Rightarrow> connection \<Rightarrow> (frame_error + 'm) \<times> connection" where
  "read_frame decode cn =
     (case read_exact 4 cn of
        (Inl e, cn1) \<Rightarrow> (Inl e, cn1)
      | (Inr len_buf, cn1) \<Rightarrow>
          let len = from_le_bytes len_buf in
          if len > MAX_FRAME_BYTES then (Inl (FrE_TooLarge len), cn1)
          else
            (case read_exact len cn1 of
               (Inl e, cn2) \<Rightarrow> (Inl e, cn2)
             | (Inr body, cn2) \<Rightarrow> (case decode body of None \<Rightarrow> Inl FrE_Codec | Some m \<Rightarrow> Inr m, cn2)))"

record daemon_info =
  di_pid :: nat
  di_socket_path :: string
  di_token :: string
  di_protocol_version :: nat
  di_pii_loaded :: bool
  di_inj_loaded :: bool

definition read_daemon_info :: "(string \<Rightarrow> daemon_info option) \<Rightarrow> string option \<Rightarrow> daemon_info option" where
  "read_daemon_info parse file =
     Option.bind file (\<lambda>raw. Option.bind (parse raw) (\<lambda>info.
       if di_protocol_version info \<noteq> PROTOCOL_VERSION then None else Some info))"

definition exchange :: "ipc_codec \<Rightarrow> string \<Rightarrow> ipc_request \<Rightarrow> connection \<Rightarrow> ipc_response option" where
  "exchange cx token request cn =
     (case write_frame (ic_hello cx \<lparr>hl_version = PROTOCOL_VERSION, hl_token = token\<rparr>) cn of
        (Inl _, _) \<Rightarrow> None
      | (Inr _, cn1) \<Rightarrow>
          (case read_frame (ic_response cx) cn1 of
             (Inr (HelloOk v _ _), cn2) \<Rightarrow>
               if v = PROTOCOL_VERSION then
                 (case write_frame (ic_request cx request) cn2 of
                    (Inl _, _) \<Rightarrow> None
                  | (Inr _, cn3) \<Rightarrow>
                      (case read_frame (ic_response cx) cn3 of
                         (Inr (ErrorReply _), _) \<Rightarrow> None
                       | (Inr other, _) \<Rightarrow> Some other
                       | (Inl _, _) \<Rightarrow> None))
               else None
           | _ \<Rightarrow> None))"

text \<open>
  The local socket: connecting gives the process id of the peer, where the system can tell, and the
  connection. \<open>in_time\<close> says whether the worker answered before the deadline.
\<close>

definition connect_and_verify ::
  "(string \<Rightarrow> (nat option \<times> connection) option) \<Rightarrow> string \<Rightarrow> nat \<Rightarrow> connection option" where
  "connect_and_verify connect socket_name expected_pid =
     Option.bind (connect socket_name) (\<lambda>(peer, cn). Option.bind peer (\<lambda>pid.
       if pid \<noteq> expected_pid then None else Some cn))"

definition query_with ::
  "ipc_codec \<Rightarrow> (string \<Rightarrow> (nat option \<times> connection) option) \<Rightarrow> daemon_info \<Rightarrow> ipc_request \<Rightarrow> ipc_response option" where
  "query_with cx connect info request =
     Option.bind (connect_and_verify connect (di_socket_path info) (di_pid info))
       (exchange cx (di_token info) request)"

definition query_daemon ::
  "ipc_codec \<Rightarrow> (string \<Rightarrow> (nat option \<times> connection) option) \<Rightarrow> (string \<Rightarrow> daemon_info option) \<Rightarrow> string option \<Rightarrow> bool
   \<Rightarrow> ipc_request \<Rightarrow> ipc_response option" where
  "query_daemon cx connect parse file in_time request =
     (if in_time then
        Option.bind (read_daemon_info parse file) (\<lambda>info. query_with cx connect info request)
      else None)"

lemma read_frame_chunks:
  assumes "stream_bytes (cn_reads cn) = Some (le_bytes (length body) @ body @ rest)" "length body \<le> MAX_FRAME_BYTES"
  shows "\<exists>evs. read_frame decode cn = (case decode body of None \<Rightarrow> Inl FrE_Codec | Some m \<Rightarrow> Inr m, cn\<lparr>cn_reads := evs\<rparr>) \<and>
    stream_bytes evs = Some rest"
proof -
  obtain evs where a: "fill_buf (cn_reads cn) 4 [] = (Filled (le_bytes (length body)), evs)"
    "stream_bytes evs = Some (body @ rest)"
    using fill_buf_enough [OF assms(1), of 4 "[]"] by auto
  obtain evs' where b: "fill_buf evs (length body) [] = (Filled body, evs')" "stream_bytes evs' = Some rest"
    using fill_buf_enough [OF a(2), of "length body" "[]"] by auto
  have "length body < 2 ^ 32" using assms(2) by (simp add: MAX_FRAME_BYTES_def)
  with a b assms(2) show ?thesis by (auto simp: read_frame_def read_exact_def)
qed

end
