(* ===== verification/Guard.thy ===== *)
theory Guard
  imports Serve
begin

text \<open>
  The command guard of the editor hook (\<open>apps/vigil-hub-cli/src/command_guard.rs\<close>): it sorts a shell
  command into catastrophic, dangerous or neither before a coding agent may run it. A command is cut
  into segments, each segment is split into words (\<open>shlex\<close>, a parameter), wrappers such as \<open>sudo\<close> are
  taken off, and the scripts of \<open>bash -c\<close> and of \<open>env -S\<close> are examined in turn, at most four levels
  deep. Positions in an argument vector are modelled by the suffix that starts there. The regular
  expressions are kept as the source writes them and matched by a parameter.
\<close>

section \<open>Patterns\<close>

definition FORK_BOMB :: string where
  "FORK_BOMB =
      ''[A-Za-z_:][A-Za-z0-9_:]*'' @ [CHR 0x5C] @ ''s*'' @ [CHR 0x5C] @ ''('' @ [CHR 0x5C] @
      ''s*'' @ [CHR 0x5C] @ '')'' @ [CHR 0x5C] @ ''s*'' @ [CHR 0x5C] @ ''{[^}]*'' @
      [CHR 0x5C] @ ''|[^}]*&[^}]*'' @ [CHR 0x5C] @ ''}''"

definition REMOTE_PIPE_SHELL :: string where
  "REMOTE_PIPE_SHELL =
      ''(?i)'' @ [CHR 0x5C] @ ''b(curl|wget|fetch)'' @ [CHR 0x5C] @ ''b[^|]*'' @ [CHR 0x5C] @
      ''|'' @ [CHR 0x5C] @ ''s*(sudo'' @ [CHR 0x5C] @
      ''s+)?(sh|bash|zsh|ksh|dash|python[0-9.]*|perl|ruby|node)'' @ [CHR 0x5C] @ ''b''"

definition EVAL_DOWNLOAD :: string where
  "EVAL_DOWNLOAD =
      ''(?i)(eval'' @ [CHR 0x5C] @ ''s+['' @ [CHR 0x22, CHR 0x27] @ '']?'' @ [CHR 0x5C] @
      ''$'' @ [CHR 0x5C] @ ''(('' @ [CHR 0x5C] @ ''s*(curl|wget))|(iex|invoke-expression)'' @
      [CHR 0x5C] @ ''b.*(downloadstring|invoke-webrequest|iwr|net'' @ [CHR 0x5C] @
      ''.webclient)|(downloadstring|iwr|invoke-webrequest)'' @ [CHR 0x5C] @ ''b.*'' @
      [CHR 0x5C] @ ''|'' @ [CHR 0x5C] @ ''s*(iex|invoke-expression))''"

definition PIPE_TO_SHELL :: string where
  "PIPE_TO_SHELL =
      ''(?i)'' @ [CHR 0x5C] @ ''|'' @ [CHR 0x5C] @ ''s*(sudo'' @ [CHR 0x5C] @
      ''s+)?(sh|bash|zsh|ksh|dash|python[0-9.]*|perl|ruby|node)'' @ [CHR 0x5C] @ ''b''"

definition WRITE_INDICATOR :: string where
  "WRITE_INDICATOR =
      ''(>>|>|'' @ [CHR 0x5C] @ ''btee'' @ [CHR 0x5C] @ ''b|'' @ [CHR 0x5C] @ ''bsed'' @
      [CHR 0x5C] @ ''b'' @ [CHR 0x5C] @ ''s+-i|'' @ [CHR 0x5C] @ ''bcp'' @ [CHR 0x5C] @
      ''b|'' @ [CHR 0x5C] @ ''bmv'' @ [CHR 0x5C] @ ''b|'' @ [CHR 0x5C] @ ''binstall'' @
      [CHR 0x5C] @ ''b)''"

definition SENSITIVE_PERSIST_FILE :: string where
  "SENSITIVE_PERSIST_FILE =
      ''(?i)('' @ [CHR 0x5C] @ ''.bashrc|'' @ [CHR 0x5C] @ ''.bash_profile|'' @ [CHR 0x5C] @
      ''.bash_login|'' @ [CHR 0x5C] @ ''.zshrc|'' @ [CHR 0x5C] @ ''.zprofile|'' @
      [CHR 0x5C] @ ''.zshenv|'' @ [CHR 0x5C] @ ''.profile|/'' @ [CHR 0x5C] @
      ''.ssh/authorized_keys|/etc/cron|/var/spool/cron|/etc/systemd/system|/'' @ [CHR 0x5C] @
      ''.config/systemd/user|/library/launchagents|/library/launchdaemons|'' @ [CHR 0x5C] @
      ''.git/hooks/|start menu'' @ [CHR 0x5C, CHR 0x5C] @ ''programs'' @
      [CHR 0x5C, CHR 0x5C] @ ''startup)''"

definition CRONTAB :: string where
  "CRONTAB =
      ''(?i)'' @ [CHR 0x5C] @ ''bcrontab'' @ [CHR 0x5C] @ ''b''"

definition PERSIST_VERB :: string where
  "PERSIST_VERB =
      ''(?i)(systemctl'' @ [CHR 0x5C] @ ''s+(--user'' @ [CHR 0x5C] @ ''s+)?enable'' @
      [CHR 0x5C] @ ''b|launchctl'' @ [CHR 0x5C] @ ''s+(load|bootstrap)'' @ [CHR 0x5C] @
      ''b|schtasks'' @ [CHR 0x5C] @ ''s+/create'' @ [CHR 0x5C] @ ''b|'' @ [CHR 0x5C] @
      ''breg'' @ [CHR 0x5C] @ ''b'' @ [CHR 0x5C] @ ''s+add'' @ [CHR 0x5C] @ ''b[^'' @
      [CHR 0x5C] @ ''n]*'' @ [CHR 0x5C, CHR 0x5C] @ ''run)''"

definition HAS_DESTRUCTIVE_WORD :: string where
  "HAS_DESTRUCTIVE_WORD =
      ''(?i)'' @ [CHR 0x5C] @ ''b(rm|rmdir|shred|mkfs|dd|fdisk|format|del|erase)'' @
      [CHR 0x5C] @ ''b''"

definition BARE_VAR_EXPANSION :: string where
  "BARE_VAR_EXPANSION =
      ''^'' @ [CHR 0x5C] @ ''$'' @ [CHR 0x5C] @ ''{?[A-Za-z_][A-Za-z0-9_]*'' @ [CHR 0x5C] @
      ''}?/''"
section \<open>Risks\<close>

datatype guard_tier = Catastrophic | Dangerous

datatype guard_category =
    FilesystemWipe
  | DeviceOrDiskWrite
  | ForkBomb
  | RemoteExecInstall
  | Persistence
  | OutsideProjectDeletion
  | SuspiciousExpansion

fun audit_tag :: "guard_category \<Rightarrow> string" where
  "audit_tag FilesystemWipe = ''filesystem_wipe''"
| "audit_tag DeviceOrDiskWrite = ''device_or_disk_write''"
| "audit_tag ForkBomb = ''fork_bomb''"
| "audit_tag RemoteExecInstall = ''remote_exec_install''"
| "audit_tag Persistence = ''persistence''"
| "audit_tag OutsideProjectDeletion = ''outside_project_deletion''"
| "audit_tag SuspiciousExpansion = ''suspicious_expansion''"

record command_risk =
  cr_tier :: guard_tier
  cr_category :: guard_category
  cr_detail :: string

fun tier_rank :: "guard_tier \<Rightarrow> nat" where
  "tier_rank Dangerous = 1"
| "tier_rank Catastrophic = 2"

text \<open>The closure \<open>consider\<close>: keep the first risk of the highest tier.\<close>

definition consider_risk :: "command_risk option \<Rightarrow> command_risk \<Rightarrow> command_risk option" where
  "consider_risk best r =
     (case best of
        None \<Rightarrow> Some r
      | Some b \<Rightarrow> if tier_rank (cr_tier r) > tier_rank (cr_tier b) then Some r else best)"

definition consider_some :: "command_risk option \<Rightarrow> command_risk option \<Rightarrow> command_risk option" where
  "consider_some best o' = (case o' of None \<Rightarrow> best | Some r \<Rightarrow> consider_risk best r)"

definition consider_if :: "bool \<Rightarrow> command_risk \<Rightarrow> command_risk option \<Rightarrow> command_risk option" where
  "consider_if c r best = (if c then consider_risk best r else best)"

section \<open>Paths\<close>

definition strip_quotes :: "string \<Rightarrow> string" where
  "strip_quotes s = str_trim_matches (\<lambda>c. c = CHR 0x27 \<or> c = CHR 0x22) s"

definition trim_slashes :: "string \<Rightarrow> string" where
  "trim_slashes s = rev (dropWhile ((=) (CHR ''/'')) (rev s))"

definition RC_FILES :: "string list" where
  "RC_FILES =
     [''.bashrc'', ''.bash_profile'', ''.bash_login'', ''.zshrc'', ''.zprofile'', ''.zshenv'', ''.profile'']"

definition SENSITIVE_PATHS :: "string list" where
  "SENSITIVE_PATHS =
     [''/.ssh/authorized_keys'', ''/etc/cron'', ''/var/spool/cron'', ''/etc/systemd/system'',
      ''/.config/systemd/user'', ''/library/launchagents'', ''/library/launchdaemons'',
      ''/.git/hooks/'', ''start menu/programs/startup'']"

definition is_persistence_write_target :: "string \<Rightarrow> bool" where
  "is_persistence_write_target path \<longleftrightarrow>
     path \<noteq> [] \<and>
     (let norm = to_ascii_lowercase (str_replace_char (CHR 0x5C) (CHR ''/'') path);
          base = last (str_split (CHR ''/'') norm) in
      base \<in> set RC_FILES \<or> list_ex (str_contains norm) SENSITIVE_PATHS)"

definition file_write_risk :: command_risk where
  "file_write_risk =
     \<lparr>cr_tier = Dangerous, cr_category = Persistence,
      cr_detail = ''writes to a shell startup file, SSH authorized_keys, a cron/systemd/launchd unit, or a git hook '' @ [CHR 0xE2, CHR 0x80, CHR 0x94] @ '' a persistence foothold that runs code automatically''\<rparr>"

definition classify_file_write :: "string \<Rightarrow> command_risk option" where
  "classify_file_write file_path =
     (if is_persistence_write_target (strip_quotes (str_trim file_path)) then Some file_write_risk else None)"

definition SYSTEM_ROOTS :: "string list" where
  "SYSTEM_ROOTS =
     [[], ''/etc'', ''/usr'', ''/var'', ''/bin'', ''/sbin'', ''/lib'', ''/lib64'', ''/boot'', ''/sys'',
      ''/proc'', ''/dev'', ''/opt'', ''/root'', ''/home'', ''/System'', ''/Library'', ''/Applications'',
      ''C:'' @ [CHR 0x5C] @ ''Windows'', ''C:'' @ [CHR 0x5C] @ ''Program Files'', ''C:'', ''C:'' @ [CHR 0x5C]]"

definition is_system_root_path :: "string \<Rightarrow> bool" where
  "is_system_root_path t0 \<longleftrightarrow>
     (let t = trim_slashes t0 in t = [] \<or> t = ''/'' \<or> t \<in> set SYSTEM_ROOTS)"

definition is_catastrophic_rm_target :: "string \<Rightarrow> bool" where
  "is_catastrophic_rm_target t0 \<longleftrightarrow>
     (let t = trim_slashes t0 in
      t = [] \<or>
      t \<in> {''~'', ''$HOME'', ''${HOME}'', ''%USERPROFILE%'', ''/*'', ''~/*'', ''$HOME/*''} \<or>
      is_system_root_path t \<or> t = ''/.'')"

definition is_current_dir_wipe :: "string \<Rightarrow> bool" where
  "is_current_dir_wipe t \<longleftrightarrow>
     t \<in> {''.'', ''./'', ''*'', ''./*'', ''.*'', ''$PWD'', ''${PWD}'', ''$PWD/*'', ''${PWD}/*''}"

definition is_bare_var_expansion :: "externs \<Rightarrow> string \<Rightarrow> bool" where
  "is_bare_var_expansion x t = x_regex_is_match x BARE_VAR_EXPANSION t"

definition path_under :: "string \<Rightarrow> string \<Rightarrow> bool" where
  "path_under path root \<longleftrightarrow>
     (let p = trim_slashes path in p = root \<or> str_starts_with p (root @ ''/''))"

definition is_windows_abs :: "string \<Rightarrow> bool" where
  "is_windows_abs b \<longleftrightarrow>
     length b \<ge> 3 \<and> is_ascii_alphabetic (b ! 0) \<and> b ! 1 = CHR '':'' \<and>
     (b ! 2 = CHR 0x5C \<or> b ! 2 = CHR ''/'')"

definition is_windows_drive_only :: "string \<Rightarrow> bool" where
  "is_windows_drive_only b \<longleftrightarrow>
     length b \<le> 3 \<and> length b \<ge> 2 \<and> is_ascii_alphabetic (b ! 0) \<and> b ! 1 = CHR '':''"

definition is_outside_project :: "string \<Rightarrow> string option \<Rightarrow> bool" where
  "is_outside_project t project_root =
     (let home_like = str_starts_with t ''~/'' \<or> str_starts_with t ''$HOME'' \<or> str_starts_with t ''${HOME}'';
          absolute = str_starts_with t ''/'' \<or> is_windows_abs t in
      case project_root of
        Some root0 \<Rightarrow>
          (let root = trim_slashes root0 in
           if absolute then \<not> path_under t root
           else if home_like then \<not> str_starts_with t root
           else str_contains t ''../'' \<or> t = ''..'')
      | None \<Rightarrow> home_like \<or> (absolute \<and> \<not> is_windows_drive_only t))"

section \<open>Words of a segment\<close>

text \<open>\<open>segments\<close>: cut at \<open>&&\<close>, \<open>||\<close>, \<open>|\<close>, \<open>;\<close>, \<open>&\<close> and line ends, quotes notwithstanding.\<close>

fun segments_loop :: "string \<Rightarrow> string \<Rightarrow> string list" where
  "segments_loop cur [] = (if str_trim cur \<noteq> [] then [cur] else [])"
| "segments_loop cur (c # cs) =
     (if (c = CHR ''&'' \<or> c = CHR ''|'') \<and> cs \<noteq> [] \<and> hd cs = c then cur # segments_loop [] (tl cs)
      else if c = CHR ''|'' \<or> c = CHR '';'' \<or> c = CHR 0x0A \<or> c = CHR ''&'' then cur # segments_loop [] cs
      else segments_loop (cur @ [c]) cs)"

definition segments :: "string \<Rightarrow> string list" where
  "segments command = filter (\<lambda>s. str_trim s \<noteq> []) (segments_loop [] command)"

definition bin_name :: "string \<Rightarrow> string" where
  "bin_name a = strip_exe (to_ascii_lowercase (basename a))"

definition CMD_WRAPPERS :: "string list" where
  "CMD_WRAPPERS =
     [''sudo'', ''doas'', ''env'', ''nohup'', ''nice'', ''ionice'', ''time'', ''command'', ''setsid'',
      ''stdbuf'', ''timeout'', ''xargs'']"

definition SHELL_INTERP :: "string list" where
  "SHELL_INTERP = [''sh'', ''bash'', ''zsh'', ''ksh'', ''dash'', ''ash'', ''busybox'']"

definition EVAL_FLAGS :: "string list" where
  "EVAL_FLAGS = [''-c'', ''-lc'', ''-ic'', ''--command'']"

definition wrapper_arg_short_opts :: "string \<Rightarrow> string" where
  "wrapper_arg_short_opts w =
     (if w = ''sudo'' then ''CDghpRrtTUu''
      else if w = ''doas'' then ''Cu''
      else if w = ''env'' then ''uCS''
      else if w = ''nice'' then ''n''
      else if w = ''ionice'' then ''cnpt''
      else if w = ''time'' then ''of''
      else if w = ''timeout'' then ''sk''
      else if w = ''stdbuf'' then ''ioe''
      else if w = ''xargs'' then ''adEILnPs''
      else [])"

definition wrapper_arg_long_opts :: "string \<Rightarrow> string list" where
  "wrapper_arg_long_opts w =
     (if w = ''sudo'' then
        [''chdir'', ''close-from'', ''group'', ''host'', ''prompt'', ''role'', ''type'', ''other-user'',
         ''user'', ''command-timeout'']
      else if w = ''env'' then [''unset'', ''chdir'', ''block-signal'', ''default-signal'', ''ignore-signal'']
      else if w = ''nice'' then [''adjustment'']
      else if w = ''ionice'' then [''class'', ''classdata'', ''pid'']
      else if w = ''time'' then [''output'', ''format'']
      else if w = ''timeout'' then [''signal'', ''kill-after'']
      else if w = ''stdbuf'' then [''input'', ''output'', ''error'']
      else if w = ''xargs'' then
        [''arg-file'', ''delimiter'', ''eof'', ''replace'', ''max-lines'', ''max-args'', ''max-procs'', ''max-chars'']
      else [])"

text \<open>The first option character of a cluster that takes an argument decides: last in the cluster or not.\<close>

fun cluster_consumes_next :: "string \<Rightarrow> string \<Rightarrow> bool" where
  "cluster_consumes_next arg_chars [] = False"
| "cluster_consumes_next arg_chars (c # cs) =
     (if c \<in> set arg_chars then cs = [] else cluster_consumes_next arg_chars cs)"

definition option_consumes_next :: "string \<Rightarrow> string \<Rightarrow> bool" where
  "option_consumes_next w token =
     (case str_strip_prefix token ''--'' of
        Some long \<Rightarrow> long \<noteq> [] \<and> CHR ''='' \<notin> set long \<and> long \<in> set (wrapper_arg_long_opts w)
      | None \<Rightarrow>
          (case str_strip_prefix token ''-'' of
             Some cluster \<Rightarrow> cluster_consumes_next (wrapper_arg_short_opts w) cluster
           | None \<Rightarrow> False))"

definition is_operand :: "string \<Rightarrow> bool" where
  "is_operand a \<longleftrightarrow>
     str_starts_with a ''-'' \<or>
     (CHR ''='' \<in> set a \<and> \<not> str_starts_with a ''/'') \<or>
     (list_ex is_ascii_digit a \<and> list_all (\<lambda>c. is_ascii_digit c \<or> c \<in> set ''.smhd'') a)"

fun skip_wrapper_operands :: "string \<Rightarrow> string list \<Rightarrow> string list" where
  "skip_wrapper_operands w [] = []"
| "skip_wrapper_operands w [a] =
     (if option_consumes_next w a \<or> is_operand a then [] else [a])"
| "skip_wrapper_operands w (a # b # argv) =
     (if option_consumes_next w a then skip_wrapper_operands w argv
      else if is_operand a then skip_wrapper_operands w (b # argv)
      else a # b # argv)"

text \<open>\<open>eval_flag_script\<close>: the word after the first evaluation flag behind the program name.\<close>

definition eval_flag_script :: "string list \<Rightarrow> string option" where
  "eval_flag_script argv =
     (case dropWhile (\<lambda>a. a \<notin> set EVAL_FLAGS) (tl argv) of
        _ # script # _ \<Rightarrow> Some script
      | _ \<Rightarrow> None)"

definition is_env_assignment :: "string \<Rightarrow> bool" where
  "is_env_assignment tok =
     (case str_split_once (CHR ''='') tok of
        Some (name, _) \<Rightarrow>
          name \<noteq> [] \<and> (is_ascii_alphabetic (hd name) \<or> hd name = CHR ''_'') \<and>
          list_all (\<lambda>c. is_ascii_alphanumeric c \<or> c = CHR ''_'') name
      | None \<Rightarrow> False)"

lemma skip_wrapper_operands_length: "length (skip_wrapper_operands w argv) \<le> length argv"
  by (induction w argv rule: skip_wrapper_operands.induct) auto

text \<open>The argument vector from the word \<open>env\<close> on, when \<open>env\<close> is the command of the segment.\<close>

function env_command_position :: "string list \<Rightarrow> string list option" where
  "env_command_position argv =
     (case dropWhile is_env_assignment argv of
        [] \<Rightarrow> None
      | a # rest \<Rightarrow>
          (let b = bin_name a in
           if b = ''env'' then Some (a # rest)
           else if b \<notin> set CMD_WRAPPERS then None
           else env_command_position (skip_wrapper_operands b rest)))"
  by pat_completeness auto
lemma drop_wrapper_length:
  assumes "dropWhile P argv = a # rest"
  shows "length (skip_wrapper_operands w rest) < length argv"
proof -
  have "length (a # rest) \<le> length argv" using assms by (metis length_dropWhile_le)
  then show ?thesis using skip_wrapper_operands_length [of w rest] by simp
qed

termination env_command_position
  by (relation "measure length") (auto simp: drop_wrapper_length)

function unwrap_argv :: "string list \<Rightarrow> string list" where
  "unwrap_argv argv =
     (case dropWhile is_env_assignment argv of
        [] \<Rightarrow> []
      | a # rest \<Rightarrow>
          (let b = bin_name a in
           if b \<notin> set CMD_WRAPPERS then a # rest
           else unwrap_argv (skip_wrapper_operands b rest)))"
  by pat_completeness auto

termination unwrap_argv
  by (relation "measure length") (auto simp: drop_wrapper_length)

declare env_command_position.simps [simp del]
declare unwrap_argv.simps [simp del]

section \<open>The payload of \<open>env -S\<close>\<close>

text \<open>What one word of \<open>env\<close> says: the payload is found (or missing), the search ends, or it goes on.\<close>

datatype env_word = EnvPayload "string option" | EnvNext

text \<open>A cluster of short options; \<open>next\<close> is the word behind it.\<close>

fun env_cluster :: "string option \<Rightarrow> string \<Rightarrow> env_word" where
  "env_cluster next_word [] = EnvNext"
| "env_cluster next_word (c # rest) =
     (if c = CHR ''S'' then EnvPayload (if rest = [] then next_word else Some rest)
      else if c = CHR ''0'' then EnvPayload None
      else if c = CHR ''i'' \<or> c = CHR ''v'' then env_cluster next_word rest
      else EnvNext)"

definition env_long :: "string option \<Rightarrow> string \<Rightarrow> env_word" where
  "env_long next_word long =
     (let (name, glued) =
            (case str_split_once (CHR ''='') long of Some (n, v) \<Rightarrow> (n, Some v) | None \<Rightarrow> (long, None)) in
      if name \<noteq> [] \<and> str_starts_with ''null'' name then EnvPayload None
      else if name \<noteq> [] \<and> str_starts_with ''split-string'' name
      then EnvPayload (case glued of Some v \<Rightarrow> Some v | None \<Rightarrow> next_word)
      else EnvNext)"

definition env_word_of :: "string \<Rightarrow> string option \<Rightarrow> env_word" where
  "env_word_of a next_word =
     (if a = ''--'' then EnvPayload None
      else case str_strip_prefix a ''--'' of
        Some long \<Rightarrow> env_long next_word long
      | None \<Rightarrow>
          (case str_strip_prefix a ''-'' of
             Some cluster \<Rightarrow> env_cluster next_word cluster
           | None \<Rightarrow> EnvNext))"

fun env_payload_loop :: "string list \<Rightarrow> string option" where
  "env_payload_loop [] = None"
| "env_payload_loop (a # rest) =
     (case env_word_of a (case rest of [] \<Rightarrow> None | b # _ \<Rightarrow> Some b) of
        EnvPayload p \<Rightarrow> p
      | EnvNext \<Rightarrow> env_payload_loop rest)"

definition env_split_string_payload :: "string list \<Rightarrow> string option" where
  "env_split_string_payload argv =
     (case env_command_position argv of None \<Rightarrow> None | Some e \<Rightarrow> env_payload_loop (tl e))"

definition env_escape :: "char \<Rightarrow> char" where
  "env_escape n =
     (if n = CHR ''t'' then CHR 0x09
      else if n = CHR ''n'' then CHR 0x0A
      else if n = CHR ''r'' then CHR 0x0D
      else if n = CHR ''f'' then CHR 0x0C
      else if n = CHR ''v'' then CHR 0x0B
      else n)"

fun env_s_loop :: "char option \<Rightarrow> bool \<Rightarrow> string \<Rightarrow> string \<Rightarrow> string list" where
  "env_s_loop quote has_tok cur [] = (if has_tok then [cur] else [])"
| "env_s_loop (Some q) has_tok cur (c # chars) =
     (if c = q then env_s_loop None has_tok cur chars
      else if c = CHR 0x5C \<and> q = CHR 0x22 then
        (case chars of
           [] \<Rightarrow> env_s_loop (Some q) has_tok cur []
         | n # chars' \<Rightarrow> env_s_loop (Some q) True (cur @ [n]) chars')
      else env_s_loop (Some q) True (cur @ [c]) chars)"
| "env_s_loop None has_tok cur (c # chars) =
     (if c \<in> {CHR 0x20, CHR 0x09, CHR 0x0A, CHR 0x0D, CHR 0x0C, CHR 0x0B} then
        (if has_tok then cur # env_s_loop None False [] chars else env_s_loop None False cur chars)
      else if c = CHR 0x27 \<or> c = CHR 0x22 then env_s_loop (Some c) True cur chars
      else if c = CHR 0x5C then
        (case chars of
           [] \<Rightarrow> env_s_loop None has_tok cur []
         | n # chars' \<Rightarrow>
             if n = CHR ''_'' then
               (if has_tok then cur # env_s_loop None False [] chars' else env_s_loop None False cur chars')
             else if n = CHR ''c'' then (if has_tok then [cur] else [])
             else env_s_loop None True (cur @ [env_escape n]) chars')
      else env_s_loop None True (cur @ [c]) chars)"

definition env_s_split :: "string \<Rightarrow> string list" where
  "env_s_split body = env_s_loop None False [] body"

definition bare_safe_char :: "char \<Rightarrow> bool" where
  "bare_safe_char c \<longleftrightarrow> is_ascii_alphanumeric c \<or> c \<in> set ''-_./=:+@%,''"

definition env_s_quote :: "string \<Rightarrow> string" where
  "env_s_quote t =
     (if t \<noteq> [] \<and> list_all bare_safe_char t then t
      else [CHR 0x27] @
        concat (map (\<lambda>c. if c = CHR 0x27 then [CHR 0x27, CHR 0x5C, CHR 0x27, CHR 0x27] else [c]) t) @
        [CHR 0x27])"

definition env_s_join :: "string list \<Rightarrow> string" where
  "env_s_join tokens = str_join '' '' (map env_s_quote tokens)"
section \<open>Classification\<close>

abbreviation ellipsis :: string where
  "ellipsis \<equiv> [CHR 0xE2, CHR 0x80, CHR 0xA6]"

definition rm_system_risk :: command_risk where
  "rm_system_risk =
     \<lparr>cr_tier = Catastrophic, cr_category = FilesystemWipe,
      cr_detail =
        ''recursive rm targeting the filesystem root, a system directory, or the whole home directory''\<rparr>"

definition rm_variable_risk :: command_risk where
  "rm_variable_risk =
     \<lparr>cr_tier = Dangerous, cr_category = SuspiciousExpansion,
      cr_detail =
        ''recursive rm on an unquoted '' @ [CHR 0x60] @ ''$VAR/'' @ ellipsis @ [CHR 0x60] @ '' path '' @ em_dash @
        '' expands to the filesystem root if the variable is empty''\<rparr>"

definition rm_here_risk :: command_risk where
  "rm_here_risk =
     \<lparr>cr_tier = Dangerous, cr_category = OutsideProjectDeletion,
      cr_detail =
        ''recursive rm of the entire current directory ('' @ [CHR 0x60] @ ''.'' @ [CHR 0x60] @ ''/'' @ [CHR 0x60] @ ''*'' @ [CHR 0x60] @ '') '' @ em_dash @
        '' wipes everything here, e.g. the whole project''\<rparr>"

definition rm_outside_risk :: command_risk where
  "rm_outside_risk =
     \<lparr>cr_tier = Dangerous, cr_category = OutsideProjectDeletion,
      cr_detail =
        ''recursive rm targeting a path outside the project directory (home/system/absolute)''\<rparr>"

definition no_preserve_root_risk :: command_risk where
  "no_preserve_root_risk =
     \<lparr>cr_tier = Catastrophic, cr_category = FilesystemWipe,
      cr_detail =
        ''rm --no-preserve-root '' @ em_dash @ '' explicitly permits deleting the filesystem root''\<rparr>"

definition persist_file_risk :: command_risk where
  "persist_file_risk =
     \<lparr>cr_tier = Dangerous, cr_category = Persistence,
      cr_detail =
        ''writes to a shell startup file, SSH authorized_keys, or a service/autostart unit '' @ em_dash @
        '' a common persistence foothold''\<rparr>"

definition persist_verb_risk :: command_risk where
  "persist_verb_risk =
     \<lparr>cr_tier = Dangerous, cr_category = Persistence,
      cr_detail =
        ''installs a scheduled task / service / autostart entry (cron, systemd, launchd, schtasks, or a registry Run key)''\<rparr>"

definition dd_risk :: command_risk where
  "dd_risk =
     \<lparr>cr_tier = Catastrophic, cr_category = DeviceOrDiskWrite,
      cr_detail =
        ''dd writes directly to a block device (of=/dev/'' @ ellipsis @ '') '' @ em_dash @
        '' overwrites a disk/partition''\<rparr>"

definition mkfs_risk :: command_risk where
  "mkfs_risk =
     \<lparr>cr_tier = Catastrophic, cr_category = DeviceOrDiskWrite,
      cr_detail =
        ''mkfs formats a filesystem '' @ em_dash @ '' destroys all data on the target device''\<rparr>"

definition shred_risk :: command_risk where
  "shred_risk =
     \<lparr>cr_tier = Catastrophic, cr_category = DeviceOrDiskWrite,
      cr_detail =
        ''shred targets a block device (/dev/'' @ ellipsis @ '') '' @ em_dash @
        '' irrecoverably wipes a disk''\<rparr>"

definition chmod_risk :: command_risk where
  "chmod_risk =
     \<lparr>cr_tier = Catastrophic, cr_category = FilesystemWipe,
      cr_detail =
        ''recursive chmod/chown over a system root '' @ em_dash @
        '' corrupts OS-wide permissions/ownership''\<rparr>"

definition find_risk :: command_risk where
  "find_risk =
     \<lparr>cr_tier = Catastrophic, cr_category = FilesystemWipe,
      cr_detail =
        ''find rooted at / (or a system dir) with -delete/-exec rm '' @ em_dash @ '' mass deletion''\<rparr>"

definition unparsed_risk :: command_risk where
  "unparsed_risk =
     \<lparr>cr_tier = Dangerous, cr_category = FilesystemWipe,
      cr_detail =
        ''a destructive command that could not be parsed safely (blocked conservatively)''\<rparr>"

definition fork_bomb_risk :: command_risk where
  "fork_bomb_risk =
     \<lparr>cr_tier = Catastrophic, cr_category = ForkBomb,
      cr_detail =
        ''fork bomb pattern (recursively self-spawning function) '' @ em_dash @
        '' exhausts the process table''\<rparr>"

definition remote_exec_risk :: command_risk where
  "remote_exec_risk =
     \<lparr>cr_tier = Catastrophic, cr_category = RemoteExecInstall,
      cr_detail =
        ''downloads remote content and pipes it straight into a shell/interpreter '' @ em_dash @
        '' arbitrary remote code execution''\<rparr>"

definition pipe_shell_risk :: command_risk where
  "pipe_shell_risk =
     \<lparr>cr_tier = Dangerous, cr_category = RemoteExecInstall,
      cr_detail =
        ''pipes command output directly into a shell/interpreter '' @ em_dash @
        '' a common obfuscated code-execution vector''\<rparr>"

definition rm_recursive :: "string list \<Rightarrow> bool" where
  "rm_recursive argv =
     list_ex
       (\<lambda>a. a = ''-r'' \<or> a = ''-R'' \<or> a = ''--recursive'' \<or>
          (str_starts_with a ''-'' \<and> \<not> str_starts_with a ''--'' \<and>
           (CHR ''r'' \<in> set a \<or> CHR ''R'' \<in> set a)))
       (tl argv)"

definition rm_targets :: "string list \<Rightarrow> string list" where
  "rm_targets argv = map strip_quotes (filter (\<lambda>a. \<not> str_starts_with a ''-'') (tl argv))"

definition rm_target_step ::
  "externs \<Rightarrow> string option \<Rightarrow> command_risk option \<Rightarrow> string \<Rightarrow> command_risk option" where
  "rm_target_step x project_root result t =
     (if is_catastrophic_rm_target t then
        consider_risk result rm_system_risk
      else if is_bare_var_expansion x t then
        consider_risk result rm_variable_risk
      else if is_current_dir_wipe t then
        consider_risk result rm_here_risk
      else if is_outside_project t project_root then
        consider_risk result rm_outside_risk
      else result)"

definition classify_rm :: "externs \<Rightarrow> string list \<Rightarrow> string option \<Rightarrow> command_risk option" where
  "classify_rm x argv project_root =
     (if \<not> rm_recursive argv then None
      else foldl (rm_target_step x project_root)
        (consider_if (''--no-preserve-root'' \<in> set argv) no_preserve_root_risk None)
        (rm_targets argv))"

definition classify_persistence :: "externs \<Rightarrow> string \<Rightarrow> command_risk option" where
  "classify_persistence x command =
     (if x_regex_is_match x WRITE_INDICATOR command \<and> x_regex_is_match x SENSITIVE_PERSIST_FILE command then
        Some persist_file_risk
      else if (x_regex_is_match x CRONTAB command \<and> \<not> str_contains command ''crontab -l'') \<or>
        x_regex_is_match x PERSIST_VERB command then
        Some persist_verb_risk
      else None)"

definition chmod_hits_system :: "string list \<Rightarrow> bool" where
  "chmod_hits_system argv \<longleftrightarrow>
     list_ex (\<lambda>a. a = ''-R'' \<or> a = ''--recursive'' \<or> str_starts_with a ''-R'') (tl argv) \<and>
     list_ex (\<lambda>a. is_system_root_path (strip_quotes a)) (tl argv)"

definition find_deletes_root :: "string list \<Rightarrow> bool" where
  "find_deletes_root argv \<longleftrightarrow>
     (case tl argv of
        [] \<Rightarrow> False
      | a # _ \<Rightarrow>
          (let t = strip_quotes a in t = ''/'' \<or> is_system_root_path t \<or> t = ''~'' \<or> t = ''$HOME'')) \<and>
     list_ex (\<lambda>a. a = ''-delete'' \<or> a = ''-exec'') argv \<and>
     list_ex (\<lambda>a. a = ''-delete'' \<or> a = ''rm'') argv"

definition dd_to_device :: "string list \<Rightarrow> bool" where
  "dd_to_device argv =
     list_ex
       (\<lambda>a. case str_strip_prefix a ''of='' of Some t \<Rightarrow> str_starts_with t ''/dev/'' | None \<Rightarrow> False) argv"

definition shred_device :: "string list \<Rightarrow> bool" where
  "shred_device argv = list_ex (\<lambda>a. str_starts_with a ''/dev/'') (tl argv)"

text \<open>The final \<open>match bin\<close> of a segment.\<close>

definition classify_bin ::
  "externs \<Rightarrow> string option \<Rightarrow> string \<Rightarrow> string list \<Rightarrow> command_risk option" where
  "classify_bin x project_root bin argv =
     (if bin = ''rm'' then classify_rm x argv project_root
      else if bin = ''dd'' \<and> dd_to_device argv then
        Some dd_risk
      else if str_starts_with bin ''mkfs'' then
        Some mkfs_risk
      else if bin = ''shred'' \<and> shred_device argv then
        Some shred_risk
      else if bin = ''chmod'' \<or> bin = ''chown'' then
        (if chmod_hits_system argv then
           Some chmod_risk
         else None)
      else if bin = ''find'' then
        (if find_deletes_root argv then
           Some find_risk
         else None)
      else None)"

text \<open>
  \<open>nested\<close> classifies an inner script; it is \<open>None\<close> once \<open>MAX_NEST_DEPTH\<close> is reached.
\<close>

definition env_payload_risk ::
  "(string \<Rightarrow> command_risk option) option \<Rightarrow> string list \<Rightarrow> command_risk option" where
  "env_payload_risk nested raw_argv =
     (case nested of
        None \<Rightarrow> None
      | Some inner \<Rightarrow>
          (case env_split_string_payload raw_argv of
             None \<Rightarrow> None
           | Some body \<Rightarrow>
               (case env_s_split body of
                  [] \<Rightarrow> None
                | p # ps \<Rightarrow> if str_has_whitespace p then None else inner (env_s_join (p # ps)))))"

definition shell_script_risk ::
  "(string \<Rightarrow> command_risk option) option \<Rightarrow> string \<Rightarrow> string list \<Rightarrow> command_risk option" where
  "shell_script_risk nested bin argv =
     (case nested of
        None \<Rightarrow> None
      | Some inner \<Rightarrow>
          if bin \<in> set SHELL_INTERP then
            (case eval_flag_script argv of None \<Rightarrow> None | Some script \<Rightarrow> inner script)
          else None)"

definition classify_segment ::
  "externs \<Rightarrow> string option \<Rightarrow> (string \<Rightarrow> command_risk option) option \<Rightarrow>
   command_risk option \<Rightarrow> string \<Rightarrow> command_risk option" where
  "classify_segment x project_root nested best seg =
     (case x_shlex_split x seg of
        Some (w # ws) \<Rightarrow>
          (let raw_argv = w # ws;
               best = consider_some best (env_payload_risk nested raw_argv);
               argv = unwrap_argv raw_argv in
           if argv = [] then best
           else
             let bin = bin_name (hd argv);
                 best = consider_some best (shell_script_risk nested bin argv) in
             consider_some best (classify_bin x project_root bin argv))
      | _ \<Rightarrow>
          consider_if (x_regex_is_match x HAS_DESTRUCTIVE_WORD seg) unparsed_risk best)"

definition classify_text :: "externs \<Rightarrow> string \<Rightarrow> command_risk option" where
  "classify_text x command =
     (let best =
            consider_if (x_regex_is_match x FORK_BOMB command) fork_bomb_risk None;
          best =
            (if x_regex_is_match x REMOTE_PIPE_SHELL command \<or> x_regex_is_match x EVAL_DOWNLOAD command then
               consider_risk best remote_exec_risk
             else if x_regex_is_match x PIPE_TO_SHELL command then
               consider_risk best pipe_shell_risk
             else best) in
      consider_some best (classify_persistence x command))"

definition classify_once ::
  "externs \<Rightarrow> string option \<Rightarrow> (string \<Rightarrow> command_risk option) option \<Rightarrow> string \<Rightarrow> command_risk option" where
  "classify_once x project_root nested command =
     foldl (classify_segment x project_root nested) (classify_text x command) (segments command)"

definition MAX_NEST_DEPTH :: nat where
  "MAX_NEST_DEPTH = 4"

text \<open>\<open>classify_depth\<close>, by the number of levels that are left.\<close>

primrec classify_levels :: "externs \<Rightarrow> string option \<Rightarrow> nat \<Rightarrow> string \<Rightarrow> command_risk option" where
  "classify_levels x project_root 0 = classify_once x project_root None"
| "classify_levels x project_root (Suc levels) =
     classify_once x project_root (Some (classify_levels x project_root levels))"

definition classify_depth :: "externs \<Rightarrow> string \<Rightarrow> string option \<Rightarrow> nat \<Rightarrow> command_risk option" where
  "classify_depth x command project_root depth =
     classify_levels x project_root (MAX_NEST_DEPTH - depth) command"

definition classify_command :: "externs \<Rightarrow> string \<Rightarrow> string option \<Rightarrow> command_risk option" where
  "classify_command x command project_root = classify_depth x command project_root 0"
section \<open>What the guard is to find\<close>

text \<open>The command one segment of a script runs, its wrappers taken off.\<close>

definition runs :: "externs \<Rightarrow> string \<Rightarrow> string list \<Rightarrow> string list \<Rightarrow> bool" where
  "runs x script raw argv \<longleftrightarrow>
     (\<exists>seg. seg \<in> set (segments script) \<and> x_shlex_split x seg = Some raw \<and> raw \<noteq> []) \<and> argv = unwrap_argv raw"

text \<open>The scripts a script hands to a shell or to \<open>env -S\<close>, directly and down to a number of levels.\<close>

inductive inner_script :: "externs \<Rightarrow> string \<Rightarrow> string \<Rightarrow> bool" for x :: externs where
  shell:
    "runs x s raw (a # args) \<Longrightarrow> bin_name a \<in> set SHELL_INTERP \<Longrightarrow> eval_flag_script (a # args) = Some script \<Longrightarrow>
     inner_script x s script"
| env_s:
    "runs x s raw argv \<Longrightarrow> env_split_string_payload raw = Some body \<Longrightarrow> env_s_split body = p # ps \<Longrightarrow>
     \<not> str_has_whitespace p \<Longrightarrow> inner_script x s (env_s_join (p # ps))"

inductive reaches :: "externs \<Rightarrow> nat \<Rightarrow> string \<Rightarrow> string \<Rightarrow> bool" for x :: externs where
  here: "reaches x n s s"
| inner: "inner_script x s script \<Longrightarrow> reaches x n script s' \<Longrightarrow> reaches x (Suc n) s s'"

text \<open>The threats of one command and of one script, each by a rule of its own.\<close>

inductive argv_threat :: "externs \<Rightarrow> string option \<Rightarrow> guard_tier \<Rightarrow> string \<Rightarrow> string list \<Rightarrow> bool"
  for x :: externs and root :: "string option" where
  rm_no_preserve:
    "rm_recursive argv \<Longrightarrow> ''--no-preserve-root'' \<in> set argv \<Longrightarrow> argv_threat x root Catastrophic ''rm'' argv"
| rm_system:
    "rm_recursive argv \<Longrightarrow> t \<in> set (rm_targets argv) \<Longrightarrow> is_catastrophic_rm_target t \<Longrightarrow>
     argv_threat x root Catastrophic ''rm'' argv"
| rm_variable:
    "rm_recursive argv \<Longrightarrow> t \<in> set (rm_targets argv) \<Longrightarrow> is_bare_var_expansion x t \<Longrightarrow>
     argv_threat x root Dangerous ''rm'' argv"
| rm_here:
    "rm_recursive argv \<Longrightarrow> t \<in> set (rm_targets argv) \<Longrightarrow> is_current_dir_wipe t \<Longrightarrow>
     argv_threat x root Dangerous ''rm'' argv"
| rm_outside:
    "rm_recursive argv \<Longrightarrow> t \<in> set (rm_targets argv) \<Longrightarrow> is_outside_project t root \<Longrightarrow>
     argv_threat x root Dangerous ''rm'' argv"
| dd_device: "dd_to_device argv \<Longrightarrow> argv_threat x root Catastrophic ''dd'' argv"
| mkfs: "str_starts_with bin ''mkfs'' \<Longrightarrow> argv_threat x root Catastrophic bin argv"
| shred: "shred_device argv \<Longrightarrow> argv_threat x root Catastrophic ''shred'' argv"
| chmod: "chmod_hits_system argv \<Longrightarrow> argv_threat x root Catastrophic ''chmod'' argv"
| chown: "chmod_hits_system argv \<Longrightarrow> argv_threat x root Catastrophic ''chown'' argv"
| find: "find_deletes_root argv \<Longrightarrow> argv_threat x root Catastrophic ''find'' argv"

inductive threat :: "externs \<Rightarrow> string option \<Rightarrow> guard_tier \<Rightarrow> string \<Rightarrow> bool"
  for x :: externs and root :: "string option" where
  fork_bomb: "x_regex_is_match x FORK_BOMB s \<Longrightarrow> threat x root Catastrophic s"
| remote_pipe: "x_regex_is_match x REMOTE_PIPE_SHELL s \<Longrightarrow> threat x root Catastrophic s"
| eval_download: "x_regex_is_match x EVAL_DOWNLOAD s \<Longrightarrow> threat x root Catastrophic s"
| pipe_to_shell: "x_regex_is_match x PIPE_TO_SHELL s \<Longrightarrow> threat x root Dangerous s"
| persist_file:
    "x_regex_is_match x WRITE_INDICATOR s \<Longrightarrow> x_regex_is_match x SENSITIVE_PERSIST_FILE s \<Longrightarrow>
     threat x root Dangerous s"
| persist_cron:
    "x_regex_is_match x CRONTAB s \<Longrightarrow> \<not> str_contains s ''crontab -l'' \<Longrightarrow> threat x root Dangerous s"
| persist_verb: "x_regex_is_match x PERSIST_VERB s \<Longrightarrow> threat x root Dangerous s"
| unparsed:
    "seg \<in> set (segments s) \<Longrightarrow> x_shlex_split x seg \<in> {None, Some []} \<Longrightarrow>
     x_regex_is_match x HAS_DESTRUCTIVE_WORD seg \<Longrightarrow> threat x root Dangerous s"
| command: "runs x s raw (a # args) \<Longrightarrow> argv_threat x root tier (bin_name a) (a # args) \<Longrightarrow> threat x root tier s"

definition reaches_threat :: "externs \<Rightarrow> string option \<Rightarrow> nat \<Rightarrow> guard_tier \<Rightarrow> string \<Rightarrow> bool" where
  "reaches_threat x root n tier command \<longleftrightarrow> (\<exists>s. reaches x n command s \<and> threat x root tier s)"

section \<open>Tiers\<close>

text \<open>A risk of at least the rank of a tier has been found.\<close>

definition risk_hit :: "guard_tier \<Rightarrow> command_risk option \<Rightarrow> bool" where
  "risk_hit tier o' \<longleftrightarrow> (\<exists>r. o' = Some r \<and> tier_rank tier \<le> tier_rank (cr_tier r))"

lemma tier_rank_cases: "tier_rank tier = 1 \<or> tier_rank tier = 2"
  by (cases tier) auto

lemma tier_rank_le_iff [simp]:
  "tier_rank tier \<le> tier_rank Catastrophic"
  "tier_rank Dangerous \<le> tier_rank tier"
  "tier_rank Catastrophic \<le> tier_rank Dangerous \<longleftrightarrow> False"
  by (cases tier; simp)+

declare tier_rank.simps [simp del]

lemma risk_tiers [simp]:
  "cr_tier rm_system_risk = Catastrophic"
  "cr_tier rm_variable_risk = Dangerous"
  "cr_tier rm_here_risk = Dangerous"
  "cr_tier rm_outside_risk = Dangerous"
  "cr_tier no_preserve_root_risk = Catastrophic"
  "cr_tier persist_file_risk = Dangerous"
  "cr_tier persist_verb_risk = Dangerous"
  "cr_tier dd_risk = Catastrophic"
  "cr_tier mkfs_risk = Catastrophic"
  "cr_tier shred_risk = Catastrophic"
  "cr_tier chmod_risk = Catastrophic"
  "cr_tier find_risk = Catastrophic"
  "cr_tier unparsed_risk = Dangerous"
  "cr_tier fork_bomb_risk = Catastrophic"
  "cr_tier remote_exec_risk = Catastrophic"
  "cr_tier pipe_shell_risk = Dangerous"
  by (simp_all only: rm_system_risk_def rm_variable_risk_def rm_here_risk_def rm_outside_risk_def no_preserve_root_risk_def persist_file_risk_def persist_verb_risk_def dd_risk_def mkfs_risk_def shred_risk_def chmod_risk_def find_risk_def unparsed_risk_def fork_bomb_risk_def remote_exec_risk_def pipe_shell_risk_def command_risk.select_convs)

lemma hit_None [simp]: "\<not> risk_hit tier None"
  by (simp add: risk_hit_def)

lemma hit_Some [simp]: "risk_hit tier (Some r) \<longleftrightarrow> tier_rank tier \<le> tier_rank (cr_tier r)"
  by (simp add: risk_hit_def)

lemma hit_consider_risk [simp]:
  "risk_hit tier (consider_risk best r) \<longleftrightarrow> risk_hit tier best \<or> tier_rank tier \<le> tier_rank (cr_tier r)"
  by (cases best) (auto simp: consider_risk_def)

lemma hit_consider_some [simp]: "risk_hit tier (consider_some best o') \<longleftrightarrow> risk_hit tier best \<or> risk_hit tier o'"
  by (cases o') (auto simp: consider_some_def)

lemma hit_consider_if [simp]:
  "risk_hit tier (consider_if c r best) \<longleftrightarrow> risk_hit tier best \<or> (c \<and> tier_rank tier \<le> tier_rank (cr_tier r))"
  by (auto simp: consider_if_def)

lemma hit_if: "risk_hit tier (if c then a else b) \<longleftrightarrow> (c \<and> risk_hit tier a) \<or> (\<not> c \<and> risk_hit tier b)"
  by simp

lemma hit_foldl:
  assumes "\<And>best y. risk_hit tier (f best y) \<longleftrightarrow> risk_hit tier best \<or> P y"
  shows "risk_hit tier (foldl f best ys) \<longleftrightarrow> risk_hit tier best \<or> (\<exists>y \<in> set ys. P y)"
  by (induction ys arbitrary: best) (auto simp: assms)

text \<open>The tier of an answer is determined by its hits.\<close>

lemma tier_by_hits:
  "map_option cr_tier o' =
     (if risk_hit Catastrophic o' then Some Catastrophic else if risk_hit Dangerous o' then Some Dangerous else None)"
proof (cases o')
  case (Some r)
  then show ?thesis by (cases "cr_tier r") auto
qed simp

text \<open>A tier is hit when a threat of that tier or of a higher one exists.\<close>

definition at_least :: "guard_tier \<Rightarrow> (guard_tier \<Rightarrow> bool) \<Rightarrow> bool" where
  "at_least tier P \<longleftrightarrow> (\<exists>tier'. tier_rank tier \<le> tier_rank tier' \<and> P tier')"

lemma at_least_iff [simp]:
  "at_least Catastrophic P \<longleftrightarrow> P Catastrophic"
  "at_least Dangerous P \<longleftrightarrow> P Catastrophic \<or> P Dangerous"
proof -
  show "at_least Catastrophic P \<longleftrightarrow> P Catastrophic"
    unfolding at_least_def by (metis tier_rank_le_iff(1,3) guard_tier.exhaust)
  show "at_least Dangerous P \<longleftrightarrow> P Catastrophic \<or> P Dangerous"
    unfolding at_least_def by (metis tier_rank_le_iff(2) guard_tier.exhaust)
qed

section \<open>One command\<close>

lemma hit_rm_target_step:
  "risk_hit tier (rm_target_step x root best t) \<longleftrightarrow>
     risk_hit tier best \<or>
     (is_catastrophic_rm_target t \<or>
      tier = Dangerous \<and> (is_bare_var_expansion x t \<or> is_current_dir_wipe t \<or> is_outside_project t root))"
  by (cases tier) (auto simp: rm_target_step_def)

lemma hit_classify_rm:
  "risk_hit tier (classify_rm x argv root) \<longleftrightarrow>
     rm_recursive argv \<and>
     (''--no-preserve-root'' \<in> set argv \<or>
      (\<exists>t \<in> set (rm_targets argv).
         is_catastrophic_rm_target t \<or>
         tier = Dangerous \<and> (is_bare_var_expansion x t \<or> is_current_dir_wipe t \<or> is_outside_project t root)))"
  by (auto simp: classify_rm_def hit_foldl [OF hit_rm_target_step])

inductive_simps argv_threat_rm: "argv_threat x root tier ''rm'' argv"

text \<open>The commands other than \<open>rm\<close>.\<close>

definition other_threat :: "string \<Rightarrow> string list \<Rightarrow> bool" where
  "other_threat bin argv \<longleftrightarrow>
     bin = ''dd'' \<and> dd_to_device argv \<or> str_starts_with bin ''mkfs'' \<or> bin = ''shred'' \<and> shred_device argv \<or>
     (bin = ''chmod'' \<or> bin = ''chown'') \<and> chmod_hits_system argv \<or> bin = ''find'' \<and> find_deletes_root argv"

lemma other_argv_threat:
  assumes "bin \<noteq> ''rm''"
  shows "argv_threat x root tier bin argv \<longleftrightarrow> tier = Catastrophic \<and> other_threat bin argv"
proof
  assume "argv_threat x root tier bin argv"
  then show "tier = Catastrophic \<and> other_threat bin argv"
    using assms by cases (simp_all add: other_threat_def)
next
  assume "tier = Catastrophic \<and> other_threat bin argv"
  then show "argv_threat x root tier bin argv"
    unfolding other_threat_def by (elim conjE disjE) (simp_all add: argv_threat.intros)
qed

lemma hit_other_bin:
  assumes "bin \<noteq> ''rm''"
  shows "risk_hit tier (classify_bin x root bin argv) \<longleftrightarrow> other_threat bin argv"
proof (cases "bin \<in> {''dd'', ''shred'', ''chmod'', ''chown'', ''find''}")
  case True
  then show ?thesis unfolding classify_bin_def other_threat_def
    by (elim insertE) (simp_all add: hit_if)
next
  case False
  then show ?thesis using assms by (simp add: classify_bin_def other_threat_def)
qed

lemma hit_classify_bin:
  "risk_hit tier (classify_bin x root bin argv) \<longleftrightarrow> at_least tier (\<lambda>tier'. argv_threat x root tier' bin argv)"
proof (cases "bin = ''rm''")
  case True
  then show ?thesis
    by (cases tier) (auto simp: classify_bin_def hit_classify_rm argv_threat_rm)
next
  case False
  then show ?thesis by (cases tier) (simp_all add: hit_other_bin other_argv_threat)
qed

section \<open>One script\<close>

lemma hit_classify_persistence:
  "risk_hit tier (classify_persistence x s) \<longleftrightarrow>
     tier = Dangerous \<and>
     (x_regex_is_match x WRITE_INDICATOR s \<and> x_regex_is_match x SENSITIVE_PERSIST_FILE s \<or>
      x_regex_is_match x CRONTAB s \<and> \<not> str_contains s ''crontab -l'' \<or> x_regex_is_match x PERSIST_VERB s)"
  by (cases tier) (simp_all add: classify_persistence_def hit_if, blast)

lemma hit_classify_text:
  "risk_hit tier (classify_text x s) \<longleftrightarrow>
     x_regex_is_match x FORK_BOMB s \<or> x_regex_is_match x REMOTE_PIPE_SHELL s \<or>
     x_regex_is_match x EVAL_DOWNLOAD s \<or> (tier = Dangerous \<and> x_regex_is_match x PIPE_TO_SHELL s) \<or>
     risk_hit tier (classify_persistence x s)"
  unfolding classify_text_def Let_def hit_consider_some hit_if
  by (cases tier; simp; blast)

text \<open>What a segment contributes, with the verdict on inner scripts as a parameter.\<close>

definition segment_hit ::
  "externs \<Rightarrow> string option \<Rightarrow> (string \<Rightarrow> command_risk option) option \<Rightarrow> guard_tier \<Rightarrow> string \<Rightarrow> bool" where
  "segment_hit x root nested tier seg \<longleftrightarrow>
     (tier = Dangerous \<and> x_shlex_split x seg \<in> {None, Some []} \<and> x_regex_is_match x HAS_DESTRUCTIVE_WORD seg) \<or>
     (\<exists>raw. x_shlex_split x seg = Some raw \<and> raw \<noteq> [] \<and>
        (risk_hit tier (env_payload_risk nested raw) \<or>
         (\<exists>a args. unwrap_argv raw = a # args \<and>
            (risk_hit tier (shell_script_risk nested (bin_name a) (a # args)) \<or>
             risk_hit tier (classify_bin x root (bin_name a) (a # args))))))"

lemma hit_classify_segment:
  "risk_hit tier (classify_segment x root nested best seg) \<longleftrightarrow> risk_hit tier best \<or> segment_hit x root nested tier seg"
proof (cases "x_shlex_split x seg \<in> {None, Some []}")
  case True
  then show ?thesis by (cases tier) (auto simp: classify_segment_def segment_hit_def)
next
  case False
  then obtain w ws where "x_shlex_split x seg = Some (w # ws)" by (metis insertI1 insert_commute not_None_eq list.exhaust)
  then show ?thesis
    by (cases "unwrap_argv (w # ws)") (auto simp: classify_segment_def segment_hit_def Let_def)
qed

lemma hit_classify_once:
  "risk_hit tier (classify_once x root nested s) \<longleftrightarrow>
     risk_hit tier (classify_text x s) \<or> (\<exists>seg \<in> set (segments s). segment_hit x root nested tier seg)"
  unfolding classify_once_def by (rule hit_foldl [OF hit_classify_segment])

lemma hit_env_payload_risk:
  "risk_hit tier (env_payload_risk nested raw) \<longleftrightarrow>
     (\<exists>inner body p ps. nested = Some inner \<and> env_split_string_payload raw = Some body \<and>
        env_s_split body = p # ps \<and> \<not> str_has_whitespace p \<and> risk_hit tier (inner (env_s_join (p # ps))))"
  by (auto simp: env_payload_risk_def split: option.splits list.splits)

lemma hit_shell_script_risk:
  "risk_hit tier (shell_script_risk nested bin argv) \<longleftrightarrow>
     (\<exists>inner script. nested = Some inner \<and> bin \<in> set SHELL_INTERP \<and> eval_flag_script argv = Some script \<and>
        risk_hit tier (inner script))"
  by (auto simp: shell_script_risk_def split: option.splits)

section \<open>All levels\<close>

lemma segment_hit_None:
  "segment_hit x root None tier seg \<longleftrightarrow>
     (tier = Dangerous \<and> x_shlex_split x seg \<in> {None, Some []} \<and> x_regex_is_match x HAS_DESTRUCTIVE_WORD seg) \<or>
     (\<exists>raw a args. x_shlex_split x seg = Some raw \<and> raw \<noteq> [] \<and> unwrap_argv raw = a # args \<and>
        risk_hit tier (classify_bin x root (bin_name a) (a # args)))"
  unfolding segment_hit_def by (auto simp: hit_env_payload_risk hit_shell_script_risk)

lemma threat_of_segment:
  "seg \<in> set (segments s) \<Longrightarrow> x_shlex_split x seg = Some raw \<Longrightarrow> raw \<noteq> [] \<Longrightarrow> unwrap_argv raw = a # args \<Longrightarrow>
   argv_threat x root tier (bin_name a) (a # args) \<Longrightarrow> threat x root tier s"
  by (rule threat.command [of x s raw]) (auto simp: runs_def)

lemma hit_without_nesting:
  "risk_hit tier (classify_once x root None s) \<longleftrightarrow> at_least tier (\<lambda>tier'. threat x root tier' s)"
proof
  assume "risk_hit tier (classify_once x root None s)"
  then show "at_least tier (\<lambda>tier'. threat x root tier' s)"
    unfolding hit_classify_once hit_classify_text hit_classify_persistence segment_hit_None hit_classify_bin
    by (cases tier) (auto intro: threat.intros threat_of_segment)
next
  assume "at_least tier (\<lambda>tier'. threat x root tier' s)"
  then obtain tier' where le: "tier_rank tier \<le> tier_rank tier'" and t: "threat x root tier' s"
    by (auto simp: at_least_def)
  from t show "risk_hit tier (classify_once x root None s)"
  proof cases
    case (command raw a args)
    then have "at_least tier (\<lambda>tier'. argv_threat x root tier' (bin_name a) (a # args))"
      using le by (auto simp: at_least_def)
    then show ?thesis
      using command unfolding hit_classify_once segment_hit_None hit_classify_bin runs_def by metis
  qed (use le in \<open>cases tier; auto simp: hit_classify_once hit_classify_text hit_classify_persistence segment_hit_None\<close>)+
qed

lemma runs_iff: "runs x s raw argv \<longleftrightarrow> argv = unwrap_argv raw \<and> runs x s raw (unwrap_argv raw)"
  by (auto simp: runs_def)

lemma segment_runs:
  "(\<exists>seg \<in> set (segments s). \<exists>raw. x_shlex_split x seg = Some raw \<and> raw \<noteq> [] \<and> Q raw) \<longleftrightarrow>
     (\<exists>raw. runs x s raw (unwrap_argv raw) \<and> Q raw)"
  by (auto simp: runs_def)

text \<open>What the inner scripts add.\<close>

definition nested_hit :: "(string \<Rightarrow> command_risk option) \<Rightarrow> guard_tier \<Rightarrow> string list \<Rightarrow> bool" where
  "nested_hit inner tier raw \<longleftrightarrow>
     (\<exists>a args. unwrap_argv raw = a # args \<and> risk_hit tier (shell_script_risk (Some inner) (bin_name a) (a # args))) \<or>
     risk_hit tier (env_payload_risk (Some inner) raw)"

lemma segment_hit_Some:
  "segment_hit x root (Some inner) tier seg \<longleftrightarrow>
     segment_hit x root None tier seg \<or>
     (\<exists>raw. x_shlex_split x seg = Some raw \<and> raw \<noteq> [] \<and> nested_hit inner tier raw)"
  unfolding segment_hit_None unfolding segment_hit_def nested_hit_def by blast

lemma hit_with_nesting:
  "risk_hit tier (classify_once x root (Some inner) s) \<longleftrightarrow>
     risk_hit tier (classify_once x root None s) \<or> (\<exists>raw. runs x s raw (unwrap_argv raw) \<and> nested_hit inner tier raw)"
  unfolding hit_classify_once segment_hit_Some bex_disj_distrib segment_runs disj_assoc by (rule refl)

inductive_simps reaches_0: "reaches x 0 s s'"
inductive_simps reaches_Suc: "reaches x (Suc n) s s'"

lemma nested_hit_inner:
  "(\<exists>raw. runs x s raw (unwrap_argv raw) \<and> nested_hit inner tier raw) \<longleftrightarrow>
     (\<exists>script. inner_script x s script \<and> risk_hit tier (inner script))"
proof
  assume "\<exists>raw. runs x s raw (unwrap_argv raw) \<and> nested_hit inner tier raw"
  then obtain raw where r: "runs x s raw (unwrap_argv raw)" and n: "nested_hit inner tier raw" by blast
  from n show "\<exists>script. inner_script x s script \<and> risk_hit tier (inner script)"
    unfolding nested_hit_def hit_shell_script_risk hit_env_payload_risk
    using r by (auto intro: inner_script.env_s) (metis inner_script.shell)
next
  assume "\<exists>script. inner_script x s script \<and> risk_hit tier (inner script)"
  then obtain script where i: "inner_script x s script" and h: "risk_hit tier (inner script)" by blast
  from i show "\<exists>raw. runs x s raw (unwrap_argv raw) \<and> nested_hit inner tier raw"
  proof cases
    case (shell raw a args)
    then have "unwrap_argv raw = a # args" by (simp add: runs_def)
    then show ?thesis
      using shell h unfolding nested_hit_def hit_shell_script_risk by (intro exI [of _ raw]) simp
  next
    case (env_s raw argv body p ps)
    then have "nested_hit inner tier raw" using h unfolding nested_hit_def hit_env_payload_risk by simp
    then show ?thesis using env_s runs_iff by blast
  qed
qed

lemma hit_classify_levels:
  "risk_hit tier (classify_levels x root n s) \<longleftrightarrow> (\<exists>s'. reaches x n s s' \<and> at_least tier (\<lambda>tier'. threat x root tier' s'))"
proof (induction n arbitrary: s)
  case 0
  then show ?case by (simp add: hit_without_nesting reaches_0)
next
  case (Suc n)
  show ?case
    unfolding classify_levels.simps hit_with_nesting hit_without_nesting nested_hit_inner Suc.IH reaches_Suc by blast
qed

text \<open>C19. The guard answers with the highest tier there is: catastrophic exactly when some script within
  four levels of nesting has a catastrophic threat, dangerous exactly when there is none but a dangerous
  one, and nothing when there is neither; wrappers in front of a command change nothing.\<close>

theorem classify_is_highest_threat:
  "map_option cr_tier (classify_command x command root) =
     (if reaches_threat x root 4 Catastrophic command then Some Catastrophic
      else if reaches_threat x root 4 Dangerous command then Some Dangerous
      else None)"
proof -
  have "risk_hit tier (classify_command x command root) \<longleftrightarrow>
      (\<exists>s. reaches x 4 command s \<and> at_least tier (\<lambda>tier'. threat x root tier' s))" for tier
    by (simp add: classify_command_def classify_depth_def MAX_NEST_DEPTH_def hit_classify_levels)
  then show ?thesis
    unfolding tier_by_hits reaches_threat_def by auto
qed

section \<open>Wrappers\<close>

lemma skip_wrapper_operands_suffix: "suffix (skip_wrapper_operands w argv) argv"
  by (induction w argv rule: skip_wrapper_operands.induct) (auto simp: suffix_ConsI)

lemma unwrap_argv_cases:
  "dropWhile is_env_assignment argv = [] \<Longrightarrow> unwrap_argv argv = []"
  "dropWhile is_env_assignment argv = a # rest \<Longrightarrow> bin_name a \<notin> set CMD_WRAPPERS \<Longrightarrow> unwrap_argv argv = a # rest"
  "dropWhile is_env_assignment argv = a # rest \<Longrightarrow> bin_name a \<in> set CMD_WRAPPERS \<Longrightarrow>
     unwrap_argv argv = unwrap_argv (skip_wrapper_operands (bin_name a) rest)"
  by (subst unwrap_argv.simps, simp only: list.case Let_def if_True if_False not_True_eq_False not_False_eq_True)+

text \<open>Taking the wrappers off ends at the command itself: what is left is the end of the argument
  vector, and it is empty or starts with a word that is neither a wrapper nor an assignment.\<close>

lemma unwrap_argv_reaches_command:
  "suffix (unwrap_argv argv) argv \<and>
   (unwrap_argv argv = [] \<or>
    bin_name (hd (unwrap_argv argv)) \<notin> set CMD_WRAPPERS \<and> \<not> is_env_assignment (hd (unwrap_argv argv)))"
proof (induction argv rule: unwrap_argv.induct)
  case (1 argv)
  show ?case
  proof (cases "dropWhile is_env_assignment argv")
    case Nil
    then show ?thesis by (simp only: unwrap_argv_cases) simp
  next
    case (Cons a rest)
    have suf: "suffix (a # rest) argv" using suffix_dropWhile [of is_env_assignment argv] by (simp add: Cons)
    have na: "\<not> is_env_assignment a" using Cons by (metis hd_dropWhile list.discI list.sel(1))
    show ?thesis
    proof (cases "bin_name a \<in> set CMD_WRAPPERS")
      case True
      have "suffix (skip_wrapper_operands (bin_name a) rest) argv"
        using skip_wrapper_operands_suffix suf by (metis suffix_order.trans suffix_ConsI)
      then show ?thesis
        using 1 [OF Cons refl] True suffix_order.trans unfolding unwrap_argv_cases(3) [OF Cons True] by blast
    next
      case False
      then show ?thesis using suf na by (simp add: unwrap_argv_cases(2) [OF Cons])
    qed
  qed
qed

section \<open>Quoting for the next level\<close>

lemma bare_safe_charD:
  "bare_safe_char c \<Longrightarrow>
     c \<notin> {CHR 0x20, CHR 0x09, CHR 0x0A, CHR 0x0D, CHR 0x0C, CHR 0x0B} \<and> c \<noteq> CHR 0x27 \<and> c \<noteq> CHR 0x22 \<and> c \<noteq> CHR 0x5C"
  by (auto simp: bare_safe_char_def is_ascii_alphanumeric_def is_ascii_alphabetic_def is_ascii_digit_def)

lemma env_s_loop_bare:
  "list_all bare_safe_char t \<Longrightarrow> t \<noteq> [] \<Longrightarrow>
     env_s_loop None has_tok cur (t @ rest) = env_s_loop None True (cur @ t) rest"
proof (induction t arbitrary: has_tok cur)
  case (Cons c t)
  have step: "env_s_loop None has_tok cur ((c # t) @ rest) = env_s_loop None True (cur @ [c]) (t @ rest)"
    using bare_safe_charD [of c] Cons.prems by simp
  show ?case
  proof (cases "t = []")
    case True
    then show ?thesis using step by simp
  next
    case False
    then show ?thesis using step Cons.IH [of True "cur @ [c]"] Cons.prems by simp
  qed
qed simp

lemma env_s_loop_quoted:
  "env_s_loop (Some (CHR 0x27)) True cur
     (concat (map (\<lambda>c. if c = CHR 0x27 then [CHR 0x27, CHR 0x5C, CHR 0x27, CHR 0x27] else [c]) t) @ CHR 0x27 # rest) =
   env_s_loop None True (cur @ t) rest"
  by (induction t arbitrary: cur) (auto simp: env_escape_def)

lemma env_s_loop_token: "env_s_loop None False [] (env_s_quote t @ rest) = env_s_loop None True t rest"
  using env_s_loop_bare [of t False "[]" rest] env_s_loop_quoted [of "[]" t rest]
  by (simp add: env_s_quote_def)

lemma env_s_loop_join: "env_s_loop None False [] (env_s_join ts) = ts"
proof (induction ts rule: induct_list012)
  case (2 t)
  show ?case using env_s_loop_token [of t "[]"] by (simp add: env_s_join_def)
next
  case (3 t u ts)
  have "env_s_join (t # u # ts) = env_s_quote t @ CHR 0x20 # env_s_join (u # ts)"
    by (simp add: env_s_join_def)
  then show ?case using 3 env_s_loop_token [of t] by simp
qed (simp add: env_s_join_def)

text \<open>Words that are joined for the next level of classification come back unchanged when they are
  split by the rules of \<open>env -S\<close>, whatever quotes, blanks and backslashes they hold.\<close>

lemma env_s_join_roundtrip: "env_s_split (env_s_join tokens) = tokens"
  by (simp add: env_s_split_def env_s_loop_join)

section \<open>Two gaps\<close>

text \<open>The quotes do not keep \<open>segments\<close> from cutting inside a word.\<close>

lemma joined_word_is_cut:
  "segments (env_s_join [''echo'', ''a;rm -rf /'']) =
     [''echo '' @ [CHR 0x27] @ ''a'', ''rm -rf /'' @ [CHR 0x27]]"
  by code_simp

text \<open>
  A path that starts with the project root counts as inside, also when it climbs out again by \<open>..\<close>:
  the same words without the root in front are reported.
\<close>

lemma dotdot_below_root_is_not_reported:
  assumes "\<And>t. \<not> x_regex_is_match x BARE_VAR_EXPANSION t"
  shows "classify_rm x [''rm'', ''-rf'', ''/work/app/../../etc''] (Some ''/work/app'') = None"
    and "classify_rm x [''rm'', ''-rf'', ''../../etc''] (Some ''/work/app'') = Some rm_outside_risk"
  using assms
  by (simp_all add: classify_rm_def rm_recursive_def rm_targets_def rm_target_step_def consider_if_def
      consider_risk_def strip_quotes_def str_trim_matches_def is_catastrophic_rm_target_def trim_slashes_def
      is_system_root_path_def SYSTEM_ROOTS_def is_bare_var_expansion_def is_current_dir_wipe_def
      is_outside_project_def is_windows_abs_def path_under_def)

end
