(* ===== verification/Posture.thy ===== *)
theory Posture
  imports Approvals
begin

text \<open>
  The posture of the editor hook (\<open>apps/vigil-hub-cli/src/posture.rs\<close>): the decision table, its
  escalation by the risk of a session, and the configuration file with its fail-closed reading; and
  the markers around untrusted text (\<open>vigil-redaction\<close>, \<open>sentinel.rs\<close>).

  The file system is a map from paths to contents; the faults of a call are parameters. The derived
  reader and printer of the configuration are parameters.
\<close>

section \<open>The decision table\<close>

datatype posture_profile = PP_Low | PP_Medium | PP_High

fun posture_str :: "posture_profile \<Rightarrow> string" where
  "posture_str PP_Low = ''low''"
| "posture_str PP_Medium = ''medium''"
| "posture_str PP_High = ''high''"

datatype risk_class =
    RC_RawSecret | RC_LedgerTamper | RC_PlaceholderNative | RC_DestructiveCatastrophic | RC_DangerousCommand

datatype posture_action = PO_Allow | PO_Ask | PO_Deny

fun posture_decide :: "posture_profile \<Rightarrow> risk_class \<Rightarrow> posture_action" where
  "posture_decide _ RC_RawSecret = PO_Deny"
| "posture_decide _ RC_LedgerTamper = PO_Deny"
| "posture_decide PP_Low RC_PlaceholderNative = PO_Allow"
| "posture_decide PP_Medium RC_PlaceholderNative = PO_Ask"
| "posture_decide PP_High RC_PlaceholderNative = PO_Deny"
| "posture_decide _ RC_DestructiveCatastrophic = PO_Deny"
| "posture_decide PP_Low RC_DangerousCommand = PO_Ask"
| "posture_decide PP_Medium RC_DangerousCommand = PO_Ask"
| "posture_decide PP_High RC_DangerousCommand = PO_Deny"

definition SESSION_RISK_ESCALATION_THRESHOLD :: int where
  "SESSION_RISK_ESCALATION_THRESHOLD = 24"

fun escalate :: "posture_profile \<Rightarrow> posture_profile" where
  "escalate PP_Low = PP_Medium"
| "escalate PP_Medium = PP_High"
| "escalate PP_High = PP_High"

definition effective_profile :: "posture_profile \<Rightarrow> int \<Rightarrow> posture_profile" where
  "effective_profile base session_risk =
     (if session_risk \<ge> SESSION_RISK_ESCALATION_THRESHOLD then escalate base else base)"

section \<open>The configuration file\<close>

record posture_file_v1 =
  pf_version :: u64
  pf_posture :: posture_profile

definition POSTURE_FILE_VERSION :: u64 where
  "POSTURE_FILE_VERSION = 1"

record loaded_posture =
  lp_profile :: posture_profile
  lp_warning :: "string option"

text \<open>What \<open>read_to_string\<close> gives.\<close>

datatype file_read = FR_NotFound | FR_Error | FR_Text string

definition posture_fail_closed :: "string \<Rightarrow> string \<Rightarrow> loaded_posture" where
  "posture_fail_closed path reason =
     \<lparr>lp_profile = PP_High,
      lp_warning = Some (''posture config at '' @ path @ '' is '' @ reason @
        ''; failing closed to the strictest posture (high)'')\<rparr>"

definition load_posture :: "(string \<Rightarrow> posture_file_v1 option) \<Rightarrow> string \<Rightarrow> file_read \<Rightarrow> loaded_posture" where
  "load_posture parse path file =
     (case file of
        FR_NotFound \<Rightarrow> \<lparr>lp_profile = PP_Low, lp_warning = None\<rparr>
      | FR_Error \<Rightarrow> posture_fail_closed path ''unreadable''
      | FR_Text raw \<Rightarrow>
          (case parse raw of
             None \<Rightarrow> posture_fail_closed path ''malformed (invalid JSON or unknown posture value)''
           | Some parsed \<Rightarrow>
               if pf_version parsed \<noteq> POSTURE_FILE_VERSION then
                 posture_fail_closed path ''of an unrecognized version''
               else \<lparr>lp_profile = pf_posture parsed, lp_warning = None\<rparr>))"

type_synonym file_system = "string \<Rightarrow> string option"

definition read_file :: "file_system \<Rightarrow> string \<Rightarrow> file_read" where
  "read_file fs path = (case fs path of None \<Rightarrow> FR_NotFound | Some t \<Rightarrow> FR_Text t)"

text \<open>
  The faults of one store: creating the directory, writing the temporary file, renaming it. After a
  fault the temporary file is removed, and \<open>sf_left\<close> is what stays of it when that fails, too.
\<close>

record store_faults =
  sf_mkdir :: bool
  sf_write :: bool
  sf_rename :: bool
  sf_left :: "string option"

definition posture_tmp :: "string \<Rightarrow> string" where
  "posture_tmp path = path @ ''.vigil-tmp''"

definition store_posture ::
  "(posture_file_v1 \<Rightarrow> string option) \<Rightarrow> store_faults \<Rightarrow> string \<Rightarrow> posture_profile \<Rightarrow> file_system \<Rightarrow> bool \<times> file_system" where
  "store_posture print faults path profile fs =
     (if sf_mkdir faults then (False, fs)
      else
        (case print \<lparr>pf_version = POSTURE_FILE_VERSION, pf_posture = profile\<rparr> of
           None \<Rightarrow> (False, fs)
         | Some rendered \<Rightarrow>
             if sf_write faults then (False, fs(posture_tmp path := sf_left faults))
             else if sf_rename faults then (False, fs(posture_tmp path := sf_left faults))
             else (True, fs(posture_tmp path := None, path \<mapsto> rendered @ [CHR 0x0A]))))"

text \<open>\<open>Ledger::open\<close> succeeds or not; an event that cannot be written is dropped.\<close>

definition audit_posture_switch ::
  "ledger_externs \<Rightarrow> bool \<Rightarrow> call_env \<Rightarrow> call_env \<Rightarrow> posture_profile \<Rightarrow> posture_profile \<Rightarrow> 'z ledger_scheme \<Rightarrow> 'z ledger_scheme" where
  "audit_posture_switch x open_ok env env2 old new l =
     (if \<not> open_ok then l
      else
        (case start_session env ''vigil-posture'' None l of
           (Inl _, l1) \<Rightarrow> l1
         | (Inr sid, l1) \<Rightarrow>
             snd (append_event x env2 sid ''posture.switched''
               (JObject [(''old'', JString (posture_str old)), (''new'', JString (posture_str new))])
               (Some (''posture switched '' @ posture_str old @ '' -> '' @ posture_str new)) l1)))"

section \<open>Markers of untrusted text\<close>

definition UNTRUSTED_SENTINEL_PREFIX :: string where
  "UNTRUSTED_SENTINEL_PREFIX = ''vigil-untrusted-''"

definition sentinel_hex_digit :: "nat \<Rightarrow> char" where
  "sentinel_hex_digit n = ''0123456789abcdef'' ! (n mod 16)"

definition to_hex :: "string \<Rightarrow> string" where
  "to_hex bytes = concat (map (\<lambda>b. [sentinel_hex_digit (of_char b div 16), sentinel_hex_digit (of_char b)]) bytes)"

text \<open>\<open>nonce\<close> is what the system's generator filled in, \<open>None\<close> when it failed.\<close>

definition make_untrusted_marker :: "string option \<Rightarrow> string \<times> string" where
  "make_untrusted_marker nonce =
     (let hex = to_hex (case nonce of Some n \<Rightarrow> n | None \<Rightarrow> replicate 16 (CHR 0x00)) in
      (''<'' @ UNTRUSTED_SENTINEL_PREFIX @ hex @ ''>'', ''</'' @ UNTRUSTED_SENTINEL_PREFIX @ hex @ ''>''))"

definition detect_sentinel_forgery :: "string \<Rightarrow> bool" where
  "detect_sentinel_forgery text = str_contains text UNTRUSTED_SENTINEL_PREFIX"

definition SENTINEL_MARKER_RE :: string where
  "SENTINEL_MARKER_RE = ''</?vigil-untrusted-[^>'' @ [CHR 0x5C] @ ''s]*>''"

definition strip_sentinel_markers :: "redact_externs \<Rightarrow> string \<Rightarrow> string \<times> bool" where
  "strip_sentinel_markers x text =
     (if \<not> str_contains text UNTRUSTED_SENTINEL_PREFIX then (text, False)
      else
        let stripped = remove_spans text 0 (regex_find_iter x SENTINEL_MARKER_RE text) in
        (stripped, stripped \<noteq> text))"

section \<open>Properties\<close>

fun strictness :: "posture_action \<Rightarrow> nat" where
  "strictness PO_Allow = 0"
| "strictness PO_Ask = 1"
| "strictness PO_Deny = 2"

text \<open>A higher profile never decides less strictly.\<close>

lemma escalate_stricter: "strictness (posture_decide p r) \<le> strictness (posture_decide (escalate p) r)"
  by (cases p; cases r) simp_all

lemma effective_profile_stricter:
  "strictness (posture_decide p r) \<le> strictness (posture_decide (effective_profile p risk) r)"
  by (simp add: effective_profile_def escalate_stricter)

text \<open>What is stored is read back, and a store that fails leaves the file as it was.\<close>

lemma stored_posture_loads:
  assumes "\<And>f s. print f = Some s \<Longrightarrow> parse (s @ [CHR 0x0A]) = Some f"
    and "store_posture print faults path profile fs = (ok, fs')"
  shows "if ok then load_posture parse path (read_file fs' path) = \<lparr>lp_profile = profile, lp_warning = None\<rparr>
    else fs' path = fs path"
  using assms
  by (auto simp: store_posture_def load_posture_def read_file_def posture_tmp_def split: if_splits option.splits)

text \<open>Every configuration that is there but cannot be used gives the strictest posture.\<close>

lemma damaged_posture_is_high:
  "lp_warning (load_posture parse path file) \<noteq> None \<Longrightarrow> lp_profile (load_posture parse path file) = PP_High"
  by (auto simp: load_posture_def posture_fail_closed_def split: file_read.splits option.splits)

end
