(* ===== verification/Hook.thy ===== *)
theory Hook
  imports Guard Posture Lease Wire
begin

text \<open>
  The editor hook (\<open>apps/vigil-hub-cli/src/hook.rs\<close>), first part: reading the event a coding agent
  sends before it uses a tool, the decision on it with co-approval and the injection of secrets, the
  check of a prompt, and the answer in the form of each command line program.

  The ledger file is one database that the hook opens anew for every purpose; \<open>ke_open env site\<close> says
  whether the open of that purpose succeeds and \<open>ke_at env site\<close> gives the environments of its calls.
  Messages to the standard error stream that are not part of the answer are left out. The printer and
  the parsers of \<open>serde_json\<close> are parameters.
\<close>

section \<open>Arguments and events\<close>

datatype cli_kind = Claude | Codex | Gemini | Cursor

fun cli_str :: "cli_kind \<Rightarrow> string" where
  "cli_str Claude = ''claude''"
| "cli_str Codex = ''codex''"
| "cli_str Gemini = ''gemini''"
| "cli_str Cursor = ''cursor''"

definition MAX_HOOK_INPUT_BYTES :: nat where
  "MAX_HOOK_INPUT_BYTES = 16 * 1024 * 1024"

definition CO_APPROVAL_WAIT_SECS_DEFAULT :: u64 where
  "CO_APPROVAL_WAIT_SECS_DEFAULT = 45"

definition CO_APPROVAL_WAIT_SECS_CODEX :: u64 where
  "CO_APPROVAL_WAIT_SECS_CODEX = 86000"

fun cli_co_approval_wait_secs :: "cli_kind \<Rightarrow> u64" where
  "cli_co_approval_wait_secs Codex = CO_APPROVAL_WAIT_SECS_CODEX"
| "cli_co_approval_wait_secs _ = CO_APPROVAL_WAIT_SECS_DEFAULT"

definition EXECUTION_BOUNDARY_TOOLS :: "string list" where
  "EXECUTION_BOUNDARY_TOOLS = [''Bash'', ''shell'']"

definition FILE_WRITE_TOOLS :: "string list" where
  "FILE_WRITE_TOOLS = [''Write'', ''Edit'', ''MultiEdit'', ''write_file'', ''replace'']"

definition HOOK_INJECT_SERVER_ID :: string where
  "HOOK_INJECT_SERVER_ID = ''hook-native''"

record injection_config =
  inj_enabled :: bool
  inj_secrets :: "(string \<times> string) list"
  inj_store :: secret_store
  inj_ttl_secs :: int

record hook_args =
  ka_ledger_path :: "string option"
  ka_cli :: cli_kind
  ka_posture_path :: "string option"
  ka_co_approval_wait_secs :: "u64 option"
  ka_injection :: "injection_config option"
  ka_redact_results :: bool
  ka_engine :: "engine_mode option"

definition ml_enabled :: "hook_args \<Rightarrow> bool" where
  "ml_enabled args \<longleftrightarrow> ka_engine args \<in> {Some EM_Ml, Some EM_Auto}"

definition ml_is_strict :: "hook_args \<Rightarrow> bool" where
  "ml_is_strict args \<longleftrightarrow> ka_engine args = Some EM_Ml"

record normalized_event =
  ne_session_id :: "string option"
  ne_cwd :: "string option"
  ne_tool_name :: string
  ne_tool_input :: json

datatype hook_outcome =
    HO_Allow
  | HO_Deny string
  | HO_DenyPrompt string
  | HO_Ask string
  | HO_Inject json string
  | HO_RedactOutput json string

record hook_externs =
  kx_ledger :: ledger_externs
  kx_effects :: externs
  kx_to_string :: "json \<Rightarrow> string"
  kx_posture :: "string \<Rightarrow> posture_file_v1 option"

abbreviation kx_redact :: "hook_externs \<Rightarrow> redact_externs" where
  "kx_redact x \<equiv> lx_redact (kx_ledger x)"

record hook_env =
  ke_open :: "nat \<Rightarrow> bool"
  ke_at :: "nat \<Rightarrow> nat \<Rightarrow> call_env"
  ke_default_posture :: "string option"
  ke_read :: "string \<Rightarrow> file_read"
  ke_sweep :: "(call_env \<times> call_env) list"
  ke_decision_id :: string
  ke_invocation_id :: string
  ke_wait_entry :: call_env
  ke_wait_slices :: "registry_db \<Rightarrow> (call_env \<times> registry_db) list"
  ke_wait_final :: "registry_db \<Rightarrow> call_env \<times> registry_db"
  ke_after_wait :: "registry_db \<Rightarrow> registry_db"
  ke_lease :: "nat \<Rightarrow> lease_env"
  ke_query :: "nat \<Rightarrow> ipc_request \<Rightarrow> ipc_response option"
  ke_elapsed :: "nat \<Rightarrow> nat"
  ke_nonce :: "string option"
  ke_order :: "(string \<times> string) list \<Rightarrow> (string \<times> string) list"

definition hook_sha256 :: "hook_externs \<Rightarrow> string \<Rightarrow> string" where
  "hook_sha256 x s = lx_hex_encode (kx_ledger x) (lx_sha256 (kx_ledger x) s)"

text \<open>\<open>take(64)\<close> on characters; a character that is not kept becomes a question mark.\<close>

definition safe_chars :: "(char \<Rightarrow> bool) \<Rightarrow> string \<Rightarrow> string" where
  "safe_chars keep name =
     (let cs = filter (\<lambda>c. \<not> is_cont c) name in
      map (\<lambda>c. if keep c then c else CHR ''?'') (take 64 cs) @ (if length cs > 64 then ''~'' else []))"

definition safe_tool_name :: "string \<Rightarrow> string" where
  "safe_tool_name = safe_chars (\<lambda>c. is_ascii_alphanumeric c \<or> c \<in> set ''_-.'')"

definition safe_alias :: "string \<Rightarrow> string" where
  "safe_alias = safe_chars (\<lambda>c. is_ascii_alphanumeric c \<or> c \<in> set ''_-./'')"

definition extract_str :: "json \<Rightarrow> string list \<Rightarrow> string option" where
  "extract_str obj keys = find_map (\<lambda>k. Option.bind (json_get obj k) json_as_str) keys"

definition extract_value :: "json \<Rightarrow> string list \<Rightarrow> json option" where
  "extract_value obj keys = find_map (json_get obj) keys"

definition EVENT_NAME_KEYS :: "string list" where
  "EVENT_NAME_KEYS = [''hook_event_name'', ''hookEventName'', ''event_name'', ''eventName'']"

definition specific_event_name :: "cli_kind \<Rightarrow> string \<Rightarrow> string option" where
  "specific_event_name cli raw =
     (case cli of
        Gemini \<Rightarrow>
          if raw = ''BeforeTool'' then Some ''PreToolUse''
          else if raw = ''AfterTool'' then Some ''PostToolUse'' else None
      | Cursor \<Rightarrow>
          if raw \<in> {''beforeShellExecution'', ''beforeMCPExecution'', ''beforeMcpToolExecution''} then Some ''PreToolUse''
          else if raw \<in> {''afterShellExecution'', ''afterMCPExecution'', ''afterMcpToolExecution''} then Some ''PostToolUse''
          else None
      | _ \<Rightarrow> None)"

definition normalize_event_name :: "cli_kind \<Rightarrow> string \<Rightarrow> string" where
  "normalize_event_name cli raw0 =
     (let raw = str_trim raw0 in
      case specific_event_name cli raw of
        Some s \<Rightarrow> s
      | None \<Rightarrow>
          (let folded = to_ascii_lowercase (filter (\<lambda>c. c \<noteq> CHR ''_'' \<and> c \<noteq> CHR ''-'') raw) in
           if folded = ''pretooluse'' then ''PreToolUse''
           else if folded = ''posttooluse'' then ''PostToolUse''
           else raw))"

definition SESSION_KEYS :: "string list" where
  "SESSION_KEYS = [''session_id'', ''sessionId'']"

definition TOOL_NAME_KEYS :: "string list" where
  "TOOL_NAME_KEYS = [''tool_name'', ''toolName'', ''tool'']"

definition normalize_event :: "json \<Rightarrow> cli_kind \<Rightarrow> string + normalized_event" where
  "normalize_event raw cli =
     (let session_id = extract_str raw SESSION_KEYS;
          cwd = extract_str raw [''cwd'', ''working_directory'', ''workingDirectory''] in
      case (extract_str raw TOOL_NAME_KEYS,
            extract_value raw [''tool_input'', ''toolInput'', ''input'', ''arguments'', ''args'']) of
        (Some name, Some input) \<Rightarrow>
          Inr \<lparr>ne_session_id = session_id, ne_cwd = cwd, ne_tool_name = name, ne_tool_input = input\<rparr>
      | (None, _) \<Rightarrow>
          if cli = Cursor \<and> extract_str raw [''command''] \<noteq> None then
            Inr \<lparr>ne_session_id = session_id, ne_cwd = cwd, ne_tool_name = ''shell'', ne_tool_input = raw\<rparr>
          else Inl ''Vigil hook: PreToolUse event is missing a recognizable tool name (blocked fail-closed).''
      | (Some _, None) \<Rightarrow>
          Inl (''Vigil hook: PreToolUse event is missing '' @ [CHR 0x60] @ ''tool_input'' @ [CHR 0x60] @
            '' (blocked fail-closed).''))"

section \<open>An event that cannot be parsed\<close>

definition quote_key :: "string \<Rightarrow> string" where
  "quote_key k = [CHR 0x22] @ k @ [CHR 0x22]"

definition trim_start :: "string \<Rightarrow> string" where
  "trim_start s = str_trim_start_fuel (length s) s"

text \<open>The key that occurs first.\<close>

definition first_key :: "string \<Rightarrow> (nat \<times> string) option" where
  "first_key buf =
     foldl
       (\<lambda>best k. case str_find buf k of
          None \<Rightarrow> best
        | Some p \<Rightarrow> (case best of Some (q, _) \<Rightarrow> if p < q then Some (p, k) else best | None \<Rightarrow> Some (p, k)))
       None (map quote_key EVENT_NAME_KEYS)"

definition peek_event_name :: "string \<Rightarrow> string option" where
  "peek_event_name buf =
     Option.bind (first_key buf) (\<lambda>(pos, key).
     Option.bind (str_strip_prefix (trim_start (drop (pos + length key) buf)) '':'') (\<lambda>rest1.
     Option.bind (str_strip_prefix (trim_start rest1) [CHR 0x22]) (\<lambda>rest.
     Option.bind (str_find rest [CHR 0x22]) (\<lambda>e.
       if e \<le> 64 \<and> CHR 0x5C \<notin> set (take e rest) then Some (take e rest) else None))))"

definition cli_supports_result_redaction :: "cli_kind \<Rightarrow> bool" where
  "cli_supports_result_redaction cli \<longleftrightarrow> cli \<in> {Claude, Codex}"

definition injection_on :: "hook_args \<Rightarrow> bool" where
  "injection_on args = (case ka_injection args of Some i \<Rightarrow> inj_enabled i | None \<Rightarrow> False)"

definition result_redaction_active :: "hook_args \<Rightarrow> bool" where
  "result_redaction_active args \<longleftrightarrow>
     (injection_on args \<or> ka_redact_results args \<or> ml_enabled args \<or> ka_cli args = Codex) \<and>
     cli_supports_result_redaction (ka_cli args)"

definition fail_closed_unparsed :: "hook_args \<Rightarrow> string \<Rightarrow> string \<Rightarrow> hook_outcome" where
  "fail_closed_unparsed args buf reason =
     (case map_option (normalize_event_name (ka_cli args)) (peek_event_name buf) of
        Some ev \<Rightarrow>
          if ev = ''PostToolUse'' then
            (if result_redaction_active args then
               HO_RedactOutput
                 (JString (''[Vigil] The raw tool result was withheld: '' @ reason @
                    '' It could not be scanned for credentials, so none of it is shown.''))
                 reason
             else HO_Allow)
          else if ev = ''UserPromptSubmit'' then HO_DenyPrompt reason
          else HO_Deny reason
      | None \<Rightarrow> HO_Deny reason)"

section \<open>Aliases and raw secrets\<close>

record alias_token =
  at_start :: nat
  at_end :: nat
  at_alias :: string

function scan_aliases_from :: "nat \<Rightarrow> string \<Rightarrow> alias_token list" where
  "scan_aliases_from off [] = []"
| "scan_aliases_from off (c # s) =
     (if str_starts_with (c # s) ALIAS_PREFIX then
        let body = takeWhile is_alias_body_char (after_prefix (c # s));
            next_off = off + length ALIAS_PREFIX + length body;
            rest = dropWhile is_alias_body_char (after_prefix (c # s)) in
        (if body = [] then [] else [\<lparr>at_start = off, at_end = next_off, at_alias = body\<rparr>]) @
        scan_aliases_from next_off rest
      else scan_aliases_from (off + 1) s)"
  by pat_completeness auto

termination scan_aliases_from
  by (relation "measure (\<lambda>(_, s). length s)")
    (auto simp: after_prefix_def le_imp_less_Suc length_dropWhile_le
      intro!: le_less_trans [OF length_dropWhile_le] split: nat.split)

definition scan_secret_aliases :: "string \<Rightarrow> alias_token list" where
  "scan_secret_aliases s = scan_aliases_from 0 s"

text \<open>The text with every token replaced by a value of it.\<close>

fun replace_tokens :: "(alias_token \<Rightarrow> string) \<Rightarrow> string \<Rightarrow> nat \<Rightarrow> alias_token list \<Rightarrow> string" where
  "replace_tokens f text cursor [] = drop cursor text"
| "replace_tokens f text cursor (t # ts) =
     str_slice text cursor (at_start t) @ f t @ replace_tokens f text (at_end t) ts"

definition detect_raw_secret_alias_aware :: "redact_externs \<Rightarrow> string \<Rightarrow> string option" where
  "detect_raw_secret_alias_aware x text =
     (let aliases = scan_secret_aliases text in
      case find_map (\<lambda>t. detect_hard_secret x (at_alias t)) aliases of
        Some kind \<Rightarrow> Some kind
      | None \<Rightarrow>
          (let hits = scan_hard_findings x text in
           case find (\<lambda>k. k \<noteq> ''env_assignment'') hits of
             Some kind \<Rightarrow> Some kind
           | None \<Rightarrow>
               if ''env_assignment'' \<notin> set hits then None
               else
                 let stripped = str_replace ALIAS_PREFIX [CHR 0x00] (replace_tokens (\<lambda>_. [CHR 0x00]) text 0 aliases) in
                 if stripped = text then Some ''env_assignment''
                 else if ''env_assignment'' \<in> set (scan_hard_findings x stripped) then Some ''env_assignment''
                 else None))"

definition is_execution_boundary_tool :: "string \<Rightarrow> bool" where
  "is_execution_boundary_tool tool_name \<longleftrightarrow> tool_name \<in> set EXECUTION_BOUNDARY_TOOLS"

definition cli_supports_updated_input :: "cli_kind \<Rightarrow> bool" where
  "cli_supports_updated_input cli \<longleftrightarrow> cli = Claude"

definition is_shell_safe_secret :: "string \<Rightarrow> bool" where
  "is_shell_safe_secret s = list_all (\<lambda>c. is_ascii_alphanumeric c \<or> c \<in> set ''-_=.+/:@'') s"

section \<open>The ledger of the hook\<close>

text \<open>Open the ledger and start a session in it: \<open>None\<close> when there is no ledger or one of the two fails.\<close>

definition hook_session ::
  "hook_args \<Rightarrow> hook_env \<Rightarrow> nat \<Rightarrow> string \<Rightarrow> string option \<Rightarrow> registry_db \<Rightarrow> string option \<times> registry_db" where
  "hook_session args env site source app l =
     (if ka_ledger_path args = None \<or> \<not> ke_open env site then (None, l)
      else
        (case start_session (ke_at env site 0) source app l of
           (Inl _, l1) \<Rightarrow> (None, l1)
         | (Inr sid, l1) \<Rightarrow> (Some sid, l1)))"

definition audit_deny ::
  "hook_externs \<Rightarrow> hook_env \<Rightarrow> hook_args \<Rightarrow> normalized_event \<Rightarrow> string \<Rightarrow> string option \<Rightarrow> string \<Rightarrow> registry_db \<Rightarrow> registry_db" where
  "audit_deny x env args input reason_kind raw_finding serialized l =
     (case hook_session args env 2 ''vigil-hook'' (ne_session_id input) l of
        (None, l1) \<Rightarrow> l1
      | (Some sid, l1) \<Rightarrow>
          let tool_display = safe_tool_name (ne_tool_name input) in
          snd (append_event (kx_ledger x) (ke_at env 2 1) sid ''hook.pretooluse.denied''
            (JObject
              [(''tool_name'', JString tool_display), (''decision'', JString ''deny''),
               (''reason_kind'', JString reason_kind), (''finding'', j_opt JString raw_finding),
               (''tool_input_sha256'', JString (hook_sha256 x serialized)), (''cwd'', j_opt JString (ne_cwd input)),
               (''cli'', JString (cli_str (ka_cli args)))])
            (Some (''hook denied tool '' @ [CHR 0x60] @ tool_display @ [CHR 0x60] @ '' ('' @ reason_kind @ '')'')) l1))"

definition read_session_risk :: "hook_env \<Rightarrow> hook_args \<Rightarrow> string option \<Rightarrow> registry_db \<Rightarrow> int" where
  "read_session_risk env args upstream_session l =
     (case upstream_session of
        None \<Rightarrow> 0
      | Some sid \<Rightarrow>
          if ka_ledger_path args = None \<or> \<not> ke_open env 1 then 0
          else (case get_session_risk (ke_at env 1 0) sid l of Inr n \<Rightarrow> n | Inl _ \<Rightarrow> 0))"

definition loaded_profile :: "hook_externs \<Rightarrow> hook_env \<Rightarrow> hook_args \<Rightarrow> posture_profile" where
  "loaded_profile x env args =
     (case (case ka_posture_path args of Some p \<Rightarrow> Some p | None \<Rightarrow> ke_default_posture env) of
        Some p \<Rightarrow> lp_profile (load_posture (kx_posture x) p (ke_read env p))
      | None \<Rightarrow> PP_Low)"

definition load_effective_posture ::
  "hook_externs \<Rightarrow> hook_env \<Rightarrow> hook_args \<Rightarrow> string option \<Rightarrow> registry_db \<Rightarrow> posture_profile" where
  "load_effective_posture x env args session_id l =
     effective_profile (loaded_profile x env args) (read_session_risk env args session_id l)"

section \<open>Co-approval\<close>

text \<open>The text in back quotes.\<close>

definition bt :: "string \<Rightarrow> string" where
  "bt s = [CHR 0x60] @ s @ [CHR 0x60]"

record co_approve_copy =
  cc_ask_reason :: string
  cc_title :: string
  cc_summary :: string
  cc_reason :: string
  cc_policy_id :: string

datatype co_approval_verdict = VigilAllow | VigilDeny | ToolchainFallback

fun co_approval_verdict_of :: "approval_status \<Rightarrow> co_approval_verdict" where
  "co_approval_verdict_of AS_Approved = VigilAllow"
| "co_approval_verdict_of AS_Denied = VigilDeny"
| "co_approval_verdict_of _ = ToolchainFallback"

definition co_approve_decision :: "hook_env \<Rightarrow> co_approve_copy \<Rightarrow> decision_record" where
  "co_approve_decision env copy =
     \<lparr>dr_decision_id = ke_decision_id env, dr_invocation_id = ke_invocation_id env, dr_decision = DK_Approve,
      dr_risk_score = 50, dr_reasons = [cc_reason copy], dr_policy_ids = [cc_policy_id copy], dr_created_at = 0\<rparr>"

definition audit_co_approval ::
  "hook_externs \<Rightarrow> hook_env \<Rightarrow> hook_args \<Rightarrow> string \<Rightarrow> string \<Rightarrow> posture_profile \<Rightarrow> string \<Rightarrow> string \<Rightarrow> string \<Rightarrow> string
   \<Rightarrow> registry_db \<Rightarrow> registry_db" where
  "audit_co_approval x env args sid tool_display profile args_hash aid resolver outcome l =
     snd (append_event (kx_ledger x) (ke_at env 3 6) sid ''hook.pretooluse.coapproval''
       (JObject
         [(''tool_name'', JString tool_display), (''approval_id'', JString aid), (''resolver'', JString resolver),
          (''outcome'', JString outcome), (''posture'', JString (posture_str profile)),
          (''tool_input_sha256'', JString args_hash), (''cli'', JString (cli_str (ka_cli args)))])
       (Some (''hook co-approval for '' @ bt tool_display @ '': '' @ outcome @ '' (resolver='' @ resolver @ '')'')) l)"

text \<open>Wait for a resolution; after a timeout the request is cancelled and its final status read.\<close>

definition await_co_approval ::
  "hook_externs \<Rightarrow> hook_env \<Rightarrow> string \<Rightarrow> registry_db \<Rightarrow> approval_status option \<times> registry_db" where
  "await_co_approval x env aid l =
     (let l1 = ke_after_wait env l in
      case wait_for_resolution aid (ke_wait_entry env, l) (ke_wait_slices env l) (ke_wait_final env l) of
        Inr (Some res) \<Rightarrow> (Some (res_status res), l1)
      | Inr None \<Rightarrow>
          (case cancel (kx_ledger x) (ke_at env 3 4) (ke_at env 3 5) aid (Some ''vigil-hook-timeout'') l1 of
             (Inr res, l2) \<Rightarrow> (Some (res_status res), l2)
           | (Inl _, l2) \<Rightarrow> (None, l2))
      | Inl _ \<Rightarrow> (None, l1))"

definition co_approve ::
  "hook_externs \<Rightarrow> hook_env \<Rightarrow> hook_args \<Rightarrow> normalized_event \<Rightarrow> string \<Rightarrow> string \<Rightarrow> posture_profile \<Rightarrow> co_approve_copy
   \<Rightarrow> registry_db \<Rightarrow> hook_outcome \<times> registry_db" where
  "co_approve x env args input tool_display serialized profile copy l =
     (case hook_session args env 3 ''vigil-hook'' (ne_session_id input) l of
        (None, l1) \<Rightarrow> (HO_Ask (cc_ask_reason copy), l1)
      | (Some sid, l1) \<Rightarrow>
          let l2 = snd (sweep_expired (kx_ledger x) (ke_at env 3 1) (ke_sweep env) l1);
              args_hash = hook_sha256 x serialized;
              wait_secs = (case ka_co_approval_wait_secs args of
                             Some w \<Rightarrow> w | None \<Rightarrow> cli_co_approval_wait_secs (ka_cli args)) in
          (case create_approval (kx_ledger x) (ke_at env 3 2) (ke_at env 3 3) sid (co_approve_decision env copy)
                  effect_vector_default (cc_title copy) (cc_summary copy) wait_secs
                  \<lparr>tc_server_id = None, tc_tool_name = Some tool_display, tc_args_hash = Some args_hash\<rparr> l2 of
             (Inl _, l3) \<Rightarrow> (HO_Ask (cc_ask_reason copy), l3)
           | (Inr approval, l3) \<Rightarrow>
               let audit = audit_co_approval x env args sid tool_display profile args_hash (ar_approval_id approval) in
               (case await_co_approval x env (ar_approval_id approval) l3 of
                  (None, l4) \<Rightarrow> (HO_Ask (cc_ask_reason copy), audit ''toolchain'' ''ask_fallback'' l4)
                | (Some status, l4) \<Rightarrow>
                    (case co_approval_verdict_of status of
                       VigilAllow \<Rightarrow> (HO_Allow, audit ''vigil'' ''allow'' l4)
                     | VigilDeny \<Rightarrow>
                         (HO_Deny (''Vigil denied tool '' @ bt tool_display @
                            '': the placeholder confirmation request was denied from the Vigil approval queue.''),
                          audit ''vigil'' ''deny'' l4)
                     | ToolchainFallback \<Rightarrow>
                         (HO_Ask (cc_ask_reason copy), audit ''toolchain'' ''ask_fallback'' l4)))))"

definition command_copy :: "hook_args \<Rightarrow> string \<Rightarrow> posture_profile \<Rightarrow> string \<Rightarrow> co_approve_copy" where
  "command_copy args tool_display profile detail =
     \<lparr>cc_ask_reason =
        ''Vigil requests confirmation for tool '' @ bt tool_display @ '': '' @ detail @ '' (posture: '' @
        posture_str profile @ ''). Approve or deny in your agent's prompt; you can also resolve this in the Vigil '' @
        ''approval queue. If this is not what you intended, deny it.'',
      cc_title = ''Agent tool '' @ bt tool_display @ '': potentially dangerous command'',
      cc_summary =
        ''[cli:'' @ cli_str (ka_cli args) @ ''] hook command-guard: '' @ detail @ '' (posture: '' @
        posture_str profile @ ''). Approve to allow; deny to block.'',
      cc_reason = ''command-guard: '' @ detail,
      cc_policy_id = ''hook-command-guard-ask''\<rparr>"

definition placeholder_copy :: "hook_args \<Rightarrow> string \<Rightarrow> posture_profile \<Rightarrow> co_approve_copy" where
  "placeholder_copy args tool_display eff =
     \<lparr>cc_ask_reason =
        ''Vigil requests confirmation for tool '' @ bt tool_display @ '': its input carries a '' @
        bt ''secret://'' @ ''/'' @ bt ''vigil://'' @ '' placeholder (posture: '' @ posture_str eff @
        ''). Approve or deny in your agent's prompt; you can also resolve such requests from the Vigil approval queue.'',
      cc_title = ''Agent tool '' @ bt tool_display @ '' carries a Vigil placeholder'',
      cc_summary =
        ''[cli:'' @ cli_str (ka_cli args) @ ''] hook co-approval: tool '' @ bt tool_display @
        '' input references a secret:// or vigil:// placeholder (posture: '' @ posture_str eff @
        ''). Approve to let it run; deny to block.'',
      cc_reason = ''placeholder in native tool input (medium posture)'',
      cc_policy_id = ''hook-posture-placeholder-ask''\<rparr>"

definition co_approve_command ::
  "hook_externs \<Rightarrow> hook_env \<Rightarrow> hook_args \<Rightarrow> normalized_event \<Rightarrow> string \<Rightarrow> string \<Rightarrow> posture_profile \<Rightarrow> string
   \<Rightarrow> registry_db \<Rightarrow> hook_outcome \<times> registry_db" where
  "co_approve_command x env args input tool_display serialized profile detail =
     co_approve x env args input tool_display serialized profile (command_copy args tool_display profile detail)"

section \<open>Commands\<close>

definition shell_command_of :: "normalized_event \<Rightarrow> string option" where
  "shell_command_of input =
     find_map
       (\<lambda>k. case Option.bind (json_get (ne_tool_input input) k) json_as_str of
          Some s \<Rightarrow> if s \<noteq> [] then Some s else None
        | None \<Rightarrow> None)
       [''command'', ''cmd'']"

definition file_path_of :: "normalized_event \<Rightarrow> string option" where
  "file_path_of input =
     (case Option.bind (json_get (ne_tool_input input) ''file_path'') json_as_str of
        Some s \<Rightarrow> if s \<noteq> [] then Some s else None
      | None \<Rightarrow> None)"

definition command_risk_of :: "hook_externs \<Rightarrow> normalized_event \<Rightarrow> command_risk option" where
  "command_risk_of x input =
     (case Option.bind (shell_command_of input) (\<lambda>cmd. classify_command (kx_effects x) cmd (ne_cwd input)) of
        Some r \<Rightarrow> Some r
      | None \<Rightarrow>
          if ne_tool_name input \<in> set FILE_WRITE_TOOLS then Option.bind (file_path_of input) classify_file_write
          else None)"

definition risk_class_of :: "guard_tier \<Rightarrow> risk_class \<times> string" where
  "risk_class_of tier =
     (case tier of
        Catastrophic \<Rightarrow> (RC_DestructiveCatastrophic, ''catastrophic_command'')
      | Dangerous \<Rightarrow> (RC_DangerousCommand, ''dangerous_command''))"

definition decide_command_risk ::
  "hook_externs \<Rightarrow> hook_env \<Rightarrow> hook_args \<Rightarrow> command_risk \<Rightarrow> normalized_event \<Rightarrow> string \<Rightarrow> string
   \<Rightarrow> registry_db \<Rightarrow> hook_outcome option \<times> registry_db" where
  "decide_command_risk x env args r input tool_display serialized l =
     (let (rc, kind_label) = risk_class_of (cr_tier r);
          profile = (case cr_tier r of
                       Catastrophic \<Rightarrow> PP_Low
                     | Dangerous \<Rightarrow> load_effective_posture x env args (ne_session_id input) l) in
      case posture_decide profile rc of
        PO_Allow \<Rightarrow> (None, l)
      | PO_Deny \<Rightarrow>
          (Some (HO_Deny
             (''Vigil blocked tool '' @ bt tool_display @ '': '' @ cr_detail r @
              ''. This is a FINAL security decision (posture: '' @ posture_str profile @ '') '' @ em_dash @
              '' retrying, rephrasing, or switching tools will be blocked the same way. If this action is '' @
              ''genuinely intended, the user can run it themselves outside the agent, or lower Vigil's command-guard posture.'')),
           audit_deny x env args input kind_label (Some (audit_tag (cr_category r))) serialized l)
      | PO_Ask \<Rightarrow>
          (case co_approve_command x env args input tool_display serialized profile (cr_detail r) l of
             (o', l1) \<Rightarrow> (Some o', l1)))"

section \<open>Injection at the execution boundary\<close>

definition boundary_inject_block_reason :: "string \<Rightarrow> string" where
  "boundary_inject_block_reason tool_display =
     ''Vigil blocked tool '' @ bt tool_display @ '': failed to resolve a '' @ bt ''secret://'' @
     '' alias for execution-boundary injection (blocked fail-closed). Check that the alias is declared '' @
     ''and its secret backend is reachable.''"

definition boundary_inject_metachar_block_reason :: "string \<Rightarrow> string" where
  "boundary_inject_metachar_block_reason tool_display =
     ''Vigil blocked tool '' @ bt tool_display @ '': a '' @ bt ''secret://'' @
     '' alias resolves to a value containing shell metacharacters (quotes, '' @ bt ''$'' @ '', backticks, '' @ bt '';'' @
     '', ...) that would break the command's quoting and could change what actually executes. This is a FINAL '' @
     ''security decision, not a retryable error '' @ em_dash @
     '' Vigil refuses to inject it to prevent command injection. Pass the secret via an environment variable '' @
     ''instead, or report to the user.''"

definition undeclared_reason :: "string \<Rightarrow> string \<Rightarrow> string" where
  "undeclared_reason tool_display alias =
     ''Vigil blocked tool '' @ bt tool_display @ '': the command references an undeclared secret alias '' @
     bt (''secret://'' @ safe_alias alias) @
     ''. Declare it in the Vigil secrets config before it can be injected at the execution boundary (blocked fail-closed).''"

text \<open>Mint, resolve and revoke one lease per alias; the three calls of the \<open>i\<close>-th use \<open>3 * i\<close> and the next two.\<close>

fun resolve_aliases ::
  "ledger_externs \<Rightarrow> (nat \<Rightarrow> lease_env) \<Rightarrow> injection_config \<Rightarrow> string \<Rightarrow> string \<Rightarrow> nat
   \<Rightarrow> (string \<times> string option) list \<Rightarrow> lease_state \<Rightarrow> (string \<times> string) list option \<times> lease_state" where
  "resolve_aliases x envs cfg sid tool i [] st = (Some [], st)"
| "resolve_aliases x envs cfg sid tool i ((alias, secret_ref) # rest) st =
     (case secret_ref of
        None \<Rightarrow> (None, st)
      | Some r \<Rightarrow>
          (case mint_lease x (inj_store cfg) (envs (3 * i))
                  \<lparr>mr_secret_ref = r, mr_session_id = sid, mr_server_id = HOOK_INJECT_SERVER_ID, mr_tool_name = tool,
                   mr_approval_id = None, mr_injection_method = HookCommand, mr_ttl_secs = inj_ttl_secs cfg\<rparr> st of
             (Inl _, st1) \<Rightarrow> (None, st1)
           | (Inr lease, st1) \<Rightarrow>
               (case resolve_value x (envs (3 * i + 1)) (sl_lease_id lease)
                       \<lparr>rc_session_id = sid, rc_server_id = HOOK_INJECT_SERVER_ID, rc_tool_name = tool\<rparr> st1 of
                  (Inl _, st2) \<Rightarrow> (None, snd (revoke_lease x (envs (3 * i + 2)) (sl_lease_id lease) st2))
                | (Inr v, st2) \<Rightarrow>
                    (case resolve_aliases x envs cfg sid tool (i + 1) rest
                            (snd (revoke_lease x (envs (3 * i + 2)) (sl_lease_id lease) st2)) of
                       (None, st3) \<Rightarrow> (None, st3)
                     | (Some vs, st3) \<Rightarrow> (Some ((alias, v) # vs), st3)))))"

datatype rewrite_error = RE_Missing | RE_Metachar

fun rewrite_command :: "(string \<times> string) list \<Rightarrow> string \<Rightarrow> nat \<Rightarrow> alias_token list \<Rightarrow> rewrite_error + string" where
  "rewrite_command resolved command cursor [] = Inr (drop cursor command)"
| "rewrite_command resolved command cursor (t # ts) =
     (case map_of resolved (at_alias t) of
        None \<Rightarrow> Inl RE_Missing
      | Some v \<Rightarrow>
          if \<not> is_shell_safe_secret v then Inl RE_Metachar
          else
            map_sum id (\<lambda>rest. str_slice command cursor (at_start t) @ v @ rest)
              (rewrite_command resolved command (at_end t) ts))"

fun with_command :: "json \<Rightarrow> string \<Rightarrow> json option" where
  "with_command (JObject kvs) c = Some (JObject (AList.update ''command'' (JString c) kvs))"
| "with_command _ c = None"

definition audit_injected ::
  "hook_externs \<Rightarrow> hook_env \<Rightarrow> hook_args \<Rightarrow> string \<Rightarrow> string \<Rightarrow> string list \<Rightarrow> string \<Rightarrow> registry_db \<Rightarrow> registry_db" where
  "audit_injected x env args sid tool_display unique serialized l =
     snd (append_event (kx_ledger x) (ke_at env 4 1) sid ''hook.pretooluse.injected''
       (JObject
         [(''tool_name'', JString tool_display), (''injected_aliases'', j_strs (map safe_alias unique)),
          (''alias_count'', JNumber (show_nat (length unique))),
          (''tool_input_sha256'', JString (hook_sha256 x serialized)), (''injection_method'', JString ''HookCommand''),
          (''cli'', JString (cli_str (ka_cli args)))])
       (Some (''hook injected '' @ show_nat (length unique) @ '' secret alias(es) into '' @ bt tool_display @
          '' at the execution boundary'')) l)"

definition inject_command ::
  "hook_externs \<Rightarrow> hook_env \<Rightarrow> hook_args \<Rightarrow> injection_config \<Rightarrow> normalized_event \<Rightarrow> string \<Rightarrow> string \<Rightarrow> string \<Rightarrow> string list
   \<Rightarrow> registry_db \<Rightarrow> hook_outcome \<times> registry_db" where
  "inject_command x env args cfg input tool_display serialized command unique l =
     (let block = HO_Deny (boundary_inject_block_reason tool_display) in
      case hook_session args env 4 ''vigil-hook'' (ne_session_id input) l of
        (None, l1) \<Rightarrow> (block, l1)
      | (Some sid, l1) \<Rightarrow>
          (case resolve_aliases (kx_ledger x) (ke_lease env) cfg sid (ne_tool_name input) 0
                  (map (\<lambda>a. (a, map_of (inj_secrets cfg) a)) unique) \<lparr>ls_cache = [], ls_db = l1\<rparr> of
             (None, st) \<Rightarrow> (block, ls_db st)
           | (Some resolved, st) \<Rightarrow>
               (case rewrite_command resolved command 0 (scan_secret_aliases command) of
                  Inl RE_Missing \<Rightarrow> (block, ls_db st)
                | Inl RE_Metachar \<Rightarrow> (HO_Deny (boundary_inject_metachar_block_reason tool_display), ls_db st)
                | Inr rewritten \<Rightarrow>
                    (case with_command (ne_tool_input input) rewritten of
                       None \<Rightarrow> (block, ls_db st)
                     | Some updated \<Rightarrow>
                         (HO_Inject updated
                            (''Vigil injected '' @ show_nat (length unique) @ '' secret alias(es) into '' @
                             bt tool_display @ '' at the execution boundary; the model sees only the placeholders.''),
                          audit_injected x env args sid tool_display unique serialized (ls_db st))))))"

definition try_boundary_injection ::
  "hook_externs \<Rightarrow> hook_env \<Rightarrow> hook_args \<Rightarrow> normalized_event \<Rightarrow> string \<Rightarrow> string \<Rightarrow> registry_db
   \<Rightarrow> hook_outcome option \<times> registry_db" where
  "try_boundary_injection x env args input tool_display serialized l =
     (case ka_injection args of
        None \<Rightarrow> (None, l)
      | Some cfg \<Rightarrow>
          if \<not> inj_enabled cfg \<or> \<not> cli_supports_updated_input (ka_cli args) \<or>
             \<not> is_execution_boundary_tool (ne_tool_name input) then (None, l)
          else
            (case Option.bind (json_get (ne_tool_input input) ''command'') json_as_str of
               None \<Rightarrow> (None, l)
             | Some command \<Rightarrow>
                 let tokens = scan_secret_aliases command;
                     unique = foldl (\<lambda>u t. if at_alias t \<in> set u then u else u @ [at_alias t]) [] tokens in
                 if tokens = [] then (None, l)
                 else
                   (case find (\<lambda>a. map_of (inj_secrets cfg) a = None) unique of
                      Some alias \<Rightarrow>
                        (Some (HO_Deny (undeclared_reason tool_display alias)),
                         audit_deny x env args input ''inject_undeclared'' None serialized l)
                    | None \<Rightarrow>
                        (case inject_command x env args cfg input tool_display serialized command unique l of
                           (o', l1) \<Rightarrow> (Some o', l1)))))"

section \<open>Prompts\<close>

definition audit_prompt_block ::
  "hook_externs \<Rightarrow> hook_env \<Rightarrow> hook_args \<Rightarrow> json \<Rightarrow> string \<Rightarrow> string \<Rightarrow> registry_db \<Rightarrow> registry_db" where
  "audit_prompt_block x env args raw kind prompt l =
     (case hook_session args env 5 ''vigil-hook'' (extract_str raw SESSION_KEYS) l of
        (None, l1) \<Rightarrow> l1
      | (Some sid, l1) \<Rightarrow>
          snd (append_event (kx_ledger x) (ke_at env 5 1) sid ''hook.userpromptsubmit.blocked''
            (JObject
              [(''decision'', JString ''block''), (''reason_kind'', JString ''raw_secret_in_prompt''),
               (''finding'', JString kind), (''prompt_sha256'', JString (hook_sha256 x prompt)),
               (''cli'', JString (cli_str (ka_cli args)))])
            (Some (''hook blocked prompt (raw '' @ kind @ '' in user prompt)'')) l1))"

definition prompt_block_reason :: "string \<Rightarrow> string" where
  "prompt_block_reason kind =
     ''Vigil blocked this prompt: a raw '' @ kind @
     '' credential was detected in the message submitted to the model. The prompt was NOT sent. This is a FINAL '' @
     ''security decision '' @ em_dash @
     '' never paste real secrets into the chat; declare it as a Vigil secret alias and reference '' @
     bt ''secret://<alias>'' @
     '' so the real value is injected only at the execution boundary, never exposed to the model or the audit log.''"

definition handle_user_prompt_submit ::
  "hook_externs \<Rightarrow> hook_env \<Rightarrow> hook_args \<Rightarrow> json \<Rightarrow> registry_db \<Rightarrow> hook_outcome \<times> registry_db" where
  "handle_user_prompt_submit x env args raw l =
     (case extract_str raw [''prompt'', ''user_prompt'', ''userPrompt''] of
        None \<Rightarrow> (HO_Allow, l)
      | Some prompt \<Rightarrow>
          (case detect_raw_secret_alias_aware (kx_redact x) prompt of
             None \<Rightarrow> (HO_Allow, l)
           | Some kind \<Rightarrow> (HO_DenyPrompt (prompt_block_reason kind), audit_prompt_block x env args raw kind prompt l)))"

section \<open>Answers\<close>

record hook_response =
  hr_exit_code :: u8
  hr_stdout :: "string option"
  hr_stderr :: "string option"

definition hook_specific :: "hook_externs \<Rightarrow> (string \<times> json) list \<Rightarrow> string" where
  "hook_specific x members = kx_to_string x (JObject [(''hookSpecificOutput'', JObject members)])"

definition claude_inject_json :: "hook_externs \<Rightarrow> json \<Rightarrow> string \<Rightarrow> string" where
  "claude_inject_json x updated_input note =
     hook_specific x
       [(''hookEventName'', JString ''PreToolUse''), (''permissionDecision'', JString ''allow''),
        (''permissionDecisionReason'', JString note), (''updatedInput'', updated_input)]"

definition claude_redact_json :: "hook_externs \<Rightarrow> json \<Rightarrow> string \<Rightarrow> string" where
  "claude_redact_json x updated_output note =
     hook_specific x
       [(''hookEventName'', JString ''PostToolUse''), (''additionalContext'', JString note),
        (''updatedToolOutput'', updated_output)]"

definition claude_decision_json :: "hook_externs \<Rightarrow> string \<Rightarrow> string \<Rightarrow> string" where
  "claude_decision_json x decision reason =
     hook_specific x
       [(''hookEventName'', JString ''PreToolUse''), (''permissionDecision'', JString decision),
        (''permissionDecisionReason'', JString reason)]"

definition cursor_permission_json :: "hook_externs \<Rightarrow> string \<Rightarrow> string option \<Rightarrow> string" where
  "cursor_permission_json x permission reason =
     kx_to_string x (JObject ((''permission'', JString permission) #
       (case reason of
          Some r \<Rightarrow> [(''user_message'', JString r), (''agent_message'', JString r)]
        | None \<Rightarrow> [])))"

definition decision_json :: "hook_externs \<Rightarrow> string \<Rightarrow> string \<Rightarrow> string" where
  "decision_json x decision reason =
     kx_to_string x (JObject [(''decision'', JString decision), (''reason'', JString reason)])"

definition CODEX_BLOCK_REASON_MAX_BYTES :: nat where
  "CODEX_BLOCK_REASON_MAX_BYTES = 64 * 1024"

definition codex_block_with_redacted_json :: "hook_externs \<Rightarrow> json \<Rightarrow> string \<Rightarrow> string" where
  "codex_block_with_redacted_json x updated_output note =
     (let text0 = (case updated_output of JString s \<Rightarrow> s | other \<Rightarrow> kx_to_string x other);
          text1 = (if length text0 > CODEX_BLOCK_REASON_MAX_BYTES
                   then take (cap_loop text0 CODEX_BLOCK_REASON_MAX_BYTES) text0 @
                        [CHR 0x0A] @ ''[Vigil: redacted result truncated]''
                   else text0) in
      decision_json x ''block''
        (note @ [CHR 0x0A, CHR 0x0A] @
         ''[Vigil] The raw tool result was withheld because it matched credential patterns '' @
         ''(hard fingerprints or KEY=value assignments); this is the same result with those '' @
         ''values replaced by placeholders:'' @ [CHR 0x0A] @ text1))"

definition silent :: hook_response where
  "silent = \<lparr>hr_exit_code = 0, hr_stdout = None, hr_stderr = None\<rparr>"

definition deny_response :: "hook_externs \<Rightarrow> cli_kind \<Rightarrow> string \<Rightarrow> hook_response" where
  "deny_response x cli reason =
     \<lparr>hr_exit_code = 0,
      hr_stdout =
        Some (case cli of
          Codex \<Rightarrow> claude_decision_json x ''deny'' reason
        | Gemini \<Rightarrow> decision_json x ''deny'' reason
        | _ \<Rightarrow> cursor_permission_json x ''deny'' (Some reason)),
      hr_stderr = Some reason\<rparr>"

definition blocking_exit :: "string \<Rightarrow> hook_response" where
  "blocking_exit reason = \<lparr>hr_exit_code = 2, hr_stdout = None, hr_stderr = Some reason\<rparr>"

definition stdout_only :: "string \<Rightarrow> hook_response" where
  "stdout_only out = \<lparr>hr_exit_code = 0, hr_stdout = Some out, hr_stderr = None\<rparr>"

fun respond :: "hook_externs \<Rightarrow> hook_outcome \<Rightarrow> cli_kind \<Rightarrow> hook_response" where
  "respond x HO_Allow cli =
     (case cli of Cursor \<Rightarrow> stdout_only (cursor_permission_json x ''allow'' None) | _ \<Rightarrow> silent)"
| "respond x (HO_Deny reason) cli =
     (case cli of Claude \<Rightarrow> blocking_exit reason | _ \<Rightarrow> deny_response x cli reason)"
| "respond x (HO_DenyPrompt reason) cli =
     (case cli of
        Codex \<Rightarrow> \<lparr>hr_exit_code = 0, hr_stdout = Some (decision_json x ''block'' reason), hr_stderr = Some reason\<rparr>
      | _ \<Rightarrow> blocking_exit reason)"
| "respond x (HO_Ask reason) cli =
     (case cli of
        Claude \<Rightarrow> stdout_only (claude_decision_json x ''ask'' reason)
      | Cursor \<Rightarrow> stdout_only (cursor_permission_json x ''ask'' (Some reason))
      | _ \<Rightarrow> deny_response x cli reason)"
| "respond x (HO_Inject updated_input note) cli =
     (case cli of Claude \<Rightarrow> stdout_only (claude_inject_json x updated_input note) | _ \<Rightarrow> deny_response x cli note)"
| "respond x (HO_RedactOutput updated_output note) cli =
     (case cli of
        Claude \<Rightarrow> stdout_only (claude_redact_json x updated_output note)
      | Codex \<Rightarrow>
          \<lparr>hr_exit_code = 0, hr_stdout = Some (codex_block_with_redacted_json x updated_output note),
           hr_stderr = Some note\<rparr>
      | Gemini \<Rightarrow> silent
      | Cursor \<Rightarrow> stdout_only (cursor_permission_json x ''allow'' None))"

text \<open>\<open>None\<close> is a panic of the guarded closure.\<close>

definition exit_code_guarded :: "hook_externs \<Rightarrow> cli_kind \<Rightarrow> hook_response option \<Rightarrow> hook_response" where
  "exit_code_guarded x cli r =
     (case r of
        Some resp \<Rightarrow> resp
      | None \<Rightarrow> respond x (HO_Deny ''Vigil hook: internal error (blocked fail-closed).'') cli)"

section \<open>A tool that is about to be used\<close>

definition hook_raw_secret_reason :: "string \<Rightarrow> string \<Rightarrow> string" where
  "hook_raw_secret_reason tool_display kind =
     ''Vigil blocked tool '' @ bt tool_display @ '': a raw '' @ kind @
     '' credential was detected in the tool input. This is a FINAL security decision, not a retryable error '' @ em_dash @
     '' switching tools, splitting the value, or rephrasing will be blocked the same way. Never put real secrets in '' @
     ''tool calls: declare it as a Vigil secret alias and reference '' @ bt ''secret://<alias>'' @
     '' so the real value is injected only at the execution boundary, never exposed to the model or the audit log. '' @
     ''If this credential is legitimate, tell the user to declare the alias in Vigil.''"

definition placeholder_reason :: "string \<Rightarrow> posture_profile \<Rightarrow> string" where
  "placeholder_reason tool_display eff =
     ''Vigil blocked tool '' @ bt tool_display @ '': it carries a '' @ bt ''secret://'' @ ''/'' @ bt ''vigil://'' @
     '' placeholder, but hook-boundary substitution is not enabled for native tools at this posture ('' @
     posture_str eff @ ''). Blocked fail-closed to avoid executing an unresolved placeholder. This is a FINAL '' @
     ''policy decision '' @ em_dash @
     '' do not retry or switch tools; ask the user to adjust Vigil's posture or approve the action in Vigil if '' @
     ''they want it to proceed.''"

definition placeholder_posture ::
  "hook_externs \<Rightarrow> hook_env \<Rightarrow> hook_args \<Rightarrow> normalized_event \<Rightarrow> string \<Rightarrow> string \<Rightarrow> registry_db \<Rightarrow> hook_outcome \<times> registry_db" where
  "placeholder_posture x env args input tool_display serialized l =
     (let eff = load_effective_posture x env args (ne_session_id input) l in
      case posture_decide eff RC_PlaceholderNative of
        PO_Allow \<Rightarrow> (HO_Allow, l)
      | PO_Deny \<Rightarrow>
          (HO_Deny (placeholder_reason tool_display eff), audit_deny x env args input ''placeholder'' None serialized l)
      | PO_Ask \<Rightarrow>
          co_approve x env args input tool_display serialized eff (placeholder_copy args tool_display eff) l)"

definition decide_placeholder ::
  "hook_externs \<Rightarrow> hook_env \<Rightarrow> hook_args \<Rightarrow> normalized_event \<Rightarrow> string \<Rightarrow> string \<Rightarrow> registry_db \<Rightarrow> hook_outcome \<times> registry_db" where
  "decide_placeholder x env args input tool_display serialized l =
     (if str_contains serialized ''secret://'' \<or> str_contains serialized ''vigil://redact/'' then
        (case try_boundary_injection x env args input tool_display serialized l of
           (Some o', l1) \<Rightarrow> (o', l1)
         | (None, l1) \<Rightarrow> placeholder_posture x env args input tool_display serialized l1)
      else (HO_Allow, l))"

definition handle_pre_tool_use ::
  "hook_externs \<Rightarrow> hook_env \<Rightarrow> hook_args \<Rightarrow> normalized_event \<Rightarrow> registry_db \<Rightarrow> hook_outcome \<times> registry_db" where
  "handle_pre_tool_use x env args input l =
     (let serialized = kx_to_string x (ne_tool_input input);
          tool_display = safe_tool_name (ne_tool_name input) in
      case detect_raw_secret_alias_aware (kx_redact x) serialized of
        Some kind \<Rightarrow>
          (HO_Deny (hook_raw_secret_reason tool_display kind), audit_deny x env args input ''raw_secret'' (Some kind) serialized l)
      | None \<Rightarrow>
          if str_starts_with (ne_tool_name input) ''mcp__'' then (HO_Allow, l)
          else
            (case command_risk_of x input of
               Some r \<Rightarrow>
                 (case decide_command_risk x env args r input tool_display serialized l of
                    (Some o', l1) \<Rightarrow> (o', l1)
                  | (None, l1) \<Rightarrow> decide_placeholder x env args input tool_display serialized l1)
             | None \<Rightarrow> decide_placeholder x env args input tool_display serialized l))"

section \<open>Tokens\<close>

lemma after_prefix_split:
  "str_starts_with s ALIAS_PREFIX \<Longrightarrow>
   s = ALIAS_PREFIX @ takeWhile is_alias_body_char (after_prefix s) @ dropWhile is_alias_body_char (after_prefix s)"
  by (auto simp: after_prefix_def prefix_def)

text \<open>The tokens of a scan are where they say: writing each one back gives the text.\<close>

lemma scan_aliases_from_spec:
  "off = length (pre @ lit) \<Longrightarrow>
   replace_tokens (\<lambda>t. ALIAS_PREFIX @ at_alias t) (pre @ lit @ s) (length pre) (scan_aliases_from off s) = lit @ s"
proof (induction off s arbitrary: pre lit rule: scan_aliases_from.induct)
  case (1 off)
  then show ?case by simp
next
  case (2 off c s)
  let ?s = "c # s"
  show ?case
  proof (cases "str_starts_with ?s ALIAS_PREFIX")
    case False
    then show ?thesis
      using "2.IH"(2) [of pre "lit @ [c]"] "2.prems" by simp
  next
    case True
    define body where "body = takeWhile is_alias_body_char (after_prefix ?s)"
    define rest where "rest = dropWhile is_alias_body_char (after_prefix ?s)"
    have split: "?s = ALIAS_PREFIX @ body @ rest"
      using after_prefix_split [OF True] by (simp add: body_def rest_def)
    have scan: "scan_aliases_from off ?s =
        (if body = [] then [] else [\<lparr>at_start = off, at_end = off + length ALIAS_PREFIX + length body, at_alias = body\<rparr>]) @
        scan_aliases_from (off + length ALIAS_PREFIX + length body) rest"
      using True by (simp only: scan_aliases_from.simps if_True Let_def body_def [symmetric] rest_def [symmetric])
    note IH = "2.IH"(1) [OF True refl refl refl, folded body_def rest_def]
    show ?thesis
    proof (cases "body = []")
      case True
      then show ?thesis
        using IH [of pre "lit @ ALIAS_PREFIX"] "2.prems" unfolding scan unfolding split by simp
    next
      case False
      then show ?thesis
        using IH [of "pre @ lit @ ALIAS_PREFIX @ body" "[]"] "2.prems" unfolding scan unfolding split
        by (simp add: str_slice_def add.assoc)
    qed
  qed
qed

lemma scan_secret_aliases_roundtrip:
  "replace_tokens (\<lambda>t. ALIAS_PREFIX @ at_alias t) s 0 (scan_secret_aliases s) = s"
  using scan_aliases_from_spec [of 0 "[]" "[]" s] by (simp add: scan_secret_aliases_def)

section \<open>Raw secrets\<close>

lemma find_map_None: "find_map f xs = None \<longleftrightarrow> (\<forall>y \<in> set xs. f y = None)"
  by (induction xs) (auto split: option.splits)

lemma detect_None_iff: "detect_hard_secret x s = None \<longleftrightarrow> scan_hard_findings x s = []"
  by (auto simp: detect_is_first_finding split: list.splits)

text \<open>The text with every alias token, and every bare alias prefix left, replaced by a zero byte.\<close>

definition without_aliases :: "string \<Rightarrow> string" where
  "without_aliases text =
     str_replace ALIAS_PREFIX [CHR 0x00] (replace_tokens (\<lambda>_. [CHR 0x00]) text 0 (scan_secret_aliases text))"

lemma alias_aware_clean:
  assumes "detect_raw_secret_alias_aware x text = None"
  shows "set (scan_hard_findings x text) \<subseteq> {''env_assignment''}"
    and "t \<in> set (scan_secret_aliases text) \<Longrightarrow> scan_hard_findings x (at_alias t) = []"
    and "''env_assignment'' \<in> set (scan_hard_findings x text) \<Longrightarrow>
      without_aliases text \<noteq> text \<and> ''env_assignment'' \<notin> set (scan_hard_findings x (without_aliases text))"
proof -
  have names: "find_map (\<lambda>t. detect_hard_secret x (at_alias t)) (scan_secret_aliases text) = None"
    using assms by (cases "find_map (\<lambda>t. detect_hard_secret x (at_alias t)) (scan_secret_aliases text)")
      (simp_all add: detect_raw_secret_alias_aware_def)
  have hard: "find (\<lambda>k. k \<noteq> ''env_assignment'') (scan_hard_findings x text) = None"
    using assms by (cases "find (\<lambda>k. k \<noteq> ''env_assignment'') (scan_hard_findings x text)")
      (simp_all add: detect_raw_secret_alias_aware_def names)
  then show "set (scan_hard_findings x text) \<subseteq> {''env_assignment''}"
    unfolding find_None_iff by blast
  show "t \<in> set (scan_secret_aliases text) \<Longrightarrow> scan_hard_findings x (at_alias t) = []"
    using names by (simp add: find_map_None detect_None_iff)
  show "without_aliases text \<noteq> text \<and> ''env_assignment'' \<notin> set (scan_hard_findings x (without_aliases text))"
    if "''env_assignment'' \<in> set (scan_hard_findings x text)"
    using assms that
    by (simp add: detect_raw_secret_alias_aware_def names hard without_aliases_def Let_def split: if_splits)
qed

section \<open>Leases of the hook\<close>

lemma mint_lease_cache:
  assumes "mint_lease x store env req st = (Inr lease, st')"
  shows "\<exists>v. st_get store (mr_secret_ref req) = Inr v \<and>
    map_of (ls_cache st') (sl_lease_id lease) = Some \<lparr>cs_lease = lease, cs_value = v\<rparr>"
  using assms
  by (auto simp: mint_lease_def Let_def log_minted_def log_event_def update_conv' split: sum.splits if_splits)

lemma resolved_from_cache:
  "resolve_value x env i ctx st = (Inr v, st') \<Longrightarrow> \<exists>e. map_of (ls_cache st) i = Some e \<and> v = cs_value e"
  by (auto simp: resolve_value_def split: if_splits option.splits)

text \<open>Every value comes from the store, under the reference it was asked for.\<close>

definition value_of_ref :: "injection_config \<Rightarrow> string \<times> string option \<Rightarrow> string \<times> string \<Rightarrow> bool" where
  "value_of_ref cfg ref av \<longleftrightarrow>
     fst ref = fst av \<and> (\<exists>r. snd ref = Some r \<and> st_get (inj_store cfg) r = Inr (snd av))"

lemma resolve_aliases_values:
  "resolve_aliases x envs cfg sid tool i refs st = (Some vs, st') \<Longrightarrow> list_all2 (value_of_ref cfg) refs vs"
proof (induction refs arbitrary: i st vs st')
  case Nil
  then show ?case by simp
next
  case (Cons ar refs)
  obtain a r0 where ar: "ar = (a, r0)" by fastforce
  from Cons.prems obtain r lease st1 v st2 ws where
    r: "r0 = Some r" and
    m: "mint_lease x (inj_store cfg) (envs (3 * i))
          \<lparr>mr_secret_ref = r, mr_session_id = sid, mr_server_id = HOOK_INJECT_SERVER_ID, mr_tool_name = tool,
           mr_approval_id = None, mr_injection_method = HookCommand, mr_ttl_secs = inj_ttl_secs cfg\<rparr> st = (Inr lease, st1)" and
    v: "resolve_value x (envs (3 * i + 1)) (sl_lease_id lease)
          \<lparr>rc_session_id = sid, rc_server_id = HOOK_INJECT_SERVER_ID, rc_tool_name = tool\<rparr> st1 = (Inr v, st2)" and
    rest: "resolve_aliases x envs cfg sid tool (i + 1) refs
          (snd (revoke_lease x (envs (3 * i + 2)) (sl_lease_id lease) st2)) = (Some ws, st')" and
    vs: "vs = (a, v) # ws"
    by (auto simp: ar split: option.splits prod.splits sum.splits)
  have "st_get (inj_store cfg) r = Inr v"
    using mint_lease_cache [OF m] resolved_from_cache [OF v] by auto
  then show ?case using Cons.IH [OF rest] by (simp add: ar r vs value_of_ref_def)
qed

lemma resolve_aliases_map:
  assumes "list_all2 (value_of_ref cfg) (map (\<lambda>a. (a, map_of secrets a)) names) vs" and "map_of vs a = Some v"
  shows "\<exists>r. map_of secrets a = Some r \<and> st_get (inj_store cfg) r = Inr v"
  using assms
proof (induction names arbitrary: vs)
  case (Cons n names)
  then show ?case by (cases vs) (auto simp: value_of_ref_def split: if_splits)
qed simp

section \<open>Rewriting\<close>

lemma rewrite_command_spec:
  "rewrite_command resolved command cursor ts = Inr out \<Longrightarrow>
   out = replace_tokens (\<lambda>t. the (map_of resolved (at_alias t))) command cursor ts \<and>
   (\<forall>t \<in> set ts. \<exists>v. map_of resolved (at_alias t) = Some v \<and> is_shell_safe_secret v)"
  by (induction ts arbitrary: cursor out) (auto split: option.splits if_splits sum.splits simp: map_sum_def)

section \<open>What blocks\<close>

text \<open>An answer that each program takes as a refusal of the tool use.\<close>

definition refuses :: "hook_externs \<Rightarrow> cli_kind \<Rightarrow> hook_response \<Rightarrow> bool" where
  "refuses x cli r \<longleftrightarrow>
     (case cli of
        Claude \<Rightarrow> hr_exit_code r = 2
      | Codex \<Rightarrow> hr_exit_code r = 0 \<and> (\<exists>reason. hr_stdout r = Some (claude_decision_json x ''deny'' reason))
      | Gemini \<Rightarrow> hr_exit_code r = 0 \<and> (\<exists>reason. hr_stdout r = Some (decision_json x ''deny'' reason))
      | Cursor \<Rightarrow> hr_exit_code r = 0 \<and> (\<exists>reason. hr_stdout r = Some (cursor_permission_json x ''deny'' (Some reason))))"

lemma deny_refuses: "refuses x cli (respond x (HO_Deny reason) cli)"
  by (cases cli) (auto simp: refuses_def blocking_exit_def deny_response_def)

lemma unsupported_ask_refuses: "cli \<in> {Codex, Gemini} \<Longrightarrow> refuses x cli (respond x (HO_Ask reason) cli)"
  by (auto simp: refuses_def deny_response_def)

lemma panic_refuses: "refuses x cli (exit_code_guarded x cli None)"
  by (simp add: exit_code_guarded_def deny_refuses del: respond.simps)

section \<open>Co-approval\<close>

text \<open>
  The request made for this very use was approved: the hook opened its session, swept the queue, put
  the request there with this text, tool and digest of the input, and the wait for the id of this
  request, or its cancellation after a timeout, ended with the status \<open>Approved\<close>.
\<close>

definition queue_approved ::
  "hook_externs \<Rightarrow> hook_env \<Rightarrow> hook_args \<Rightarrow> normalized_event \<Rightarrow> string \<Rightarrow> string \<Rightarrow> co_approve_copy
   \<Rightarrow> registry_db \<Rightarrow> bool" where
  "queue_approved x env args input tool_display serialized copy l \<longleftrightarrow>
     (case hook_session args env 3 ''vigil-hook'' (ne_session_id input) l of
        (None, _) \<Rightarrow> False
      | (Some sid, l1) \<Rightarrow>
          (case create_approval (kx_ledger x) (ke_at env 3 2) (ke_at env 3 3) sid (co_approve_decision env copy)
                  effect_vector_default (cc_title copy) (cc_summary copy)
                  (case ka_co_approval_wait_secs args of
                     Some w \<Rightarrow> w | None \<Rightarrow> cli_co_approval_wait_secs (ka_cli args))
                  \<lparr>tc_server_id = None, tc_tool_name = Some tool_display,
                   tc_args_hash = Some (hook_sha256 x serialized)\<rparr>
                  (snd (sweep_expired (kx_ledger x) (ke_at env 3 1) (ke_sweep env) l1)) of
             (Inl _, _) \<Rightarrow> False
           | (Inr approval, l3) \<Rightarrow>
               fst (await_co_approval x env (ar_approval_id approval) l3) = Some AS_Approved))"

lemma verdict_allow: "co_approval_verdict_of s = VigilAllow \<longleftrightarrow> s = AS_Approved"
  by (cases s) auto

lemma co_approve_allow:
  assumes "co_approve x env args input tool_display serialized profile copy l = (HO_Allow, l')"
  shows "queue_approved x env args input tool_display serialized copy l"
  using assms
  by (auto simp: co_approve_def queue_approved_def Let_def verdict_allow
      split: prod.splits option.splits sum.splits co_approval_verdict.splits)

lemma co_approve_outcomes:
  "fst (co_approve x env args input tool_display serialized profile copy l) \<in>
     {HO_Allow, HO_Ask (cc_ask_reason copy)} \<union> range HO_Deny"
  by (auto simp: co_approve_def Let_def split: prod.splits option.splits sum.splits co_approval_verdict.splits)

section \<open>Commands\<close>

lemma command_risk_decided:
  "\<exists>o' l'. decide_command_risk x env args r input tool_display serialized l = (Some o', l') \<and>
     (cr_tier r = Catastrophic \<longrightarrow> (\<exists>reason. o' = HO_Deny reason)) \<and>
     (o' = HO_Allow \<longrightarrow> queue_approved x env args input tool_display serialized
        (command_copy args tool_display (load_effective_posture x env args (ne_session_id input) l) (cr_detail r)) l) \<and>
     (\<forall>u n. o' \<noteq> HO_Inject u n)"
proof (cases "cr_tier r")
  case Catastrophic
  then show ?thesis by (simp add: decide_command_risk_def risk_class_of_def)
next
  case Dangerous
  define profile where "profile = load_effective_posture x env args (ne_session_id input) l"
  define copy where "copy = command_copy args tool_display profile (cr_detail r)"
  obtain o' l' where co: "co_approve x env args input tool_display serialized profile copy l = (o', l')" by fastforce
  have "o' = HO_Allow \<Longrightarrow> queue_approved x env args input tool_display serialized copy l"
    using co co_approve_allow by blast
  moreover have "o' \<noteq> HO_Inject u n" for u n
    using co_approve_outcomes [of x env args input tool_display serialized profile copy l] co by auto
  ultimately show ?thesis
    using Dangerous co
    by (cases profile)
      (auto simp: decide_command_risk_def risk_class_of_def profile_def [symmetric] co_approve_command_def copy_def)
qed

lemma catastrophic_classified:
  assumes "reaches_threat x root 4 Catastrophic cmd"
  shows "\<exists>r. classify_command x cmd root = Some r \<and> cr_tier r = Catastrophic"
proof -
  have "risk_hit Catastrophic (classify_command x cmd root)"
    using assms
    by (auto simp: classify_command_def classify_depth_def MAX_NEST_DEPTH_def hit_classify_levels reaches_threat_def)
  then show ?thesis by (auto simp: risk_hit_def) (metis guard_tier.exhaust tier_rank_le_iff(3))
qed

lemma catastrophic_command_risk:
  assumes "shell_command_of input = Some cmd" and "reaches_threat (kx_effects x) (ne_cwd input) 4 Catastrophic cmd"
  shows "\<exists>r. command_risk_of x input = Some r \<and> cr_tier r = Catastrophic"
  using catastrophic_classified [OF assms(2)] assms(1) by (auto simp: command_risk_of_def)

lemma native_command_risk:
  assumes "handle_pre_tool_use x env args input l = (o', l')" and "\<nexists>reason. o' = HO_Deny reason"
    and "\<not> str_starts_with (ne_tool_name input) ''mcp__''" and "command_risk_of x input = Some r"
  shows "cr_tier r = Dangerous \<and>
    (o' = HO_Allow \<longrightarrow> queue_approved x env args input (safe_tool_name (ne_tool_name input))
       (kx_to_string x (ne_tool_input input))
       (command_copy args (safe_tool_name (ne_tool_name input))
          (load_effective_posture x env args (ne_session_id input) l) (cr_detail r)) l) \<and>
    (\<forall>u n. o' \<noteq> HO_Inject u n)"
proof -
  define serialized where "serialized = kx_to_string x (ne_tool_input input)"
  define display where "display = safe_tool_name (ne_tool_name input)"
  from command_risk_decided [of x env args r input display serialized l]
  obtain o1 l1 where d: "decide_command_risk x env args r input display serialized l = (Some o1, l1)"
    "cr_tier r = Catastrophic \<longrightarrow> (\<exists>reason. o1 = HO_Deny reason)"
    "o1 = HO_Allow \<longrightarrow> queue_approved x env args input display serialized
       (command_copy args display (load_effective_posture x env args (ne_session_id input) l) (cr_detail r)) l"
    "\<forall>u n. o1 \<noteq> HO_Inject u n"
    by blast
  have "detect_raw_secret_alias_aware (kx_redact x) serialized = None"
    using assms(1,2) by (auto simp: handle_pre_tool_use_def Let_def serialized_def split: option.splits)
  then have "o' = o1"
    using assms d(1) by (simp add: handle_pre_tool_use_def serialized_def display_def)
  then show ?thesis using d assms(2) by (cases "cr_tier r") (auto simp: display_def serialized_def)
qed

section \<open>Decisions before a tool use\<close>

text \<open>C7. What a tool use carries that the hook does not refuse. No hard rule other than the assignment rule
  matches its input and none matches the name of an alias; and when the assignment rule does match, the input
  has an alias and the rule no longer matches once the aliases are taken out, so that what it matched was an
  alias. For a tool of the agent itself the command holds no catastrophic threat at any level the guard looks
  at, and a command that the guard finds dangerous has no secret injected and runs without a question only
  when the very request that the hook put in the queue for it was approved. (A tool of an MCP server is left
  to the gateway, raw credentials apart.)\<close>

theorem hook_lets_through_only_safe:
  assumes "handle_pre_tool_use x env args input l = (o', l')" and "\<nexists>reason. o' = HO_Deny reason"
  defines "text \<equiv> kx_to_string x (ne_tool_input input)"
    and "display \<equiv> safe_tool_name (ne_tool_name input)"
  shows "set (scan_hard_findings (kx_redact x) text) \<subseteq> {''env_assignment''} \<and>
    (''env_assignment'' \<in> set (scan_hard_findings (kx_redact x) text) \<longrightarrow>
       without_aliases text \<noteq> text \<and>
       ''env_assignment'' \<notin> set (scan_hard_findings (kx_redact x) (without_aliases text))) \<and>
    (\<forall>t \<in> set (scan_secret_aliases text). scan_hard_findings (kx_redact x) (at_alias t) = []) \<and>
    (\<not> str_starts_with (ne_tool_name input) ''mcp__'' \<longrightarrow>
       (\<forall>cmd. shell_command_of input = Some cmd \<longrightarrow>
          \<not> reaches_threat (kx_effects x) (ne_cwd input) 4 Catastrophic cmd) \<and>
       (\<forall>r. command_risk_of x input = Some r \<longrightarrow>
          cr_tier r = Dangerous \<and> (\<forall>u n. o' \<noteq> HO_Inject u n) \<and>
          (o' = HO_Allow \<longrightarrow> queue_approved x env args input display text
             (command_copy args display (load_effective_posture x env args (ne_session_id input) l)
                (cr_detail r)) l)))"
proof -
  have "detect_raw_secret_alias_aware (kx_redact x) text = None"
    using assms by (auto simp: handle_pre_tool_use_def Let_def split: option.splits)
  note clean = alias_aware_clean [OF this]
  have native: "\<not> reaches_threat (kx_effects x) (ne_cwd input) 4 Catastrophic cmd"
    if "\<not> str_starts_with (ne_tool_name input) ''mcp__''" "shell_command_of input = Some cmd" for cmd
    using catastrophic_command_risk [OF that(2)] native_command_risk [OF assms(1,2) that(1)] by fastforce
  have risk: "cr_tier r = Dangerous \<and> (\<forall>u n. o' \<noteq> HO_Inject u n) \<and>
      (o' = HO_Allow \<longrightarrow> queue_approved x env args input display text
         (command_copy args display (load_effective_posture x env args (ne_session_id input) l) (cr_detail r)) l)"
    if "\<not> str_starts_with (ne_tool_name input) ''mcp__''" "command_risk_of x input = Some r" for r
    unfolding text_def display_def using native_command_risk [OF assms(1,2) that] by blast
  show ?thesis by (intro conjI ballI impI allI) (use clean native risk in blast)+
qed

section \<open>Injection\<close>

text \<open>What an injection did: the configuration allowed it and every reference in the command was replaced by
  the value that the store holds for it, each of them made of harmless characters.\<close>

definition injected_exactly :: "hook_args \<Rightarrow> normalized_event \<Rightarrow> json \<Rightarrow> bool" where
  "injected_exactly args input updated \<longleftrightarrow>
     (\<exists>cfg command kvs val.
        ka_injection args = Some cfg \<and> inj_enabled cfg \<and> ka_cli args = Claude \<and>
        ne_tool_name input \<in> set EXECUTION_BOUNDARY_TOOLS \<and> ne_tool_input input = JObject kvs \<and>
        map_of kvs ''command'' = Some (JString command) \<and> scan_secret_aliases command \<noteq> [] \<and>
        updated = JObject (AList.update ''command''
          (JString (replace_tokens (\<lambda>t. val (at_alias t)) command 0 (scan_secret_aliases command))) kvs) \<and>
        (\<forall>t \<in> set (scan_secret_aliases command).
           is_shell_safe_secret (val (at_alias t)) \<and>
           (\<exists>r. map_of (inj_secrets cfg) (at_alias t) = Some r \<and> st_get (inj_store cfg) r = Inr (val (at_alias t)))))"

lemma inject_command_exact:
  assumes "inject_command x env args cfg input display serialized command unique l = (HO_Inject updated note, l')"
  shows "\<exists>kvs val. ne_tool_input input = JObject kvs \<and>
    updated = JObject (AList.update ''command''
      (JString (replace_tokens (\<lambda>t. val (at_alias t)) command 0 (scan_secret_aliases command))) kvs) \<and>
    (\<forall>t \<in> set (scan_secret_aliases command).
       is_shell_safe_secret (val (at_alias t)) \<and>
       (\<exists>r. map_of (inj_secrets cfg) (at_alias t) = Some r \<and> st_get (inj_store cfg) r = Inr (val (at_alias t))))"
proof -
  from assms obtain sid l1 resolved st rewritten where
    r: "resolve_aliases (kx_ledger x) (ke_lease env) cfg sid (ne_tool_name input) 0
          (map (\<lambda>a. (a, map_of (inj_secrets cfg) a)) unique) \<lparr>ls_cache = [], ls_db = l1\<rparr> = (Some resolved, st)" and
    w: "rewrite_command resolved command 0 (scan_secret_aliases command) = Inr rewritten" and
    u: "with_command (ne_tool_input input) rewritten = Some updated"
    by (auto simp: inject_command_def Let_def split: prod.splits option.splits sum.splits rewrite_error.splits)
  obtain kvs where kvs: "ne_tool_input input = JObject kvs" "updated = JObject (AList.update ''command'' (JString rewritten) kvs)"
    using u by (cases "ne_tool_input input") auto
  show ?thesis
    using rewrite_command_spec [OF w] resolve_aliases_map [OF resolve_aliases_values [OF r]] kvs
    by (intro exI [of _ kvs] exI [of _ "\<lambda>a. the (map_of resolved a)"]) force
qed

lemma try_injection_exact:
  assumes "try_boundary_injection x env args input display serialized l = (Some (HO_Inject updated note), l')"
  shows "injected_exactly args input updated"
proof -
  from assms obtain cfg command unique l1 where
    c: "ka_injection args = Some cfg" "inj_enabled cfg" "ka_cli args = Claude" "ne_tool_name input \<in> set EXECUTION_BOUNDARY_TOOLS"
      "json_get (ne_tool_input input) ''command'' = Some (JString command)" "scan_secret_aliases command \<noteq> []" and
    i: "inject_command x env args cfg input display serialized command unique l = (HO_Inject updated note, l1)"
    by (auto simp: try_boundary_injection_def Let_def cli_supports_updated_input_def is_execution_boundary_tool_def
        bind_eq_Some_conv split: option.splits if_splits prod.splits elim!: json_as_str.elims)
  from inject_command_exact [OF i] show ?thesis unfolding injected_exactly_def using c by fastforce
qed

text \<open>C8. A command that the hook hands on with secrets in it differs from the one it was given only in its
  references: each was declared, was replaced by the value the store holds for it, and that value has no
  character that a shell would read as more than text.\<close>

theorem injection_is_exact:
  assumes "handle_pre_tool_use x env args input l = (HO_Inject updated note, l')"
  shows "injected_exactly args input updated"
proof -
  define serialized where "serialized = kx_to_string x (ne_tool_input input)"
  define display where "display = safe_tool_name (ne_tool_name input)"
  have posture: "placeholder_posture x env args input display serialized l0 \<noteq> (HO_Inject updated note, l')" for l0
    using co_approve_outcomes [of x env args input display serialized _ _ l0]
    by (auto simp: placeholder_posture_def Let_def split: posture_action.splits dest: arg_cong [where f = fst])
      (metis UnE emptyE fst_conv hook_outcome.distinct insertE rangeE)
  have placeholder: "injected_exactly args input updated"
    if "decide_placeholder x env args input display serialized l0 = (HO_Inject updated note, l')" for l0
    using that posture try_injection_exact
    by (fastforce simp: decide_placeholder_def split: if_splits prod.splits option.splits)
  have "decide_command_risk x env args r input display serialized l \<noteq> (Some (HO_Inject updated note), l')" for r
    using command_risk_decided [of x env args r input display serialized l] by force
  with assms placeholder show ?thesis
    by (auto simp: handle_pre_tool_use_def Let_def serialized_def [symmetric] display_def [symmetric]
        split: option.splits if_splits prod.splits)
qed

section \<open>Concrete inputs\<close>

text \<open>A printer that prints the command, no regular-expression match, one declared secret, and a ledger that
  takes sessions but refuses events.\<close>

definition witness_kx :: hook_externs where
  "witness_kx =
     \<lparr>kx_ledger = plain_lx, kx_effects = witness_externs,
      kx_to_string = (\<lambda>v. case json_get v ''command'' of Some (JString s) \<Rightarrow> s | _ \<Rightarrow> []),
      kx_posture = (\<lambda>_. None)\<rparr>"

definition witness_deaf :: call_env where
  "witness_deaf = witness_env\<lparr>ce_begin_fault := True\<rparr>"

definition witness_kenv :: hook_env where
  "witness_kenv =
     \<lparr>ke_open = (\<lambda>_. True), ke_at = (\<lambda>_ _. witness_deaf), ke_default_posture = None, ke_read = (\<lambda>_. FR_NotFound),
      ke_sweep = [], ke_decision_id = ''d'', ke_invocation_id = ''i'', ke_wait_entry = witness_env, ke_wait_slices = (\<lambda>_. []),
      ke_wait_final = Pair witness_env, ke_after_wait = id, ke_lease = (\<lambda>i. (witness_lenv 1 (7 + int i))\<lparr>le_event := witness_deaf\<rparr>), ke_query = (\<lambda>_ _. None),
      ke_elapsed = (\<lambda>_. 0), ke_nonce = None, ke_order = id\<rparr>"

definition witness_kargs :: hook_args where
  "witness_kargs =
     \<lparr>ka_ledger_path = Some ''ledger'', ka_cli = Claude, ka_posture_path = None, ka_co_approval_wait_secs = None,
      ka_injection = Some \<lparr>inj_enabled = True, inj_secrets = [(''gh'', ''secret://gh'')], inj_store = witness_store,
                           inj_ttl_secs = 60\<rparr>,
      ka_redact_results = False, ka_engine = None\<rparr>"

definition witness_event :: "string \<Rightarrow> normalized_event" where
  "witness_event command =
     \<lparr>ne_session_id = Some ''s'', ne_cwd = Some ''/work/app'', ne_tool_name = ''Bash'',
      ne_tool_input = JObject [(''command'', JString command)]\<rparr>"

lemma plain_no_findings [simp]: "scan_hard_findings (lx_redact plain_lx) t = []"
  by (simp add: detect_None_iff [symmetric])

lemma plain_alias_aware [simp]: "detect_raw_secret_alias_aware (lx_redact plain_lx) t = None"
proof -
  have "find_map (\<lambda>t. None) ts = (None :: string option)" for ts :: "alias_token list" by (induction ts) auto
  then show ?thesis by (simp add: detect_raw_secret_alias_aware_def)
qed

lemma witness_ls_risk: "command_risk_of witness_kx (witness_event ''ls src'') = None"
  by code_simp

theorem hook_lets_through_only_safe_witness:
  "handle_pre_tool_use witness_kx witness_kenv witness_kargs (witness_event ''ls src'') witness_registry =
     (HO_Allow, witness_registry) \<and>
   \<not> reaches_threat (kx_effects witness_kx) (Some ''/work/app'') 4 Catastrophic ''ls src''"
proof -
  have run: "handle_pre_tool_use witness_kx witness_kenv witness_kargs (witness_event ''ls src'') witness_registry =
      (HO_Allow, witness_registry)"
  proof -
    have s: "kx_to_string witness_kx (ne_tool_input (witness_event ''ls src'')) = ''ls src''"
      "kx_redact witness_kx = lx_redact plain_lx" "ne_tool_name (witness_event ''ls src'') = ''Bash''"
      by (simp_all add: witness_kx_def witness_event_def)
    have c: "\<not> str_contains ''ls src'' ''secret://''" "\<not> str_contains ''ls src'' ''vigil://redact/''"
      "\<not> str_starts_with ''Bash'' ''mcp__''"
      by code_simp+
    show ?thesis
      unfolding handle_pre_tool_use_def s Let_def plain_alias_aware option.case witness_ls_risk decide_placeholder_def
      using c by (simp only: if_False simp_thms)
  qed
  have "shell_command_of (witness_event ''ls src'') = Some ''ls src''" by code_simp
  with run show ?thesis
    using hook_lets_through_only_safe [OF run] by (auto simp: witness_event_def)
qed

lemma witness_inject_risk: "command_risk_of witness_kx (witness_event ''curl secret://gh'') = None"
  by code_simp

lemma witness_inject_try:
  "fst (try_boundary_injection witness_kx witness_kenv witness_kargs (witness_event ''curl secret://gh'') d s witness_registry) =
     Some (HO_Inject (JObject [(''command'', JString ''curl hunter2'')])
       (''Vigil injected 1 secret alias(es) into '' @ bt d @
        '' at the execution boundary; the model sees only the placeholders.''))"
  by code_simp

theorem injection_is_exact_witness:
  "\<exists>note l'.
     handle_pre_tool_use witness_kx witness_kenv witness_kargs (witness_event ''curl secret://gh'') witness_registry =
       (HO_Inject (JObject [(''command'', JString ''curl hunter2'')]) note, l') \<and>
     injected_exactly witness_kargs (witness_event ''curl secret://gh'') (JObject [(''command'', JString ''curl hunter2'')])"
proof -
  let ?e = "witness_event ''curl secret://gh''" and ?u = "JObject [(''command'', JString ''curl hunter2'')]"
  have s: "kx_to_string witness_kx (ne_tool_input ?e) = ''curl secret://gh''"
    "kx_redact witness_kx = lx_redact plain_lx" "ne_tool_name ?e = ''Bash''"
    by (simp_all add: witness_kx_def witness_event_def)
  have c: "str_contains ''curl secret://gh'' ''secret://'' = True" "str_starts_with ''Bash'' ''mcp__'' = False"
    by code_simp+
  have "\<exists>msg l'. handle_pre_tool_use witness_kx witness_kenv witness_kargs ?e witness_registry = (HO_Inject ?u msg, l')"
  proof -
    obtain l' where t: "try_boundary_injection witness_kx witness_kenv witness_kargs ?e (safe_tool_name ''Bash'') ''curl secret://gh''
        witness_registry = (Some (HO_Inject ?u (''Vigil injected 1 secret alias(es) into '' @ bt (safe_tool_name ''Bash'') @
        '' at the execution boundary; the model sees only the placeholders.'')), l')"
      using witness_inject_try [of "safe_tool_name ''Bash''" "''curl secret://gh''"] by (metis prod.collapse)
    show ?thesis
      unfolding handle_pre_tool_use_def s Let_def plain_alias_aware option.case witness_inject_risk decide_placeholder_def c t
        if_True if_False simp_thms prod.case
      by blast
  qed
  then obtain msg l' where
    run: "handle_pre_tool_use witness_kx witness_kenv witness_kargs ?e witness_registry = (HO_Inject ?u msg, l')"
    by blast
  show ?thesis using run injection_is_exact [OF run] by blast
qed

end
