(* ===== verification/Spec2Isabelle.thy ===== *)
theory Spec2Isabelle
  imports Lease Gateway Browser Outbound Hook_Post
begin

text \<open>
  Vigils is a firewall between a software agent and the tools it calls over the Model Context Protocol
  (MCP). An agent talks JSON-RPC to the gateway (\<open>vigil-hub serve\<close>). The gateway's hub lists the tools of
  the upstream servers it has attached, and for each call it refuses raw secrets, asks the firewall,
  waits for an approval when the firewall wants one, puts real values in for \<open>secret://\<close> aliases,
  forwards the call, takes the values out of the answer again, and writes every step to an append-only,
  hash-chained audit ledger. This development models that path from the bytes of the client to the bytes
  of the upstream, and proves what the path promises. File names are relative to \<open>src/\<close>.

  \<^bold>\<open>The parts and the theories that model them.\<close>

  \<^item> Theory \<open>Prelude\<close>: machine integers, byte strings and the pieces of the Rust standard library in use.
  \<^item> \<open>Types\<close> (\<open>crates/vigil-types\<close>): the shared structs and enums, as records and datatypes, and JSON values.
  \<^item> \<open>Policy\<close> (\<open>crates/vigil-policy\<close>): rules, conditions, \<open>PolicyEngine::evaluate\<close> and the shipped rule sets.
  \<^item> \<open>Extract\<close>, \<open>Scorer\<close>, \<open>Firewall\<close> (\<open>crates/vigil-firewall\<close>): the extractors and the tool catalogue, the
    risk score, and \<open>Firewall::evaluate\<close> with the preflight scan in front of it.
  \<^item> \<open>Redact_Rules\<close>, \<open>Redact\<close>, \<open>Redact_Spans\<close>, \<open>Scan\<close> (\<open>crates/vigil-redaction\<close>): the secret patterns,
    scrubbing, the byte ranges of the placeholders, and the labelled scan.
  \<^item> \<open>Ledger\<close>, \<open>Approvals\<close>, \<open>Outbox\<close>, \<open>Span\<close>, \<open>Checkpoint\<close>, \<open>Registry\<close> (\<open>crates/vigil-audit\<close>): the event
    chain, the approval queue, outgoing messages, the life of one tool call, the anchor file beside the
    database, and the registry of servers and tool descriptors with the oracle over it
    (\<open>crates/vigil-mcp/src/oracle.rs\<close>).
  \<^item> \<open>Lease\<close> (\<open>crates/vigil-lease\<close>): secrets lent to one session, server and tool.
  \<^item> \<open>Rpc\<close>, \<open>Namespace\<close>, \<open>Aliases\<close>, \<open>Hub\<close>, \<open>Hub_List\<close> (\<open>crates/vigil-mcp\<close>: \<open>protocol.rs\<close>, \<open>namespace.rs\<close>
    and \<open>descriptor.rs\<close>, the free functions and then the methods of \<open>hub.rs\<close>).
  \<^item> \<open>Serve\<close> (\<open>apps/vigil-hub-cli/src/serve.rs\<close> and \<open>crates/vigil-http-auth/src/store.rs\<close>): configuration, the guard for
    upstream addresses, attaching upstreams, building the hub, the loop over standard input and output.
  \<^item> \<open>Wire\<close> (\<open>crates/vigil-daemon-ipc\<close>): the client of the scanner process, its frames and the application of
    its findings to a text.
  \<^item> \<open>Browser\<close> (\<open>crates/vigil-browser\<close> and \<open>apps/native-host/src/lib.rs\<close>): the guard for what a user pastes,
    types or submits in a browser, and the native messaging host around it.
  \<^item> \<open>Outbound\<close> (\<open>crates/vigil-outbound\<close>): the proxy between coding agents and model providers.
  \<^item> \<open>Guard\<close>, \<open>Posture\<close>, \<open>Hook\<close>, \<open>Hook_Post\<close> (\<open>apps/vigil-hub-cli/src\<close>: \<open>command_guard.rs\<close>, \<open>posture.rs\<close>,
    \<open>hook.rs\<close>, and \<open>crates/vigil-redaction/src/sentinel.rs\<close>): the second entry, a command that coding agents call
    before and after their own tools and for each prompt. The guard classifies shell commands and file
    writes, the posture says what is allowed, asked or refused; \<open>Hook\<close> holds the decision before a tool
    use with co-approval and the injection of secrets, \<open>Hook_Post\<close> the treatment of results and the process.
  \<^item> \<open>Gateway\<close>: the hub that \<open>serve\<close> builds together with the firewall and the stored registry.

  \<^bold>\<open>How state and effects are modelled.\<close> A struct is a record and an enum a datatype with the constructors
  of the source. A string is the list of its UTF-8 bytes. A \<open>Result\<close> is a sum with the error on the left;
  every early return is a branch. The database is a record that grows along the chain \<open>ledger\<close>,
  \<open>approval_db\<close>, \<open>outbox_db\<close>, \<open>span_db\<close>, \<open>registry_db\<close>, one field per table, each table the list of its
  rows in key order; an operation maps the state to its result and the new state. What an operation reads
  from outside, and which of its database steps fails, is its \<open>call_env\<close>: the clock, the next random
  identifier, a poisoned lock, a failing transaction. A statement that quantifies over environments
  covers every such failure. Crates outside the repository (\<open>regex\<close>, \<open>url\<close>, \<open>serde_json\<close>, \<open>sha2\<close>, \<open>base64\<close>
  and others) are fields of the records \<open>externs\<close>, \<open>redact_externs\<close>, \<open>ledger_externs\<close>, \<open>hub_externs\<close>,
  \<open>net_externs\<close>, \<open>serve_externs\<close>, \<open>host_externs\<close>, \<open>gate_externs\<close> and \<open>hook_externs\<close>; where a property relies on one, its hypothesis says what of it.

  \<^bold>\<open>Contracts.\<close> The locale \<open>effect_extractor\<close> states that an extractor only adds effects, and is
  interpreted for each extractor and the catalogue. \<open>audit_log\<close> states what an append keeps of a log;
  the ledger is its interpretation. \<open>table_history\<close> is induction over the histories of the approval
  queue, interpreted for three invariants. \<open>descriptor_oracle\<close> is what the firewall relies on when it
  asks for the status of a descriptor; it is interpreted by the registry's oracle twice, for the history
  of registry operations (\<open>Registry\<close>) and for the tables as they are stored (\<open>Gateway\<close>).

  \<^bold>\<open>What is shown.\<close>

  \<^item> Authorization: what the shipped rules let through without asking; that a call reaches an upstream
    only with a grant (a session approval, an approved descriptor, or an approval given while waiting),
    of the hub alone and of the gateway with the command line it was started with; that a client cannot
    change rules or modes; that only tools are listed and routed which an approved server presented in that
    listing with an approved descriptor; that a missing rule, a failed scan or a failed audit write refuses
    the call, and that each verdict is the policy's on what was extracted from the call and found in it.
  \<^item> Secrets: no raw secret is sent, no injected value comes back in a result, none is written to the ledger, a lease
    opens only for its session, server and tool, and scrubbing leaves no match outside a placeholder.
    The browser guard lets no text with a match pass, whatever the scanner process says; the findings of
    that process are hidden completely and without splitting a character; the outbound proxy sends no
    body in whose bytes a rule matches, and only to its configured providers.
  \<^item> Audit: an append keeps the chain exactly when the lookup of its head did not fail, the head hash
    determines the history (up to collisions of the digest), anchored history is kept, an approval is
    resolved once, an outgoing message is executed only after approval, the outbox refines the status
    machine of the code (which is not the one of ADR 0004 D7: it has a status of its own for expiry, fails
    from approved and can be cancelled while it waits), the events of a tool call come in order. A stored
    OAuth row is checked against the event it names; one that names none is returned as it is.
  \<^item> Protocol: the loop over bytes refines the handling of one message after another and ends; a route
    cannot be taken over by another server; an accepted upstream address is public.

  \<^item> Coding agents: the guard reports the highest threat within four levels of nested shells. In the form
    of each agent and whatever else fails, the hook gives the answer its input requires
    (\<open>required_answer\<close>): refused are events that cannot be read and are not named as a result or a prompt,
    and tool uses with a raw credential or, outside MCP tools, a catastrophic command. A dangerous command
    runs unasked only after the approval of the request made for it, nothing but declared references
    changes when secrets are injected, and what Claude Code and Codex show of a result rests on a value
    without declared secrets.

  \<^bold>\<open>Loops.\<close> Functions whose recursion is not structural have termination proofs (\<open>run_stdio_loop\<close> and
  \<open>run_host\<close> by the bytes left, \<open>is_blocked_ssrf_ip\<close> because an IPv4 address has no further embedding). Opening the JSON
  texts nested in the strings of an answer (\<open>scrub_json_strings\<close> in \<open>Aliases\<close>) takes fuel;
  \<open>scrub_terminates\<close> shows that the length of the longest string is enough and that more changes nothing. The wait for an approval is a list of its looks, each with the
  state it sees and the failure it meets; \<open>wait_sees_every_resolution\<close> shows that it returns what the first look
  with a failure or a resolution shows, and nothing when there is none.

  \<^bold>\<open>Not modelled.\<close> Machine-learning engines and their model files (feature \<open>ort\<close>) are parameters; so are
  process creation, TLS, DNS and the key ring. The installers and set-up commands of the command line
  (\<open>setup_mcp.rs\<close>, \<open>setup_hooks.rs\<close>, \<open>setup.rs\<close>, \<open>quickstart.rs\<close>, \<open>demo.rs\<close>, \<open>main.rs\<close>) edit files of other
  programs; the desktop application, the browser extension, the scanner process itself and the OAuth
  client are separate programs or transports that share the crates modelled here. Of the hook, the
  diagnostics on the standard error stream and the query that starts a classification in the scanner
  process without waiting for it are left out. Of the ledger, opening and migrating a database file and full-text search are left out.
  Threads are sequences of steps; the mutexes of the code make each operation one step.
\<close>

section \<open>Properties that span components\<close>

text \<open>
  C4. No tool runs unasked whose descriptor nobody approved. Run the firewall with the shipped
  rules and the registry as its oracle, on the database that any sequence of registry operations
  produced from an empty registry: if it allows a call, that sequence contains an explicit approval
  of exactly the tool and descriptor hash of the call (a first approval while that hash was the
  candidate, or a re-approval to it), and one that gave the server more than no trust.
\<close>

theorem allowed_call_was_approved:
  assumes "l = run_regs x codec ops (new_registry a)"
    and "firewall_evaluate fx x (registry_oracle codec env1 env2 l) env fw call scope_ctx n l =
      (Inr (Allowed d e), n', l')"
    and "fw_policy fw = policy_engine_new default_ruleset"
  shows "happened x codec (new_registry a) ops
      (approves (ti_server_id call) (ti_tool_name call) (ti_descriptor_hash call)) \<and>
    happened x codec (new_registry a) ops (trusts (ti_server_id call))"
  using registry.allowed_approved [OF assms(2) [unfolded assms(1)] assms(3)]
  by (simp add: registry_approved_def)

definition witness_hash :: string where
  "witness_hash = replicate 64 (CHR ''a'')"

definition witness_profile :: server_profile where
  "witness_profile =
     \<lparr>sp_server_id = ''fs'', sp_transport = Http, sp_command = None, sp_url = Some ''u'',
      sp_first_seen_at = 1, sp_command_hash = None, sp_descriptor_hash = None,
      sp_trust_level = Untrusted, sp_sandbox_profile_id = None\<rparr>"

definition witness_history :: "registry_op list" where
  "witness_history =
     [RO_register witness_env witness_env witness_profile, RO_approve_server witness_env ''fs'' Limited,
      RO_pin witness_env ''fs'' ''read_file'' witness_hash,
      RO_approve_tool witness_env witness_env ''fs'' ''read_file'']"

theorem allowed_call_was_approved_witness:
  "happened witness_qx witness_codec (new_registry (new_span_db empty_db)) witness_history
     (approves ''fs'' ''read_file'' witness_hash)"
proof -
  let ?call = "witness_invocation\<lparr>ti_descriptor_hash := witness_hash\<rparr>"
  let ?l = "run_regs witness_qx witness_codec witness_history (new_registry (new_span_db empty_db))"
  let ?ev = "firewall_evaluate witness_externs witness_qx
     (registry_oracle witness_codec witness_env witness_env ?l) witness_fenv witness_firewall ?call NonOauth 0 ?l"
  have "map_sum id outcome_decision_kind (fst ?ev) = Inr DK_Allow" by code_simp
  then obtain d e n' l' where ev: "?ev = (Inr (Allowed d e), n', l')"
    by (cases ?ev rule: prod_cases3) (auto simp: map_sum_Inr_iff elim!: outcome_decision_kind.elims)
  have "fw_policy witness_firewall = policy_engine_new default_ruleset"
    by (simp add: witness_firewall_def firewall_new_def with_scanner_def)
  from allowed_call_was_approved [OF refl ev this] show ?thesis
    by (simp add: witness_invocation_def)
qed

end
